(* ===== verification/Prelude.thy ===== *)
theory Prelude
  imports Complex_Main "HOL-Library.Log_Nat"
begin

text \<open>
  Shared material of the development: the fact collections, the error-value type of fallible
  code and its sequencing operators, and generic lemmas on lists and options.

  A JavaScript computation that may throw is a value of type \<open>'e + 'a\<close>: \<open>Inl e\<close> is the
  thrown error, \<open>Inr x\<close> the returned value.  A value the source types as \<open>T | undefined\<close> or
  \<open>T | null\<close> is an \<open>'a option\<close>.
\<close>

named_theorems js_arith \<open>exactness rules of the number model on safe integers\<close>
named_theorems js_int \<open>folding of number literals into integer-valued numbers\<close>
named_theorems js_str \<open>evaluation rules of the string model\<close>
named_theorems emits_rules \<open>rules that compute what an action appends to the log\<close>

section \<open>Error values\<close>

fun res_bind :: "'e + 'a \<Rightarrow> ('a \<Rightarrow> 'e + 'b) \<Rightarrow> 'e + 'b" where
  "res_bind (Inl e) f = Inl e"
| "res_bind (Inr x) f = f x"

lemma res_bind_Inr_iff [simp]: "res_bind m f = Inr y \<longleftrightarrow> (\<exists>x. m = Inr x \<and> f x = Inr y)"
  by (cases m) auto

lemma res_bind_Inl_iff: "res_bind m f = Inl e \<longleftrightarrow> m = Inl e \<or> (\<exists>x. m = Inr x \<and> f x = Inl e)"
  by (cases m) auto

lemma res_bind_assoc: "res_bind (res_bind m f) g = res_bind m (\<lambda>x. res_bind (f x) g)"
  by (cases m) auto

text \<open>\<open>Array.prototype.map\<close> with a callback that may throw: the first error wins.\<close>

fun res_map :: "('a \<Rightarrow> 'e + 'b) \<Rightarrow> 'a list \<Rightarrow> 'e + 'b list" where
  "res_map f [] = Inr []"
| "res_map f (x # xs) = res_bind (f x) (\<lambda>y. res_bind (res_map f xs) (\<lambda>ys. Inr (y # ys)))"

lemma res_map_length: "res_map f xs = Inr ys \<Longrightarrow> length ys = length xs"
  by (induction xs arbitrary: ys) auto

lemma res_map_nth: "res_map f xs = Inr ys \<Longrightarrow> i < length xs \<Longrightarrow> f (xs ! i) = Inr (ys ! i)"
  by (induction xs arbitrary: ys i) (auto simp: nth_Cons split: nat.splits)

section \<open>Array searches\<close>

text \<open>\<open>Array.prototype.find\<close> is the library's \<open>List.find\<close>; \<open>findIndex\<close> and
  \<open>lastIndexOf\<close> return \<open>None\<close> where the source returns \<open>-1\<close>.\<close>

fun find_index :: "('a \<Rightarrow> bool) \<Rightarrow> 'a list \<Rightarrow> nat option" where
  "find_index P [] = None"
| "find_index P (x # xs) = (if P x then Some 0 else map_option Suc (find_index P xs))"

lemma find_index_SomeD:
  "find_index P xs = Some i \<Longrightarrow> i < length xs \<and> P (xs ! i) \<and> (\<forall>j<i. \<not> P (xs ! j))"
proof (induction xs arbitrary: i)
  case (Cons x xs)
  then show ?case
    by (cases i) (auto simp: nth_Cons split: if_splits nat.splits)
qed simp

lemma find_index_None_iff: "find_index P xs = None \<longleftrightarrow> (\<forall>x\<in>set xs. \<not> P x)"
  by (induction xs) auto

lemma find_SomeD: "List.find P xs = Some x \<Longrightarrow> x \<in> set xs \<and> P x"
  by (auto simp: find_Some_iff)

lemma find_Some_witness:
  assumes "x \<in> set xs" "P x"
  obtains y where "List.find P xs = Some y" "y \<in> set xs" "P y"
  using assms by (cases "List.find P xs") (auto simp: find_None_iff dest: find_SomeD)

lemma find_unique:
  assumes "List.find P xs = Some x" "y \<in> set xs" "P y" "\<And>a b. P a \<Longrightarrow> P b \<Longrightarrow> a = b"
  shows "x = y"
  using assms find_SomeD [OF assms(1)] by blast

end
