(* ===== verification/Js_Number.thy ===== *)
theory Js_Number
  imports Prelude
begin

text \<open>
  The JavaScript \<open>number\<close> type: IEEE-754 binary64 values with round-to-nearest, ties to even.

  A finite double is its exact rational value; \<open>fl\<close> rounds a rational to the nearest double
  with an unbounded upper exponent range and \<open>to_double\<close> adds the overflow to the infinities.
  Subnormals are covered (the exponent is clipped at -1022).  The sign of zero is not
  represented: no operation of the modelled code observes it.
\<close>

section \<open>Rounding\<close>

definition ilog2 :: "rat \<Rightarrow> int" where
  "ilog2 x = (if 1 \<le> x then bitlen \<lfloor>x\<rfloor> - 1 else - bitlen (\<lceil>1 / x\<rceil> - 1))"

definition qexp :: "rat \<Rightarrow> int" where
  "qexp x = max (ilog2 \<bar>x\<bar>) (-1022) - 52"

definition round_half_even :: "rat \<Rightarrow> int" where
  "round_half_even x =
     (let f = \<lfloor>x\<rfloor>; r = x - of_int f in
      if r < 1 / 2 then f
      else if 1 / 2 < r then f + 1
      else if even f then f else f + 1)"

definition fl :: "rat \<Rightarrow> rat" where
  "fl x = (if x = 0 then 0
           else of_int (round_half_even (x / 2 powi qexp x)) * 2 powi qexp x)"


lemma ilog2_bounds:
  assumes "0 < x"
  shows "2 powi ilog2 x \<le> x \<and> x < 2 powi (ilog2 x + 1)"
proof (cases "1 \<le> x")
  case True
  let ?n = "\<lfloor>x\<rfloor>"
  from True have n: "1 \<le> ?n" by simp
  then have b: "2 ^ nat (bitlen ?n - 1) \<le> ?n \<and> ?n < 2 ^ nat (bitlen ?n)"
    by (intro bitlen_bounds) simp
  have pos: "0 < bitlen ?n" using n by (metis bitlen_eq_zero_iff bitlen_nonneg less_le not_one_le_zero order_less_le_trans zero_less_one)
  have lo: "(2::rat) powi ilog2 x = of_int (2 ^ nat (bitlen ?n - 1))"
    using True pos by (simp add: ilog2_def power_int_def)
  have hi: "(2::rat) powi (ilog2 x + 1) = of_int (2 ^ nat (bitlen ?n))"
    using True pos by (simp add: ilog2_def power_int_def)
  have "of_int (2 ^ nat (bitlen ?n - 1)) \<le> (of_int ?n :: rat)" using b by (simp only: of_int_le_iff)
  moreover have "x < of_int (?n + 1)" by linarith
  moreover have "of_int (?n + 1) \<le> (of_int (2 ^ nat (bitlen ?n)) :: rat)"
    unfolding of_int_le_iff using b by linarith
  ultimately show ?thesis unfolding lo hi using of_int_floor_le [of x] by linarith
next
  case False
  let ?y = "1 / x" and ?m = "\<lceil>1 / x\<rceil> - 1"
  from False assms have y: "1 < ?y" by simp
  then have m: "1 \<le> ?m" by linarith
  then have b: "2 ^ nat (bitlen ?m - 1) \<le> ?m \<and> ?m < 2 ^ nat (bitlen ?m)"
    by (intro bitlen_bounds) simp
  have pos: "0 < bitlen ?m" using m by (metis bitlen_eq_zero_iff bitlen_nonneg less_le not_one_le_zero order_less_le_trans zero_less_one)
  have ylo: "(2::rat) ^ nat (bitlen ?m - 1) < ?y"
  proof -
    have "(of_int (2 ^ nat (bitlen ?m - 1)) :: rat) \<le> of_int ?m" using b by (simp only: of_int_le_iff)
    moreover have "of_int ?m < ?y" by linarith
    ultimately show ?thesis by simp
  qed
  have yhi: "?y \<le> (2::rat) ^ nat (bitlen ?m)"
  proof -
    have "(of_int (?m + 1) :: rat) \<le> of_int (2 ^ nat (bitlen ?m))" unfolding of_int_le_iff using b by linarith
    moreover have "?y \<le> of_int (?m + 1)" by linarith
    ultimately have "?y \<le> of_int (2 ^ nat (bitlen ?m))" by (rule order_trans [rotated])
    then show ?thesis by simp
  qed
  have lo: "(2::rat) powi ilog2 x = 1 / 2 ^ nat (bitlen ?m)"
    using False pos by (simp add: ilog2_def power_int_def inverse_eq_divide power_one_over)
  have hi: "(2::rat) powi (ilog2 x + 1) = 1 / 2 ^ nat (bitlen ?m - 1)"
  proof (cases "bitlen ?m = 1")
    case True
    then show ?thesis using False by (simp add: ilog2_def)
  next
    case F2: False
    have "- bitlen ?m + 1 < 0" using F2 pos by linarith
    moreover have "nat (- (- bitlen ?m + 1)) = nat (bitlen ?m - 1)" by simp
    ultimately show ?thesis using False by (simp add: ilog2_def power_int_def inverse_eq_divide power_one_over)
  qed
  from yhi assms have "1 / 2 ^ nat (bitlen ?m) \<le> x"
    by (simp add: field_simps)
  moreover from ylo assms have "x < 1 / 2 ^ nat (bitlen ?m - 1)"
    by (simp add: field_simps)
  ultimately show ?thesis unfolding lo hi by simp
qed

lemma ilog2_mono:
  assumes "0 < x" "x \<le> y"
  shows "ilog2 x \<le> ilog2 y"
proof (rule ccontr)
  assume "\<not> ilog2 x \<le> ilog2 y"
  then have "ilog2 y + 1 \<le> ilog2 x" by simp
  then have "(2::rat) powi (ilog2 y + 1) \<le> 2 powi ilog2 x" by (intro power_int_increasing) auto
  moreover have "2 powi ilog2 x \<le> x" using ilog2_bounds [OF assms(1)] by simp
  moreover have "y < 2 powi (ilog2 y + 1)" using ilog2_bounds [of y] assms by simp
  ultimately show False using assms by linarith
qed

lemma ilog2_eqI:
  assumes "2 powi k \<le> x" "x < 2 powi (k + 1)"
  shows "ilog2 x = k"
proof -
  have x: "0 < x" using assms(1) by (meson less_le_trans zero_less_numeral zero_less_power_int)
  note b = ilog2_bounds [OF x]
  have "\<not> ilog2 x + 1 \<le> k"
  proof
    assume "ilog2 x + 1 \<le> k"
    then have "(2::rat) powi (ilog2 x + 1) \<le> 2 powi k" by (intro power_int_increasing) auto
    with b assms show False by linarith
  qed
  moreover have "\<not> k + 1 \<le> ilog2 x"
  proof
    assume "k + 1 \<le> ilog2 x"
    then have "(2::rat) powi (k + 1) \<le> 2 powi ilog2 x" by (intro power_int_increasing) auto
    with b assms show False by linarith
  qed
  ultimately show ?thesis by linarith
qed

lemma rhe_of_int [simp]: "round_half_even (of_int n) = n"
  by (simp add: round_half_even_def)

lemma rhe_error: "\<bar>of_int (round_half_even x) - x\<bar> \<le> 1 / 2"
proof -
  have "of_int \<lfloor>x\<rfloor> \<le> x" "x < of_int \<lfloor>x\<rfloor> + 1" by linarith+
  then show ?thesis by (auto simp: round_half_even_def Let_def abs_le_iff)
qed

lemma rhe_cases: "round_half_even x = \<lfloor>x\<rfloor> \<or> round_half_even x = \<lfloor>x\<rfloor> + 1"
  by (simp add: round_half_even_def Let_def)

lemma rhe_mono:
  assumes "x \<le> y"
  shows "round_half_even x \<le> round_half_even y"
proof (cases "\<lfloor>x\<rfloor> = \<lfloor>y\<rfloor>")
  case True
  then show ?thesis using assms by (auto simp: round_half_even_def Let_def)
next
  case False
  then have "\<lfloor>x\<rfloor> + 1 \<le> \<lfloor>y\<rfloor>" using floor_mono [OF assms] by linarith
  then show ?thesis using rhe_cases [of x] rhe_cases [of y] by linarith
qed

lemma rhe_minus: "round_half_even (- x) = - round_half_even x"
proof (cases "x \<in> \<int>")
  case True
  then obtain n where "x = of_int n" by (auto elim: Ints_cases)
  then show ?thesis using rhe_of_int [of "-n"] by simp
next
  case False
  have f: "\<lfloor>- x\<rfloor> = - \<lfloor>x\<rfloor> - 1"
  proof (rule floor_unique)
    have "x \<noteq> of_int \<lfloor>x\<rfloor>" using False by (metis Ints_of_int)
    then show "of_int (- \<lfloor>x\<rfloor> - 1) \<le> - x" "- x < of_int (- \<lfloor>x\<rfloor> - 1) + 1" 
      using floor_correct [of x] by linarith+
  qed
  show ?thesis unfolding round_half_even_def Let_def f
    by (auto simp: not_less)
qed


lemma qexp_minus [simp]: "qexp (- x) = qexp x"
  by (simp add: qexp_def)

lemma fl_0 [simp]: "fl 0 = 0"
  by (simp add: fl_def)

lemma fl_minus [simp]: "fl (- x) = - fl x"
  by (simp add: fl_def rhe_minus)

text \<open>A multiple of a power of two on the rounding grid of its own binade is a double.\<close>

lemma fl_grid:
  assumes "x = of_int m * 2 powi e" "qexp x \<le> e"
  shows "fl x = x"
proof (cases "x = 0")
  case False
  let ?q = "qexp x"
  have "x / 2 powi ?q = of_int m * 2 powi (e - ?q)"
    by (simp add: assms(1) power_int_diff)
  also have "\<dots> = of_int (m * 2 ^ nat (e - ?q))"
    using assms(2) by (simp add: power_int_def)
  finally have "round_half_even (x / 2 powi ?q) = m * 2 ^ nat (e - ?q)"
    by (simp only: rhe_of_int)
  then have "fl x = of_int m * (2 powi (e - ?q) * 2 powi ?q)"
    using False assms(2) by (simp add: fl_def power_int_def mult.assoc)
  also have "\<dots> = of_int m * 2 powi e" by (simp flip: power_int_add)
  finally show ?thesis using assms(1) by simp
qed simp

lemma fl_error: "\<bar>fl x - x\<bar> \<le> 2 powi qexp x / 2"
proof (cases "x = 0")
  case False
  let ?p = "2 powi qexp x :: rat"
  have p: "0 < ?p" by simp
  have "fl x - x = (of_int (round_half_even (x / ?p)) - x / ?p) * ?p"
    using False by (simp add: fl_def left_diff_distrib)
  then have "\<bar>fl x - x\<bar> = \<bar>of_int (round_half_even (x / ?p)) - x / ?p\<bar> * ?p"
    using p by (simp add: abs_mult)
  also have "\<dots> \<le> 1 / 2 * ?p"
    by (rule mult_right_mono [OF rhe_error]) simp
  finally show ?thesis by simp
qed simp

lemma fl_nonneg: "0 \<le> x \<Longrightarrow> 0 \<le> fl x"
proof -
  assume x: "0 \<le> x"
  have "round_half_even (of_int 0) \<le> round_half_even (x / 2 powi qexp x)"
    by (rule rhe_mono) (use x in simp)
  then have "0 \<le> round_half_even (x / 2 powi qexp x)" by (simp only: rhe_of_int)
  then show ?thesis by (simp add: fl_def)
qed

lemma powi_ratio:
  assumes "q \<le> k"
  shows "(2::rat) powi k / 2 powi q = of_int (2 ^ nat (k - q))"
proof -
  have "(2::rat) powi k / 2 powi q = 2 powi (k - q)" by (simp add: power_int_diff)
  also have "\<dots> = of_int (2 ^ nat (k - q))" using assms by (simp add: power_int_def)
  finally show ?thesis .
qed

lemma fl_mono_pos:
  assumes "0 < x" "x \<le> y"
  shows "fl x \<le> fl y"
proof (cases "qexp x = qexp y")
  case True
  have "x / 2 powi qexp x \<le> y / 2 powi qexp x" using assms by (intro divide_right_mono) auto
  then have "round_half_even (x / 2 powi qexp x) \<le> round_half_even (y / 2 powi qexp y)"
    unfolding True by (rule rhe_mono)
  then show ?thesis using assms True by (simp add: fl_def mult_right_mono)
next
  case False
  have y: "0 < y" using assms by simp
  let ?k = "ilog2 y" and ?B = "2 powi ilog2 y :: rat"
  have le: "ilog2 x \<le> ?k" by (rule ilog2_mono) (use assms in auto)
  with False assms have k: "-1022 < ?k" "ilog2 x < ?k" "qexp x < ?k"
    by (auto simp: qexp_def max_def split: if_splits)
  have qy: "qexp y = ?k - 52" using k y by (simp add: qexp_def)
  have "x < 2 powi (ilog2 x + 1)" using ilog2_bounds [OF assms(1)] by simp
  also have "\<dots> \<le> ?B" using k by (intro power_int_increasing) auto
  finally have xB: "x < ?B" .
  have "?B / 2 powi qexp x = of_int (2 ^ nat (?k - qexp x))"
    by (rule powi_ratio) (use k in simp)
  moreover have "x / 2 powi qexp x \<le> ?B / 2 powi qexp x"
    using xB by (intro divide_right_mono) auto
  ultimately have "round_half_even (x / 2 powi qexp x) \<le> 2 ^ nat (?k - qexp x)"
    by (metis rhe_mono rhe_of_int)
  then have "of_int (round_half_even (x / 2 powi qexp x)) \<le> (of_int (2 ^ nat (?k - qexp x)) :: rat)"
    by (simp only: of_int_le_iff)
  then have "fl x \<le> of_int (2 ^ nat (?k - qexp x)) * 2 powi qexp x"
    using assms by (simp add: fl_def)
  also have "\<dots> = 2 powi (?k - qexp x) * 2 powi qexp x" using k by (simp add: power_int_def)
  also have "\<dots> = ?B" by (simp flip: power_int_add)
  finally have xle: "fl x \<le> ?B" .
  have "?B / 2 powi qexp y = of_int (2 ^ 52)"
    unfolding qy by (simp add: power_int_diff)
  moreover have "?B / 2 powi qexp y \<le> y / 2 powi qexp y"
    using ilog2_bounds [OF y] by (intro divide_right_mono) auto
  ultimately have "2 ^ 52 \<le> round_half_even (y / 2 powi qexp y)"
    by (metis rhe_mono rhe_of_int)
  then have "(of_int (2 ^ 52) :: rat) \<le> of_int (round_half_even (y / 2 powi qexp y))"
    by (simp only: of_int_le_iff)
  then have "of_int (2 ^ 52) * 2 powi qexp y \<le> fl y"
    unfolding fl_def using y by (simp del: of_int_power)
  moreover have "of_int (2 ^ 52) * 2 powi qexp y = ?B"
    unfolding qy by (simp add: power_int_diff)
  ultimately have "?B \<le> fl y" by simp
  with xle show ?thesis by simp
qed

lemma fl_mono:
  assumes "x \<le> y"
  shows "fl x \<le> fl y"
proof (cases "0 < x")
  case True
  then show ?thesis using assms by (rule fl_mono_pos)
next
  case nx: False
  show ?thesis
  proof (cases "0 \<le> y")
    case True
    have "0 \<le> fl (- x)" using nx by (intro fl_nonneg) simp
    then show ?thesis using fl_nonneg [OF True] by simp
  next
    case False
    then have "fl (- y) \<le> fl (- x)" using assms by (intro fl_mono_pos) auto
    then show ?thesis by simp
  qed
qed

lemma qexp_le:
  assumes "x \<noteq> 0" "\<bar>x\<bar> < 2 powi k" "-1022 < k"
  shows "qexp x \<le> k - 53"
proof -
  have "2 powi ilog2 \<bar>x\<bar> \<le> \<bar>x\<bar>" using ilog2_bounds [of "\<bar>x\<bar>"] assms(1) by simp
  with assms have "(2::rat) powi ilog2 \<bar>x\<bar> < 2 powi k" by simp
  then have "ilog2 \<bar>x\<bar> < k"
    by (meson not_le one_le_numeral order.strict_iff_not power_int_increasing)
  then show ?thesis using assms by (simp add: qexp_def)
qed

lemma fl_of_int:
  assumes "\<bar>n\<bar> \<le> 2 ^ 53"
  shows "fl (of_int n) = of_int n"
proof -
  have less: "fl (of_int m) = of_int m" if "\<bar>m\<bar> < 2 ^ 53" for m
  proof (cases "m = 0")
    case False
    have "(of_int \<bar>m\<bar> :: rat) < of_int (2 ^ 53)" unfolding of_int_less_iff by (rule that)
    then have "qexp (of_int m) \<le> 53 - 53"
      by (intro qexp_le) (use False in \<open>auto simp: power_int_def\<close>)
    then show ?thesis by (intro fl_grid [of _ m 0]) auto
  qed simp
  have pow: "fl (of_int (2 ^ 53)) = of_int (2 ^ 53)"
  proof (rule fl_grid [of _ 1 53])
    have "qexp (of_int (2 ^ 53)) \<le> 54 - 53" by (rule qexp_le) (auto simp: power_int_def)
    then show "qexp (of_int (2 ^ 53)) \<le> 53" by simp
  qed (simp add: power_int_def)
  consider "\<bar>n\<bar> < 2 ^ 53" | "n = 2 ^ 53" | "n = - (2 ^ 53)" using assms by linarith
  then show ?thesis
  proof cases
    case 3
    then show ?thesis using pow fl_minus [of "of_int (2 ^ 53)"] by simp
  qed (use less pow in auto)
qed

text \<open>Relative error of a normal result: half a unit in the 53rd binary place.\<close>

lemma fl_rel_error:
  assumes "2 powi (-1022) \<le> \<bar>x\<bar>"
  shows "\<bar>fl x - x\<bar> \<le> \<bar>x\<bar> / 2 ^ 53"
proof -
  have x: "0 < \<bar>x\<bar>" using assms by (meson less_le_trans zero_less_numeral zero_less_power_int)
  have "-1022 \<le> ilog2 \<bar>x\<bar>"
  proof (rule ccontr)
    assume "\<not> -1022 \<le> ilog2 \<bar>x\<bar>"
    then have "(2::rat) powi (ilog2 \<bar>x\<bar> + 1) \<le> 2 powi (-1022)" by (intro power_int_increasing) auto
    with ilog2_bounds [OF x] assms show False by linarith
  qed
  then have q: "qexp x = ilog2 \<bar>x\<bar> - 52" by (simp add: qexp_def)
  have "(2::rat) powi qexp x = 2 powi ilog2 \<bar>x\<bar> / 2 ^ 52"
    unfolding q by (simp add: power_int_diff)
  also have "\<dots> \<le> \<bar>x\<bar> / 2 ^ 52" using ilog2_bounds [OF x] by (intro divide_right_mono) auto
  finally show ?thesis using fl_error [of x] by simp
qed


lemma fl_idem: "fl (fl x) = fl x"
proof (cases "x = 0 \<or> fl x = 0")
  case False
  let ?k = "qexp x + 52" and ?m = "round_half_even (x / 2 powi qexp x)"
  let ?B = "2 powi (?k + 1) :: rat"
  have k: "-1022 \<le> ?k" "ilog2 \<bar>x\<bar> \<le> ?k" by (simp_all add: qexp_def)
  have "\<bar>x\<bar> < 2 powi (ilog2 \<bar>x\<bar> + 1)" using ilog2_bounds [of "\<bar>x\<bar>"] False by simp
  also have "\<dots> \<le> ?B" using k by (intro power_int_increasing) auto
  finally have xB: "\<bar>x\<bar> \<le> ?B" by simp
  have "qexp ?B \<le> ?k + 2 - 53"
    using k by (intro qexp_le) (auto intro: power_int_strict_increasing)
  then have flB: "fl ?B = ?B" by (intro fl_grid [of _ 1 "?k + 1"]) auto
  have flx: "fl x = of_int ?m * 2 powi qexp x" using False by (simp add: fl_def)
  have "\<bar>fl x\<bar> = fl \<bar>x\<bar>"
    using fl_nonneg [of x] fl_nonneg [of "- x"] by (cases "0 \<le> x") auto
  also have "\<dots> \<le> ?B" using fl_mono [OF xB] flB by simp
  finally consider "\<bar>fl x\<bar> < ?B" | "fl x = ?B" | "fl x = - ?B" by linarith
  then show ?thesis
  proof cases
    case 1
    then have "qexp (fl x) \<le> ?k + 1 - 53" using k False by (intro qexp_le) auto
    then show ?thesis using flx by (intro fl_grid [of _ ?m "qexp x"]) auto
  qed (use flB in auto)
qed auto

text \<open>Gradual underflow: every double is a multiple of the least positive one, so the difference
  of two different doubles never rounds to zero.\<close>

definition least_double :: rat where
  "least_double = 2 powi (-1074)"

lemma least_double_pos: "0 < least_double"
  unfolding least_double_def by (rule zero_less_power_int) simp

lemma fl_least_double: "fl least_double = least_double"
proof -
  have "qexp (2 powi (-1074)) \<le> -1021 - 53"
    by (rule qexp_le) (auto intro: power_int_strict_increasing)
  then show ?thesis unfolding least_double_def by (intro fl_grid [of _ 1 "-1074"]) auto
qed

lemma powi_least:
  assumes "-1074 \<le> q"
  shows "2 powi q = of_int (2 ^ nat (q + 1074)) * least_double"
proof -
  have "2 powi q / least_double = of_int (2 ^ nat (q + 1074))"
    using powi_ratio [OF assms] unfolding least_double_def by simp
  moreover have "least_double \<noteq> 0" using least_double_pos by simp
  ultimately show ?thesis by (simp only: nonzero_divide_eq_eq not_False_eq_True)
qed

lemma double_multiple: "fl r = r \<Longrightarrow> \<exists>m. r = of_int m * least_double"
proof (cases "r = 0")
  case False
  assume r: "fl r = r"
  have q: "-1074 \<le> qexp r" by (simp add: qexp_def)
  have "fl r = of_int (round_half_even (r / 2 powi qexp r)) * 2 powi qexp r"
    using False unfolding fl_def by (rule if_not_P)
  also note powi_least [OF q]
  finally show ?thesis unfolding r by (metis of_int_mult mult.assoc)
qed (auto intro: exI [of _ 0])

lemma fl_pos:
  assumes "0 < m"
  shows "0 < fl (of_int m * least_double)"
proof -
  have "1 * least_double \<le> of_int m * least_double"
    using assms least_double_pos by (intro mult_right_mono) auto
  then have "fl least_double \<le> fl (of_int m * least_double)" by (intro fl_mono) simp
  then show ?thesis using fl_least_double least_double_pos by simp
qed

lemma double_diff_pos:
  assumes "fl a = a" "fl b = b" "b < a"
  shows "0 < fl (a - b)"
proof -
  obtain m n where mn: "a = of_int m * least_double" "b = of_int n * least_double"
    using double_multiple [OF assms(1)] double_multiple [OF assms(2)] by blast
  then have "of_int n * least_double < of_int m * least_double" using assms(3) by simp
  then have "n < m" using least_double_pos by (simp add: mult_less_cancel_right)
  then show ?thesis using fl_pos [of "m - n"] by (simp add: mn left_diff_distrib)
qed

section \<open>Values and operations\<close>

datatype number = Num rat | Infinity | NegInfinity | NaN

definition overflow_bound :: rat where
  "overflow_bound = 2 ^ 1024"

lemma overflow_bound_pos [simp]: "0 < overflow_bound" "\<not> overflow_bound \<le> 0"
  by (simp_all add: overflow_bound_def)

lemma safe_below_overflow: "2 ^ 53 < overflow_bound"
  by (simp add: overflow_bound_def)

definition to_double :: "rat \<Rightarrow> number" where
  "to_double x =
     (let r = fl x in
      if overflow_bound \<le> r then Infinity
      else if r \<le> - overflow_bound then NegInfinity else Num r)"

text \<open>The values of the type: finite doubles are fixed points of the rounding.\<close>

fun is_double :: "number \<Rightarrow> bool" where
  "is_double (Num r) = (fl r = r \<and> \<bar>r\<bar> < overflow_bound)"
| "is_double _ = True"

lemma is_double_to_double [simp]: "is_double (to_double x)"
  by (auto simp: to_double_def Let_def fl_idem)

abbreviation int_num :: "int \<Rightarrow> number" where
  "int_num n \<equiv> Num (of_int n)"

lemma to_double_of_int [js_arith]:
  assumes "\<bar>n\<bar> \<le> 2 ^ 53"
  shows "to_double (of_int n) = int_num n"
proof -
  have "\<bar>of_int n :: rat\<bar> \<le> of_int (2 ^ 53)" unfolding of_int_abs [symmetric] of_int_le_iff by (rule assms)
  moreover have "of_int (2 ^ 53) < overflow_bound" using safe_below_overflow by simp
  ultimately show ?thesis
    by (auto simp: to_double_def fl_of_int [OF assms] Let_def abs_le_iff)
qed

instantiation number :: "{plus, minus, uminus, times, inverse, ord}"
begin

fun uminus_number :: "number \<Rightarrow> number" where
  "- Num a = Num (- a)"
| "- Infinity = NegInfinity"
| "- NegInfinity = Infinity"
| "- NaN = NaN"

fun plus_number :: "number \<Rightarrow> number \<Rightarrow> number" where
  "Num a + Num b = to_double (a + b)"
| "Num a + y = y"
| "Infinity + NegInfinity = NaN"
| "Infinity + NaN = NaN"
| "Infinity + y = Infinity"
| "NegInfinity + Infinity = NaN"
| "NegInfinity + NaN = NaN"
| "NegInfinity + y = NegInfinity"
| "NaN + y = NaN"

definition minus_number :: "number \<Rightarrow> number \<Rightarrow> number" where
  "a - b = a + (- b)" for a b :: number

fun times_number :: "number \<Rightarrow> number \<Rightarrow> number" where
  "Num a * Num b = to_double (a * b)"
| "NaN * y = NaN"
| "x * NaN = NaN"
| "Num a * y = (if a = 0 then NaN else if 0 < a then y else - y)"
| "x * Num b = (if b = 0 then NaN else if 0 < b then x else - x)"
| "x * y = (if x = y then Infinity else NegInfinity)"

fun divide_number :: "number \<Rightarrow> number \<Rightarrow> number" where
  "Num a div Num b =
     (if b = 0 then (if a = 0 then NaN else if 0 < a then Infinity else NegInfinity)
      else to_double (a / b))"
| "NaN div y = NaN"
| "x div NaN = NaN"
| "Num a div y = Num 0"
| "x div Num b = (if b < 0 then - x else x)"
| "x div y = NaN"

definition inverse_number :: "number \<Rightarrow> number" where
  "inverse x = Num 1 div x" for x :: number

fun less_number :: "number \<Rightarrow> number \<Rightarrow> bool" where
  "Num a < Num b \<longleftrightarrow> a < b"
| "Num a < Infinity \<longleftrightarrow> True"
| "NegInfinity < Num b \<longleftrightarrow> True"
| "NegInfinity < Infinity \<longleftrightarrow> True"
| "(x::number) < y \<longleftrightarrow> False"

definition less_eq_number :: "number \<Rightarrow> number \<Rightarrow> bool" where
  "x \<le> y \<longleftrightarrow> x < y \<or> (x = y \<and> x \<noteq> NaN)" for x y :: number

instance ..

end


text \<open>
  \<open>seq\<close> is \<open>===\<close> on numbers; \<open>truthy\<close> is the coercion to a boolean.  \<open>Math.max\<close>,
  \<open>Math.min\<close>, \<open>Math.floor\<close>, \<open>Math.ceil\<close>, \<open>Math.trunc\<close>, \<open>Math.abs\<close> and the remainder
  operator are exact on doubles, so no rounding occurs in them.
\<close>

definition seq :: "number \<Rightarrow> number \<Rightarrow> bool" where
  "seq x y \<longleftrightarrow> x = y \<and> x \<noteq> NaN"

definition truthy :: "number \<Rightarrow> bool" where
  "truthy x \<longleftrightarrow> x \<noteq> NaN \<and> x \<noteq> Num 0"

definition or_zero :: "number \<Rightarrow> number" where
  "or_zero x = (if truthy x then x else Num 0)"

definition math_max :: "number \<Rightarrow> number \<Rightarrow> number" where
  "math_max x y = (if x = NaN \<or> y = NaN then NaN else if x < y then y else x)"

definition math_min :: "number \<Rightarrow> number \<Rightarrow> number" where
  "math_min x y = (if x = NaN \<or> y = NaN then NaN else if y < x then y else x)"

fun math_floor :: "number \<Rightarrow> number" where
  "math_floor (Num r) = int_num \<lfloor>r\<rfloor>"
| "math_floor x = x"

fun math_ceil :: "number \<Rightarrow> number" where
  "math_ceil (Num r) = int_num \<lceil>r\<rceil>"
| "math_ceil x = x"

text \<open>\<open>Math.round\<close> rounds half up.\<close>

fun math_round :: "number \<Rightarrow> number" where
  "math_round (Num r) = int_num \<lfloor>r + 1 / 2\<rfloor>"
| "math_round x = x"

definition trunc_rat :: "rat \<Rightarrow> int" where
  "trunc_rat r = (if 0 \<le> r then \<lfloor>r\<rfloor> else \<lceil>r\<rceil>)"

fun math_trunc :: "number \<Rightarrow> number" where
  "math_trunc (Num r) = int_num (trunc_rat r)"
| "math_trunc x = x"

fun math_abs :: "number \<Rightarrow> number" where
  "math_abs (Num r) = Num \<bar>r\<bar>"
| "math_abs NaN = NaN"
| "math_abs _ = Infinity"

fun js_rem :: "number \<Rightarrow> number \<Rightarrow> number" where
  "js_rem (Num a) (Num b) =
     (if b = 0 then NaN else Num (a - b * of_int (trunc_rat (a / b))))"
| "js_rem (Num a) NaN = NaN"
| "js_rem (Num a) y = Num a"
| "js_rem x y = NaN"

fun is_finite_num :: "number \<Rightarrow> bool" where
  "is_finite_num (Num r) = True"
| "is_finite_num _ = False"

fun is_integer_num :: "number \<Rightarrow> bool" where
  "is_integer_num (Num r) = (of_int \<lfloor>r\<rfloor> = r)"
| "is_integer_num _ = False"

section \<open>Laws\<close>

lemma less_eq_Num [simp]: "Num a \<le> Num b \<longleftrightarrow> a \<le> b"
  by (auto simp: less_eq_number_def)

lemma le_Infinity [simp]: "x \<le> Infinity \<longleftrightarrow> x \<noteq> NaN" "NegInfinity \<le> x \<longleftrightarrow> x \<noteq> NaN"
  by (cases x; simp add: less_eq_number_def)+

lemma Infinity_le_Num [simp]: "\<not> Infinity \<le> Num a" "\<not> Num a \<le> NegInfinity"
  "\<not> Infinity \<le> NegInfinity" "\<not> NaN \<le> x" "\<not> x \<le> NaN"
  by (simp_all add: less_eq_number_def)

lemma number_not_less: "x \<noteq> NaN \<Longrightarrow> y \<noteq> NaN \<Longrightarrow> \<not> x < y \<longleftrightarrow> y \<le> (x::number)"
  by (cases x; cases y) (auto simp: less_eq_number_def)

lemma number_le_trans: "x \<le> y \<Longrightarrow> y \<le> z \<Longrightarrow> x \<le> (z::number)"
  by (cases x; cases y; cases z) auto

lemma to_double_not_NaN [simp]: "to_double x \<noteq> NaN"
  by (simp add: to_double_def Let_def)

lemma to_double_mono: "x \<le> y \<Longrightarrow> to_double x \<le> to_double y"
  using fl_mono [of x y] by (auto simp: to_double_def Let_def)

lemma to_double_pos: "0 < fl x \<Longrightarrow> Num 0 < to_double x"
  using overflow_bound_pos by (simp add: to_double_def Let_def)

lemma to_double_0 [simp]: "to_double 0 = Num 0"
  using overflow_bound_pos by (simp add: to_double_def)

lemma to_double_NumD: "to_double x = Num r \<Longrightarrow> r = fl x"
  by (auto simp: to_double_def Let_def split: if_splits)

lemma to_double_is_double: "is_double (Num r) \<Longrightarrow> to_double r = Num r"
  by (auto simp: to_double_def Let_def)

lemma is_double_int: "\<bar>n\<bar> \<le> 2 ^ 53 \<Longrightarrow> is_double (int_num n)"
  using is_double_to_double [of "of_int n"] by (simp add: to_double_of_int)

lemma int_num_add [js_arith]: "\<bar>a + b\<bar> \<le> 2 ^ 53 \<Longrightarrow> int_num a + int_num b = int_num (a + b)"
  using to_double_of_int [of "a + b"] by simp

lemma int_num_diff [js_arith]: "\<bar>a - b\<bar> \<le> 2 ^ 53 \<Longrightarrow> int_num a - int_num b = int_num (a - b)"
  using to_double_of_int [of "a - b"] by (simp add: minus_number_def)

lemma int_num_mult [js_arith]: "\<bar>a * b\<bar> \<le> 2 ^ 53 \<Longrightarrow> int_num a * int_num b = int_num (a * b)"
  using to_double_of_int [of "a * b"] by simp

lemma is_double_arith [simp]:
  "is_double x \<Longrightarrow> is_double y \<Longrightarrow> is_double (x + y)"
  "is_double x \<Longrightarrow> is_double y \<Longrightarrow> is_double (x - y)"
  "is_double x \<Longrightarrow> is_double y \<Longrightarrow> is_double (x * y)"
  "is_double x \<Longrightarrow> is_double y \<Longrightarrow> is_double (x / y)"
  unfolding minus_number_def by (cases x; cases y; simp)+


text \<open>
  Integer-valued numbers under a constructor of their own, so that the simplifier keeps integer
  arithmetic intact: \<open>js_int\<close> folds literals and evaluates comparisons, \<open>js_arith\<close> the operations
  within the safe range.
\<close>

definition inum :: "int \<Rightarrow> number" where
  "inum n = int_num n"

lemma inum_lits [js_int]: "Num (numeral k) = inum (numeral k)" "Num 0 = inum 0" "Num 1 = inum 1"
  by (simp_all add: inum_def)

lemma inum_simps [simp]:
  "inum a = inum b \<longleftrightarrow> a = b" "inum a \<noteq> NaN" "inum a \<noteq> Infinity" "inum a \<noteq> NegInfinity"
  "inum a \<le> inum b \<longleftrightarrow> a \<le> b" "inum a < inum b \<longleftrightarrow> a < b" "seq (inum a) (inum b) \<longleftrightarrow> a = b"
  "math_min (inum a) (inum b) = inum (min a b)" "math_max (inum a) (inum b) = inum (max a b)"
  "truthy (inum a) \<longleftrightarrow> a \<noteq> 0" "math_floor (inum a) = inum a" "math_round (inum a) = inum a"
  "is_integer_num (inum a)" "is_finite_num (inum a)" "- inum a = inum (- a)"
  by (auto simp: inum_def seq_def math_min_def math_max_def min_def max_def truthy_def floor_eq_iff)

lemma inum_arith [js_arith]:
  "- (2 ^ 53) \<le> a + b \<Longrightarrow> a + b \<le> 2 ^ 53 \<Longrightarrow> inum a + inum b = inum (a + b)"
  "- (2 ^ 53) \<le> a - b \<Longrightarrow> a - b \<le> 2 ^ 53 \<Longrightarrow> inum a - inum b = inum (a - b)"
  "- (2 ^ 53) \<le> a * b \<Longrightarrow> a * b \<le> 2 ^ 53 \<Longrightarrow> inum a * inum b = inum (a * b)"
  unfolding inum_def by (rule int_num_add int_num_diff int_num_mult; simp add: abs_le_iff)+

text \<open>Rounding an integer gives an integer or overflows.\<close>

definition integral :: "number \<Rightarrow> bool" where
  "integral x \<longleftrightarrow> x = Infinity \<or> x = NegInfinity \<or> (\<exists>m. x = inum m)"

lemma fl_int: "\<exists>m. fl (of_int n) = of_int m"
proof (cases "\<bar>n\<bar> \<le> 2 ^ 53")
  case False
  have n: "(2::rat) powi 53 \<le> \<bar>of_int n\<bar>"
    using False by (simp flip: of_int_abs)
  obtain k where k: "fl (of_int n) = of_int k * 2 powi qexp (of_int n)" using False unfolding fl_def by (cases "n = 0") auto
  have "ilog2 (2 powi 53) = 53" by (rule ilog2_eqI) (auto intro: power_int_strict_increasing)
  then have "53 \<le> ilog2 \<bar>of_int n\<bar>" using ilog2_mono [of "2 powi 53" "\<bar>of_int n\<bar>"] n by simp
  then have "0 \<le> qexp (of_int n)" by (simp add: qexp_def)
  then have "fl (of_int n) = of_int (k * 2 ^ nat (qexp (of_int n)))" using k by (simp add: power_int_def)
  then show ?thesis ..
next
  case True
  then show ?thesis using fl_of_int by blast
qed

lemma integral_to_double: "integral (to_double (of_int n))" "integral (to_double (of_nat k))"
proof -
  show "integral (to_double (of_int n))" for n
    using fl_int [of n] by (auto simp: to_double_def Let_def integral_def inum_def)
  from this [of "int k"] show "integral (to_double (of_nat k))" by simp
qed

lemma integral_uminus: "integral x \<Longrightarrow> integral (- x)"
  unfolding integral_def by (auto simp: inum_def intro: exI [of _ "- _"])

lemma integral_inum [simp]: "integral (inum n)"
  by (auto simp: integral_def)

text \<open>Evaluating a rounding: the exponent is checked by comparison, not computed.\<close>

lemma rhe_eqI:
  assumes "\<bar>x - of_int m\<bar> < 1 / 2"
  shows "round_half_even x = m"
proof -
  have "\<bar>of_int (round_half_even x) - of_int m :: rat\<bar> < 1"
    using rhe_error [of x] assms by linarith
  then show ?thesis by linarith
qed

lemma fl_eqI:
  assumes "2 powi k \<le> x" "x < 2 powi (k + 1)" "-1022 \<le> k"
    and "\<bar>x / 2 powi (k - 52) - of_int m\<bar> < 1 / 2"
  shows "fl x = of_int m * 2 powi (k - 52)"
proof -
  have x: "0 < x" using assms(1) by (meson less_le_trans zero_less_numeral zero_less_power_int)
  then have "qexp x = k - 52"
    using ilog2_eqI [OF assms(1,2)] assms(3) by (simp add: qexp_def)
  then show ?thesis using x rhe_eqI [OF assms(4)] by (simp add: fl_def)
qed


text \<open>Dividing integers and rounding to an integer: the rounded quotient never crosses an integer, so
  \<open>Math.floor\<close>, \<open>Math.ceil\<close> and \<open>Math.trunc\<close> of it are exact.\<close>

lemma div_error:
  fixes a d :: int
  assumes "\<bar>a\<bar> \<le> 2 ^ 52" "0 < d" "d \<le> 2 ^ 40"
  shows "\<bar>fl (of_int a / of_int d) - of_int a / of_int d\<bar> < 1 / of_int d"
proof (cases "a = 0")
  case False
  let ?x = "of_int a / of_int d :: rat"
  have d: "0 < (of_int d :: rat)" "of_int d \<le> (2 ^ 40 :: rat)"
    using assms(2) of_int_le_iff [of d "2 ^ 40", where ?'a = rat] assms(3) by auto
  have a: "1 \<le> \<bar>of_int a :: rat\<bar>" "\<bar>of_int a :: rat\<bar> \<le> 2 ^ 52"
    using False assms(1) by (simp_all flip: of_int_abs)
  have "(2::rat) powi (-1022) \<le> 2 powi (-40)" by (intro power_int_increasing) auto
  also have "\<dots> = 1 / 2 ^ 40" by (simp add: power_int_minus_divide)
  also have "\<dots> \<le> 1 / of_int d" using d by (intro divide_left_mono) auto
  also have "\<dots> \<le> \<bar>?x\<bar>" using a(1) d by (simp add: abs_divide divide_right_mono)
  finally have "\<bar>fl ?x - ?x\<bar> \<le> \<bar>?x\<bar> / 2 ^ 53" by (rule fl_rel_error)
  also have "\<bar>?x\<bar> / 2 ^ 53 = \<bar>of_int a\<bar> / of_int d / 2 ^ 53" using d by (simp add: abs_divide)
  also have "\<dots> \<le> 2 ^ 52 / of_int d / 2 ^ 53"
    using a(2) d by (intro divide_right_mono) auto
  also have "\<dots> < 1 / of_int d" using d by (simp add: field_simps)
  finally show ?thesis .
qed (use assms in simp)

lemma fl_between_ints:
  assumes "of_int n \<le> x" "x \<le> of_int m" "\<bar>n\<bar> \<le> 2 ^ 53" "\<bar>m\<bar> \<le> 2 ^ 53"
  shows "of_int n \<le> fl x" "fl x \<le> of_int m"
  using fl_mono [OF assms(1)] fl_mono [OF assms(2)] fl_of_int [OF assms(3)] fl_of_int [OF assms(4)] by auto

lemma fl_div_floor:
  fixes a d :: int
  assumes "\<bar>a\<bar> \<le> 2 ^ 52" "0 < d" "d \<le> 2 ^ 40"
  shows "\<lfloor>fl (of_int a / of_int d)\<rfloor> = a div d"
proof -
  let ?x = "of_int a / of_int d :: rat" and ?n = "a div d"
  have q: "\<bar>?n\<bar> \<le> 2 ^ 52"
  proof (cases "0 \<le> a")
    case True
    then have "0 \<le> ?n" "?n \<le> a"
      using assms(2) zdiv_mono2 [of a 1 d] by (auto simp: pos_imp_zdiv_nonneg_iff)
    then show ?thesis using assms(1) by simp
  next
    case False
    then have "?n < 0" using assms(2) by (simp add: pos_imp_zdiv_neg_iff)
    moreover have "a \<le> ?n" using assms(2) zdiv_mono2_neg [of a 1 d] False by auto
    ultimately show ?thesis using assms(1) False by simp
  qed
  have dq: "0 < (of_int d :: rat)" using assms(2) by simp
  have m: "0 \<le> a mod d" "a mod d < d" using assms(2) by simp_all
  have "of_int d * of_int ?n + of_int (a mod d) = (of_int a :: rat)"
    unfolding of_int_mult [symmetric] of_int_add [symmetric] by (simp only: mult_div_mod_eq)
  then have "?x = (of_int d * of_int ?n + of_int (a mod d)) / of_int d" by simp
  also have "\<dots> = of_int d * of_int ?n / of_int d + of_int (a mod d) / of_int d"
    by (rule add_divide_distrib)
  also have "of_int d * of_int ?n / of_int d = (of_int ?n :: rat)" using dq by simp
  finally have x: "?x = of_int ?n + of_int (a mod d) / of_int d" .
  have lo: "of_int ?n \<le> ?x" unfolding x using m dq by simp
  have "(of_int (a mod d) :: rat) \<le> of_int (d - 1)" unfolding of_int_le_iff using m by simp
  then have "of_int (a mod d) / of_int d \<le> (of_int (d - 1) / of_int d :: rat)"
    using dq by (intro divide_right_mono) auto
  also have "\<dots> = 1 - 1 / of_int d" using dq by (simp add: diff_divide_distrib)
  finally have hi: "?x \<le> of_int (?n + 1) - 1 / of_int d" unfolding x by simp
  have "of_int ?n \<le> fl ?x"
    using fl_mono [OF lo] fl_of_int [of ?n] q by simp
  moreover have "fl ?x < of_int (?n + 1)" using div_error [OF assms] hi by linarith
  ultimately show ?thesis by (simp add: floor_eq_iff)
qed

lemma fl_div_ceil:
  fixes a d :: int
  assumes "\<bar>a\<bar> \<le> 2 ^ 52" "0 < d" "d \<le> 2 ^ 40"
  shows "\<lceil>fl (of_int a / of_int d)\<rceil> = - ((- a) div d)"
proof -
  have "\<lfloor>fl (of_int (- a) / of_int d)\<rfloor> = (- a) div d" by (rule fl_div_floor) (use assms in auto)
  then show ?thesis by (simp add: ceiling_def)
qed

text \<open>Integer division toward zero.\<close>

definition quot0 :: "int \<Rightarrow> int \<Rightarrow> int" where
  "quot0 a d = (if 0 \<le> a then a div d else - ((- a) div d))"

lemma quot0_abs: "0 < d \<Longrightarrow> \<bar>quot0 a d\<bar> = \<bar>a\<bar> div d"
  by (auto simp: quot0_def pos_imp_zdiv_nonneg_iff)

lemma to_double_small: "\<bar>fl x\<bar> \<le> 2 ^ 53 \<Longrightarrow> to_double x = Num (fl x)"
  using safe_below_overflow by (auto simp: to_double_def Let_def abs_le_iff)

lemma div_small:
  fixes a d :: int
  assumes "\<bar>a\<bar> \<le> 2 ^ 52" "0 < d" "d \<le> 2 ^ 40"
  shows "inum a / inum d = Num (fl (of_int a / of_int d))"
proof -
  have "\<bar>of_int a :: rat\<bar> \<le> 2 ^ 52" using assms(1) by (simp flip: of_int_abs)
  moreover have "\<bar>of_int a / of_int d :: rat\<bar> \<le> \<bar>of_int a\<bar> / 1"
    using assms(2) unfolding abs_divide by (intro divide_left_mono) auto
  ultimately have x: "\<bar>of_int a / of_int d :: rat\<bar> \<le> of_int (2 ^ 52)" by simp
  then have b: "of_int (- (2 ^ 52)) \<le> (of_int a / of_int d :: rat)" "of_int a / of_int d \<le> (of_int (2 ^ 52) :: rat)"
    unfolding abs_le_iff of_int_minus by linarith+
  have "of_int (- (2 ^ 52)) \<le> fl (of_int a / of_int d)" "fl (of_int a / of_int d) \<le> of_int (2 ^ 52)"
    using fl_between_ints [OF b] by simp_all
  then show ?thesis using assms(2) by (simp add: inum_def to_double_small abs_le_iff)
qed

lemma inum_div_floor:
  "\<bar>a\<bar> \<le> 2 ^ 52 \<Longrightarrow> 0 < d \<Longrightarrow> d \<le> 2 ^ 40 \<Longrightarrow> math_floor (inum a / inum d) = inum (a div d)"
  by (simp add: div_small fl_div_floor) (simp add: inum_def)

lemma inum_div_ceil:
  "\<bar>a\<bar> \<le> 2 ^ 52 \<Longrightarrow> 0 < d \<Longrightarrow> d \<le> 2 ^ 40 \<Longrightarrow> math_ceil (inum a / inum d) = inum (- ((- a) div d))"
  by (simp add: div_small fl_div_ceil) (simp add: inum_def)

lemma inum_div_trunc:
  assumes "\<bar>a\<bar> \<le> 2 ^ 52" "0 < d" "d \<le> 2 ^ 40"
  shows "math_trunc (inum a / inum d) = inum (quot0 a d)"
proof -
  have "0 \<le> a \<Longrightarrow> 0 \<le> fl (of_int a / of_int d)" using assms(2) by (intro fl_nonneg) simp
  moreover have "a < 0 \<Longrightarrow> fl (of_int a / of_int d) \<le> 0"
    using fl_nonneg [of "- (of_int a / of_int d)"] assms(2) by (simp add: divide_le_0_iff)
  moreover have "a < 0 \<Longrightarrow> fl (of_int a / of_int d) = 0 \<Longrightarrow> (- a) div d = 0"
    using fl_div_ceil [OF assms] by simp
  moreover have "math_trunc (inum a / inum d) = inum (trunc_rat (fl (of_int a / of_int d)))"
    unfolding div_small [OF assms] by (simp add: inum_def)
  ultimately show ?thesis
    using fl_div_floor [OF assms] fl_div_ceil [OF assms]
    unfolding trunc_rat_def quot0_def
    by (cases "0 \<le> a"; cases "fl (of_int a / of_int d) = 0") auto
qed

section \<open>The rounding interface\<close>

text \<open>
  What threshold comparisons rely on: the rounding is monotone, keeps safe integers, and errs by
  at most a quarter below \<open>2 ^ 52\<close>.  Under these laws the comparison of an integer with a rounded
  third (or half) decides the exact rational comparison.
\<close>

locale threshold_rounding =
  fixes rnd :: "rat \<Rightarrow> rat"
  assumes rnd_mono: "x \<le> y \<Longrightarrow> rnd x \<le> rnd y"
    and rnd_int: "\<bar>n\<bar> \<le> 2 ^ 53 \<Longrightarrow> rnd (of_int n) = of_int n"
    and rnd_err: "\<bar>x\<bar> < 2 ^ 52 \<Longrightarrow> \<bar>rnd x - x\<bar> \<le> 1 / 4"
begin

lemma threshold_complete:
  assumes "\<bar>p\<bar> \<le> 2 ^ 53" "x \<le> of_int p"
  shows "rnd x \<le> of_int p"
  using rnd_mono [OF assms(2)] rnd_int [OF assms(1)] by simp

lemma threshold_exact:
  fixes p t d :: int
  assumes "\<bar>p\<bar> \<le> 2 ^ 53" "0 \<le> t" "t < d * 2 ^ 52" "0 < d" "d \<le> 3"
  shows "rnd (of_int t / of_int d) \<le> of_int p \<longleftrightarrow> t \<le> d * p"
proof
  assume "t \<le> d * p"
  then have "(of_int t :: rat) \<le> of_int (d * p)" by (simp only: of_int_le_iff)
  then have "of_int t / of_int d \<le> (of_int p :: rat)"
    using assms(4) by (simp add: field_simps)
  with assms(1) show "rnd (of_int t / of_int d) \<le> of_int p" by (rule threshold_complete)
next
  assume le: "rnd (of_int t / of_int d) \<le> of_int p"
  have "(of_int t :: rat) < of_int (d * 2 ^ 52)" using assms(3) by (simp only: of_int_less_iff)
  then have "\<bar>of_int t / of_int d\<bar> < (2 ^ 52 :: rat)"
    using assms(2,4) by (simp add: field_simps)
  then have "of_int t / of_int d - 1 / 4 \<le> (of_int p :: rat)"
    using rnd_err [of "of_int t / of_int d"] le by linarith
  then have "of_int t - of_int d / 4 \<le> (of_int (d * p) :: rat)"
    using assms(4) by (simp add: field_simps)
  then have "(of_int t :: rat) < of_int (d * p + 1)" using assms(5) by simp
  then show "t \<le> d * p" by (simp only: of_int_less_iff)
qed

end

lemma fl_quarter: "\<bar>x\<bar> < 2 ^ 52 \<Longrightarrow> \<bar>fl x - x\<bar> \<le> 1 / 4"
proof (cases "x = 0")
  case False
  assume "\<bar>x\<bar> < 2 ^ 52"
  then have "qexp x \<le> 52 - 53" using False by (intro qexp_le) (auto simp: power_int_def)
  then have "(2::rat) powi qexp x \<le> 2 powi (-1)" by (intro power_int_increasing) auto
  then show ?thesis using fl_error [of x] by (simp add: power_int_minus)
qed simp

interpretation fl: threshold_rounding fl
  by unfold_locales (fact fl_mono, fact fl_of_int, fact fl_quarter)

end
