(* ===== verification/Quorum.thy ===== *)
theory Quorum
  imports Js_Number
begin

text \<open>
  The quorum computation of \<open>frontend/src/chain/quorum.ts\<close>: participation against the frozen
  snapshot stake, the three percentage views, and the resolution of the denominator from the
  verifier's \<open>/meta\<close> answer.  Lamport amounts are JavaScript numbers, so every sum, product and
  quotient below is rounded as the runtime rounds it.
\<close>

section \<open>Data\<close>

definition QUORUM_NUMERATOR :: number where
  "QUORUM_NUMERATOR = Num 1"

definition QUORUM_DENOMINATOR :: number where
  "QUORUM_DENOMINATOR = Num 3"

definition QUORUM_FRACTION :: number where
  "QUORUM_FRACTION = QUORUM_NUMERATOR / QUORUM_DENOMINATOR"

record quorum_input =
  forLamports :: number
  againstLamports :: number
  abstainLamports :: number
  totalActiveStake :: "number option"

record known_quorum =
  kq_totalActiveStake :: number
  kq_participationPercent :: number
  kq_isMet :: bool

datatype quorum_status = UnknownQuorum | KnownQuorum known_quorum

record percentages =
  forPercent :: number
  againstPercent :: number
  abstainPercent :: number

datatype vote_percentage_breakdown = UnknownBreakdown | KnownBreakdown percentages

record proposal_vote_stats =
  quorum :: quorum_status
  voteShare :: vote_percentage_breakdown
  stakeShare :: vote_percentage_breakdown

record snapshot_total_source =
  meta_slot :: number
  meta_total_active_stake :: "number option"

section \<open>Operations\<close>

definition participatingLamports :: "quorum_input \<Rightarrow> number" where
  "participatingLamports i = forLamports i + againstLamports i + abstainLamports i"

definition computeQuorum :: "quorum_input \<Rightarrow> quorum_status" where
  "computeQuorum i =
     (case totalActiveStake i of
        None \<Rightarrow> UnknownQuorum
      | Some stake \<Rightarrow>
          if stake \<le> Num 0 then UnknownQuorum
          else
            KnownQuorum
              \<lparr>kq_totalActiveStake = stake,
               kq_participationPercent = participatingLamports i / stake * Num 100,
               kq_isMet = ((stake * QUORUM_NUMERATOR) / QUORUM_DENOMINATOR \<le> participatingLamports i)\<rparr>)"

definition computeProposalVoteStats :: "quorum_input \<Rightarrow> proposal_vote_stats" where
  "computeProposalVoteStats i =
     (let q = computeQuorum i;
          p = participatingLamports i;
          share = (if Num 0 < p
                   then KnownBreakdown
                     \<lparr>forPercent = forLamports i / p * Num 100,
                      againstPercent = againstLamports i / p * Num 100,
                      abstainPercent = abstainLamports i / p * Num 100\<rparr>
                   else UnknownBreakdown);
          stakes = (case q of
                     UnknownQuorum \<Rightarrow> UnknownBreakdown
                   | KnownQuorum k \<Rightarrow> KnownBreakdown
                     \<lparr>forPercent = forLamports i / kq_totalActiveStake k * Num 100,
                      againstPercent = againstLamports i / kq_totalActiveStake k * Num 100,
                      abstainPercent = abstainLamports i / kq_totalActiveStake k * Num 100\<rparr>)
      in \<lparr>quorum = q, voteShare = share, stakeShare = stakes\<rparr>)"

definition resolveQuorumDenominator ::
  "snapshot_total_source option \<Rightarrow> number option \<Rightarrow> number option" where
  "resolveQuorumDenominator meta proposalSnapshotSlot =
     (case meta of
        None \<Rightarrow> None
      | Some m \<Rightarrow>
          (case proposalSnapshotSlot of
             None \<Rightarrow> None
           | Some slot \<Rightarrow>
               if \<not> truthy slot then None
               else if \<not> seq (meta_slot m) slot then None
               else meta_total_active_stake m))"

section \<open>Properties\<close>

text \<open>An input whose amounts are non-negative safe integers and whose total is positive.\<close>

definition int_input :: "int \<Rightarrow> int \<Rightarrow> int \<Rightarrow> int \<Rightarrow> quorum_input" where
  "int_input f a b t =
     \<lparr>forLamports = int_num f, againstLamports = int_num a, abstainLamports = int_num b,
      totalActiveStake = Some (int_num t)\<rparr>"

lemma participating_int:
  assumes "0 \<le> f" "0 \<le> a" "0 \<le> b" "f + a + b \<le> 2 ^ 53"
  shows "participatingLamports (int_input f a b t) = int_num (f + a + b)"
proof -
  have "int_num f + int_num a = int_num (f + a)" by (rule int_num_add) (use assms in linarith)
  moreover have "int_num (f + a) + int_num b = int_num (f + a + b)"
    by (rule int_num_add) (use assms in linarith)
  ultimately show ?thesis by (simp only: participatingLamports_def int_input_def quorum_input.simps)
qed

lemma threshold_int:
  assumes "0 < t" "t \<le> 2 ^ 53"
  shows "(int_num t * QUORUM_NUMERATOR) / QUORUM_DENOMINATOR = Num (fl (of_int t / 3))"
proof -
  have "int_num t * int_num 1 = int_num (t * 1)" by (rule int_num_mult) (use assms in simp)
  moreover have "fl (of_int t / 3) < overflow_bound"
  proof -
    have "(of_int t :: rat) \<le> of_int (2 ^ 53)" using assms(2) by (simp only: of_int_le_iff)
    then have "fl (of_int t / 3) \<le> fl (of_int (2 ^ 53))" by (intro fl_mono) simp
    also have "\<dots> = of_int (2 ^ 53)" by (rule fl_of_int) simp
    also have "\<dots> < overflow_bound" using safe_below_overflow by simp
    finally show ?thesis .
  qed
  moreover have "0 \<le> fl (of_int t / 3)" by (rule fl_nonneg) (use assms in simp)
  ultimately show ?thesis using overflow_bound_pos
    by (simp add: QUORUM_NUMERATOR_def QUORUM_DENOMINATOR_def to_double_def Let_def)
qed

lemma quorum_verdict:
  assumes "0 \<le> f" "0 \<le> a" "0 \<le> b" "f + a + b \<le> 2 ^ 53" "0 < t" "t \<le> 2 ^ 53"
  shows "\<exists>k. computeQuorum (int_input f a b t) = KnownQuorum k \<and>
             (kq_isMet k \<longleftrightarrow> t \<le> 3 * (f + a + b))"
proof -
  have "fl (of_int t / 3) \<le> of_int (f + a + b) \<longleftrightarrow> t \<le> 3 * (f + a + b)"
    using fl.threshold_exact [of "f + a + b" t 3] assms by simp
  then show ?thesis
    using participating_int [OF assms(1-4)] threshold_int [OF assms(5,6)] assms(5)
    by (simp add: computeQuorum_def int_input_def)
qed



text \<open>C36. Beyond safe integers the verdict errs only by the rounding of the threshold: for every
  positive double stake and every double participation, a participation of at least one third is
  always accepted, and an accepted participation is at least a third less a relative \<open>2 ^ -53\<close>.\<close>

theorem quorum_rounding_bounds:
  assumes "totalActiveStake i = Some (Num t)" "participatingLamports i = Num p"
    and "is_double (Num t)" "is_double (Num p)" "2 powi (-1000) \<le> t"
  shows "\<exists>k. computeQuorum i = KnownQuorum k \<and>
             (t \<le> 3 * p \<longrightarrow> kq_isMet k) \<and> (kq_isMet k \<longrightarrow> t - t / 2 ^ 53 \<le> 3 * p)"
proof -
  have t: "0 < t" using assms(5) by (meson less_le_trans zero_less_numeral zero_less_power_int)
  have "2 powi (-1002) = (2 powi (-1000) / 4 :: rat)" using power_int_diff [of "2::rat" "-1000" 2] by simp
  moreover have "(2::rat) powi (-1022) \<le> 2 powi (-1002)" by (intro power_int_increasing) auto
  ultimately have norm: "2 powi (-1022) \<le> \<bar>t / 3\<bar>" using assms(5) t by linarith
  have one: "Num t * QUORUM_NUMERATOR = Num t"
    using to_double_is_double [OF assms(3)] by (simp add: QUORUM_NUMERATOR_def)
  have q: "(Num t * QUORUM_NUMERATOR) / QUORUM_DENOMINATOR = to_double (t / 3)"
    unfolding one QUORUM_DENOMINATOR_def by simp
  have fp: "fl p = p" "to_double p = Num p" using assms(4) to_double_is_double by auto
  have 1: "to_double (t / 3) \<le> Num p" if "t \<le> 3 * p"
    using to_double_mono [of "t / 3" p] that fp by simp
  have 2: "t - t / 2 ^ 53 \<le> 3 * p" if met: "to_double (t / 3) \<le> Num p"
  proof -
    have "fl (t / 3) < overflow_bound" using met by (auto simp: to_double_def Let_def split: if_splits)
    moreover have "0 \<le> fl (t / 3)" by (rule fl_nonneg) (use t in simp)
    ultimately have "fl (t / 3) \<le> p"
      using met overflow_bound_pos by (auto simp: to_double_def Let_def split: if_splits)
    moreover have "\<bar>fl (t / 3) - t / 3\<bar> \<le> t / 3 / 2 ^ 53" using fl_rel_error [OF norm] t by simp
    ultimately have "t / 3 - t / 3 / 2 ^ 53 \<le> p" by linarith
    then show ?thesis by (simp add: field_simps)
  qed
  show ?thesis using 1 2 t assms(1,2) q by (auto simp: computeQuorum_def)
qed

theorem quorum_rounding_bounds_witness:
  "\<exists>k. computeQuorum (int_input 1 1 3 15) = KnownQuorum k \<and> kq_isMet k"
proof -
  have "(2::rat) powi (-1000) \<le> 2 powi 0" by (rule power_int_increasing) auto
  then have "(2::rat) powi (-1000) \<le> 15" by (simp del: power_int_minus)
  moreover have "participatingLamports (int_input 1 1 3 15) = Num 5"
    using participating_int [of 1 1 3 15] by simp
  moreover have "is_double (Num 15)" "is_double (Num 5)"
    using is_double_int [of 15] is_double_int [of 5] by simp_all
  ultimately show ?thesis
    using quorum_rounding_bounds [of "int_input 1 1 3 15" 15 5] by (auto simp: int_input_def)
qed

text \<open>Adding a non-negative double never rounds below the other summand.\<close>

lemma add_ge_left: "is_double (Num a) \<Longrightarrow> 0 \<le> b \<Longrightarrow> Num a \<le> Num a + Num b"
  using to_double_mono [of a "a + b"] to_double_is_double [of a] by simp

lemma add_ge_right: "is_double (Num b) \<Longrightarrow> 0 \<le> a \<Longrightarrow> Num b \<le> Num a + Num b"
  using add_ge_left [of b a] by (simp add: add.commute)

lemma number_le_add:
  assumes "Num a \<le> y" "0 \<le> b" "is_double y"
  shows "Num a \<le> y + Num b"
proof (cases y)
  case (Num r)
  then have "Num r \<le> Num r + Num b" using assms(2,3) by (intro add_ge_left) simp_all
  then show ?thesis using assms(1) Num number_le_trans by blast
qed (use assms in auto)

lemma percent_bounds:
  assumes "0 \<le> a" "Num a \<le> p" "Num 0 < p"
  shows "Num 0 \<le> Num a / p * Num 100 \<and> Num a / p * Num 100 \<le> Num 100"
proof (cases p)
  case (Num r)
  have f1: "to_double 1 = Num 1" "to_double 100 = Num 100"
    using to_double_of_int [of 1] to_double_of_int [of 100] by simp_all
  have "to_double 0 \<le> to_double (a / r)" "to_double (a / r) \<le> to_double 1"
    using assms Num by (auto intro!: to_double_mono simp del: to_double_0)
  then obtain q where q: "to_double (a / r) = Num q" "0 \<le> q" "q \<le> 1"
    using f1 by (cases "to_double (a / r)") auto
  then have "to_double 0 \<le> to_double (q * 100)" "to_double (q * 100) \<le> to_double 100"
    by (auto intro!: to_double_mono simp del: to_double_0)
  then show ?thesis using assms Num q f1 by simp
qed (use assms in auto)

text \<open>The shown percentages are percentages: for non-negative finite amounts every share of
  the votes cast lies between 0 and 100, the shares are known exactly when votes were cast, and the
  shares of the stake are known exactly when the quorum is.\<close>

theorem vote_shares_bounded:
  assumes "forLamports i = Num f" "againstLamports i = Num a" "abstainLamports i = Num b"
    and "0 \<le> f" "0 \<le> a" "0 \<le> b" "is_double (Num f)" "is_double (Num a)" "is_double (Num b)"
  shows "let st = computeProposalVoteStats i in
    (voteShare st = UnknownBreakdown \<longleftrightarrow> \<not> Num 0 < participatingLamports i) \<and>
    (stakeShare st = UnknownBreakdown \<longleftrightarrow> quorum st = UnknownQuorum) \<and>
    (\<forall>v. voteShare st = KnownBreakdown v \<longrightarrow>
       (\<forall>x\<in>{forPercent v, againstPercent v, abstainPercent v}. Num 0 \<le> x \<and> x \<le> Num 100))"
proof -
  let ?p = "participatingLamports i"
  have p: "?p = Num f + Num a + Num b" by (simp add: participatingLamports_def assms)
  have d: "is_double (Num f + Num a)" by (simp only: is_double_arith assms)
  have "Num f \<le> ?p" "Num a \<le> ?p"
    unfolding p by (rule number_le_add; use add_ge_left add_ge_right assms d in blast)+
  moreover have "Num b \<le> ?p"
  proof (cases "Num f + Num a")
    case (Num r)
    have "to_double 0 \<le> to_double (f + a)" using assms by (intro to_double_mono) simp
    with Num have "0 \<le> r" by simp
    with Num add_ge_right [of b r] assms show ?thesis by (simp add: p)
  qed (use assms to_double_mono [of 0 "f + a"] p in auto)
  ultimately show ?thesis
    using assms(4-6) percent_bounds [of f ?p] percent_bounds [of a ?p] percent_bounds [of b ?p]
    by (auto simp: computeProposalVoteStats_def Let_def assms(1-3) split: quorum_status.splits if_splits)
qed

theorem vote_shares_bounded_witness:
  "let st = computeProposalVoteStats (int_input 3 1 1 15) in
   \<forall>v. voteShare st = KnownBreakdown v \<longrightarrow> Num 0 \<le> forPercent v \<and> forPercent v \<le> Num 100"
  using vote_shares_bounded [of "int_input 3 1 1 15" 3 1 1] is_double_int [of 3] is_double_int [of 1]
  by (simp add: int_input_def Let_def)

text \<open>A denominator is used only when it belongs to the proposal: the resolved total is the
  one of the meta answer, the proposal has a non-zero snapshot slot, and the two slots are equal;
  otherwise the quorum is reported as unknown and never guessed.\<close>

theorem denominator_belongs_to_snapshot:
  "(case resolveQuorumDenominator meta slot of
      Some t \<Rightarrow> \<exists>m s. meta = Some m \<and> slot = Some s \<and> truthy s \<and> meta_slot m = s \<and>
                     meta_total_active_stake m = Some t
    | None \<Rightarrow> computeQuorum (i\<lparr>totalActiveStake := resolveQuorumDenominator meta slot\<rparr>) = UnknownQuorum)"
  by (auto simp: resolveQuorumDenominator_def seq_def computeQuorum_def
      split: option.splits if_splits)

end
