(* ===== verification/Js_String.thy ===== *)
theory Js_String
  imports Js_Number
begin

text \<open>
  JavaScript strings: lists of UTF-16 code units, with the operations of the standard library the
  source calls.  A literal of the source is written \<open>js ''...''\<close>.  Case conversion covers ASCII
  and the two non-ASCII code units whose lower case contains an ASCII letter (KELVIN SIGN and
  capital I with dot above); every other code unit is its own lower case here.
\<close>

type_synonym jsstr = "nat list"

definition js :: "string \<Rightarrow> jsstr" where
  "js s = map of_char s"

lemma js_eq_iff [simp]: "js a = js b \<longleftrightarrow> a = b"
  unfolding js_def by (simp add: inj_on_def)

lemma js_Nil [simp]: "js [] = []"
  by (simp add: js_def)

lemma js_eq_Nil [simp]: "js a = [] \<longleftrightarrow> a = []" "[] = js a \<longleftrightarrow> a = []"
  by (auto simp: js_def)

lemma js_Cons [js_str]: "js (c # s) = of_char c # js s"
  by (simp add: js_def)

lemma js_append: "js (a @ b) = js a @ js b"
  by (simp add: js_def)

lemma length_js [simp]: "length (js a) = length a"
  by (simp add: js_def)

abbreviation code :: "char \<Rightarrow> nat" where
  "code c \<equiv> of_char c"

section \<open>Character classes\<close>

definition is_digit :: "nat \<Rightarrow> bool" where
  "is_digit c \<longleftrightarrow> 48 \<le> c \<and> c \<le> 57"

definition is_upper :: "nat \<Rightarrow> bool" where
  "is_upper c \<longleftrightarrow> 65 \<le> c \<and> c \<le> 90"

definition is_lower :: "nat \<Rightarrow> bool" where
  "is_lower c \<longleftrightarrow> 97 \<le> c \<and> c \<le> 122"

definition is_alnum :: "nat \<Rightarrow> bool" where
  "is_alnum c \<longleftrightarrow> is_digit c \<or> is_upper c \<or> is_lower c"

text \<open>White space and line terminators, the set shared by \<open>trim\<close> and \<open>\s\<close>.\<close>

definition is_space :: "nat \<Rightarrow> bool" where
  "is_space c \<longleftrightarrow> (9 \<le> c \<and> c \<le> 13) \<or> c = 32 \<or> c = 160 \<or> c = 5760 \<or> (8192 \<le> c \<and> c \<le> 8202) \<or>
     c = 8232 \<or> c = 8233 \<or> c = 8239 \<or> c = 8287 \<or> c = 12288 \<or> c = 65279"

section \<open>Trimming, searching and splitting\<close>

definition trimStart :: "jsstr \<Rightarrow> jsstr" where
  "trimStart s = dropWhile is_space s"

definition trimEnd :: "jsstr \<Rightarrow> jsstr" where
  "trimEnd s = rev (dropWhile is_space (rev s))"

definition trim :: "jsstr \<Rightarrow> jsstr" where
  "trim s = trimEnd (trimStart s)"

fun startsWith :: "jsstr \<Rightarrow> jsstr \<Rightarrow> bool" where
  "startsWith s [] = True"
| "startsWith [] (p # ps) = False"
| "startsWith (c # s) (p # ps) = (c = p \<and> startsWith s ps)"

definition endsWith :: "jsstr \<Rightarrow> jsstr \<Rightarrow> bool" where
  "endsWith s p = startsWith (rev s) (rev p)"

fun indexOf :: "jsstr \<Rightarrow> jsstr \<Rightarrow> nat option" where
  "indexOf [] p = (if p = [] then Some 0 else None)"
| "indexOf (c # s) p = (if startsWith (c # s) p then Some 0 else map_option Suc (indexOf s p))"

definition str_includes :: "jsstr \<Rightarrow> jsstr \<Rightarrow> bool" where
  "str_includes s p \<longleftrightarrow> indexOf s p \<noteq> None"

fun lastIndexOf :: "jsstr \<Rightarrow> nat \<Rightarrow> nat option" where
  "lastIndexOf [] c = None"
| "lastIndexOf (x # s) c =
     (case lastIndexOf s c of Some i \<Rightarrow> Some (Suc i) | None \<Rightarrow> if x = c then Some 0 else None)"

fun split_on :: "nat \<Rightarrow> jsstr \<Rightarrow> jsstr list" where
  "split_on c [] = [[]]"
| "split_on c (x # s) =
     (let parts = split_on c s in if x = c then [] # parts else (x # hd parts) # tl parts)"

declare split_on.simps [simp del]

lemma split_on_simps [simp]:
  "split_on c [] = [[]]"
  "split_on c (x # s) =
     (if x = c then [] # split_on c s else (x # hd (split_on c s)) # tl (split_on c s))"
  by (simp_all add: split_on.simps Let_def)

fun join :: "jsstr \<Rightarrow> jsstr list \<Rightarrow> jsstr" where
  "join sep [] = []"
| "join sep [x] = x"
| "join sep (x # y # xs) = x @ sep @ join sep (y # xs)"

section \<open>Case conversion\<close>

definition lower_unit :: "nat \<Rightarrow> jsstr" where
  "lower_unit c = (if is_upper c then [c + 32] else if c = 8490 then [107]
     else if c = 304 then [105, 775] else [c])"

definition toLowerCase :: "jsstr \<Rightarrow> jsstr" where
  "toLowerCase s = concat (map lower_unit s)"

text \<open>Case-insensitive search of an ASCII text, as a regular expression with the flag \<open>i\<close> does it
  (only ASCII letters fold to ASCII letters there).\<close>

definition ascii_fold :: "jsstr \<Rightarrow> jsstr" where
  "ascii_fold s = map (\<lambda>c. if is_upper c then c + 32 else c) s"

definition ci_includes :: "jsstr \<Rightarrow> jsstr \<Rightarrow> bool" where
  "ci_includes s p = str_includes (ascii_fold s) (ascii_fold p)"

section \<open>Numerals\<close>

fun dec :: "nat \<Rightarrow> jsstr" where
  "dec n = (if n < 10 then [48 + n] else dec (n div 10) @ [48 + n mod 10])"

declare dec.simps [simp del]

definition dec_int :: "int \<Rightarrow> jsstr" where
  "dec_int i = (if i < 0 then 45 # dec (nat (- i)) else dec (nat i))"

fun dec_val_acc :: "nat \<Rightarrow> jsstr \<Rightarrow> nat" where
  "dec_val_acc n [] = n"
| "dec_val_acc n (c # s) = dec_val_acc (10 * n + (c - 48)) s"

definition dec_val :: "jsstr \<Rightarrow> nat" where
  "dec_val s = dec_val_acc 0 s"

definition signed :: "(jsstr \<Rightarrow> number) \<Rightarrow> jsstr \<Rightarrow> number" where
  "signed f s = (case s of [] \<Rightarrow> f [] | c # cs \<Rightarrow> if c = 43 then f cs else if c = 45 then - f cs else f s)"

text \<open>\<open>Number.parseInt(s, 10)\<close>.\<close>

definition parseInt10 :: "jsstr \<Rightarrow> number" where
  "parseInt10 s = signed (\<lambda>t. let ds = takeWhile is_digit t in
     if ds = [] then NaN else to_double (of_nat (dec_val ds))) (trimStart s)"

text \<open>\<open>Number(s)\<close>: the decimal literal, then the conversion with its white space and prefixes.\<close>

definition parse_exponent :: "jsstr \<Rightarrow> int option" where
  "parse_exponent s =
     (case s of [] \<Rightarrow> Some 0
      | e # t \<Rightarrow>
          if e \<noteq> 101 \<and> e \<noteq> 69 then None
          else (let neg = (t \<noteq> [] \<and> hd t = 45);
                    ds = (if t \<noteq> [] \<and> (hd t = 45 \<or> hd t = 43) then tl t else t)
                in if ds = [] \<or> \<not> list_all is_digit ds then None
                   else Some (if neg then - int (dec_val ds) else int (dec_val ds))))"

definition parse_unsigned_decimal :: "jsstr \<Rightarrow> number" where
  "parse_unsigned_decimal s =
     (if s = js ''Infinity'' then Infinity
      else let ip = takeWhile is_digit s; r = dropWhile is_digit s;
               fp = (if r \<noteq> [] \<and> hd r = 46 then takeWhile is_digit (tl r) else []);
               r' = (if r \<noteq> [] \<and> hd r = 46 then dropWhile is_digit (tl r) else r)
           in if ip @ fp = [] then NaN
              else (case parse_exponent r' of None \<Rightarrow> NaN
                    | Some e \<Rightarrow> to_double (of_nat (dec_val (ip @ fp)) * 10 powi (e - int (length fp)))))"

definition radix_digit :: "nat \<Rightarrow> nat option" where
  "radix_digit c = (if is_digit c then Some (c - 48)
     else if 97 \<le> c \<and> c \<le> 102 then Some (c - 87)
     else if 65 \<le> c \<and> c \<le> 70 then Some (c - 55) else None)"

fun radix_val :: "nat \<Rightarrow> nat \<Rightarrow> jsstr \<Rightarrow> nat option" where
  "radix_val b n [] = Some n"
| "radix_val b n (c # s) =
     (case radix_digit c of None \<Rightarrow> None | Some d \<Rightarrow> if d < b then radix_val b (b * n + d) s else None)"

definition string_to_number :: "jsstr \<Rightarrow> number" where
  "string_to_number s0 =
     (let s = trim s0;
          radix = (\<lambda>b t. if t = [] then NaN
                         else case radix_val b 0 t of None \<Rightarrow> NaN | Some n \<Rightarrow> to_double (of_nat n))
      in case s of [] \<Rightarrow> Num 0
         | [c] \<Rightarrow> signed parse_unsigned_decimal s
         | c # p # t \<Rightarrow>
             if c = 48 \<and> (p = 120 \<or> p = 88) then radix 16 t
             else if c = 48 \<and> (p = 111 \<or> p = 79) then radix 8 t
             else if c = 48 \<and> (p = 98 \<or> p = 66) then radix 2 t
             else signed parse_unsigned_decimal s)"

text \<open>\<open>Number.prototype.toFixed\<close> for magnitudes below \<open>10 ^ 21\<close>: the nearest multiple of
  \<open>10 ^ -d\<close>, the larger one on a tie.\<close>

fun pad_zeros :: "nat \<Rightarrow> jsstr \<Rightarrow> jsstr" where
  "pad_zeros n s = replicate (n - length s) 48 @ s"

definition fixed_rat :: "nat \<Rightarrow> rat \<Rightarrow> jsstr" where
  "fixed_rat d r =
     (let n = nat \<lfloor>r * 10 ^ d + 1 / 2\<rfloor>; s = pad_zeros (Suc d) (dec n); k = length s - d
      in if d = 0 then dec n else take k s @ [46] @ drop k s)"

fun toFixed :: "nat \<Rightarrow> number \<Rightarrow> jsstr" where
  "toFixed d (Num r) = (if r < 0 then 45 # fixed_rat d (- r) else fixed_rat d r)"
| "toFixed d Infinity = js ''Infinity''"
| "toFixed d NegInfinity = js ''-Infinity''"
| "toFixed d NaN = js ''NaN''"

text \<open>
  \<open>Number::toString\<close>: the shortest decimal digits that round to the number (the closest of them),
  laid out as the standard says.  \<open>dec_exp x\<close> is the \<open>n\<close> with \<open>10 ^ (n - 1) \<le> x < 10 ^ n\<close>.
\<close>

definition dec_exp :: "rat \<Rightarrow> int" where
  "dec_exp x = (if 1 \<le> x then int (length (dec (nat \<lfloor>x\<rfloor>)))
                else 1 - int (length (dec (nat (\<lceil>1 / x\<rceil> - 1)))))"

definition digit_candidates :: "rat \<Rightarrow> nat \<Rightarrow> (nat \<times> int) list" where
  "digit_candidates x k =
     (let n = dec_exp x; s = nat \<lfloor>x * 10 powi (int k - n)\<rfloor>
      in filter (\<lambda>(s, n). 10 ^ (k - 1) \<le> s \<and> fl (of_nat s * 10 powi (n - int k)) = x)
           [(s, n), if Suc s = 10 ^ k then (10 ^ (k - 1), n + 1) else (Suc s, n)])"

definition closest :: "rat \<Rightarrow> nat \<Rightarrow> (nat \<times> int) list \<Rightarrow> nat \<times> int" where
  "closest x k cs =
     (let err = (\<lambda>(s, n). \<bar>of_nat s * 10 powi (n - int k) - x\<bar>)
      in case cs of [a, b] \<Rightarrow> if err b < err a then b else a | _ \<Rightarrow> hd cs)"

fun shortest_from :: "nat \<Rightarrow> rat \<Rightarrow> nat \<Rightarrow> nat \<times> int" where
  "shortest_from 0 x k = (nat \<lfloor>x\<rfloor>, dec_exp x)"
| "shortest_from (Suc fuel) x k =
     (let cs = digit_candidates x k in if cs \<noteq> [] then closest x k cs else shortest_from fuel x (Suc k))"

definition layout_digits :: "jsstr \<Rightarrow> int \<Rightarrow> jsstr" where
  "layout_digits ds n =
     (let k = int (length ds) in
      if k \<le> n \<and> n \<le> 21 then ds @ replicate (nat (n - k)) 48
      else if 0 < n \<and> n \<le> 21 then take (nat n) ds @ [46] @ drop (nat n) ds
      else if -6 < n \<and> n \<le> 0 then [48, 46] @ replicate (nat (- n)) 48 @ ds
      else let e = n - 1; es = [101, if 0 \<le> e then 43 else 45] @ dec (nat \<bar>e\<bar>)
           in if k = 1 then ds @ es else take 1 ds @ [46] @ drop 1 ds @ es)"

definition rat_to_string :: "rat \<Rightarrow> jsstr" where
  "rat_to_string x = (case shortest_from 18 x 1 of (s, n) \<Rightarrow> layout_digits (dec s) n)"

fun number_to_string :: "number \<Rightarrow> jsstr" where
  "number_to_string (Num r) =
     (if r = 0 then js ''0'' else if r < 0 then 45 # rat_to_string (- r) else rat_to_string r)"
| "number_to_string Infinity = js ''Infinity''"
| "number_to_string NegInfinity = js ''-Infinity''"
| "number_to_string NaN = js ''NaN''"

section \<open>UTF-8\<close>

fun utf8_length :: "jsstr \<Rightarrow> nat" where
  "utf8_length [] = 0"
| "utf8_length (c # s) =
     (if c < 128 then 1 + utf8_length s
      else if c < 2048 then 2 + utf8_length s
      else case s of
             [] \<Rightarrow> 3
           | d # t \<Rightarrow>
               if 55296 \<le> c \<and> c < 56320 \<and> 56320 \<le> d \<and> d < 57344 then 4 + utf8_length t
               else 3 + utf8_length s)"

section \<open>Laws\<close>

lemma split_on_ne [simp]: "split_on c s \<noteq> []"
  by (cases s) auto

lemma join_Cons: "xs \<noteq> [] \<Longrightarrow> join sep (x # xs) = x @ sep @ join sep xs"
  by (cases xs) auto

lemma join_split [simp]: "join [c] (split_on c s) = s"
proof (induction s)
  case (Cons x s)
  obtain y ys where "split_on c s = y # ys" by (meson list.exhaust split_on_ne)
  with Cons show ?case by (cases ys) (auto simp: join_Cons)
qed simp

lemma split_on_no_sep: "p \<in> set (split_on c s) \<Longrightarrow> c \<notin> set p"
proof (induction s arbitrary: p)
  case (Cons x s)
  obtain y ys where "split_on c s = y # ys" by (meson list.exhaust split_on_ne)
  with Cons show ?case by (auto split: if_splits)
qed simp

lemma split_on_chars: "p \<in> set (split_on c s) \<Longrightarrow> set p \<subseteq> set s"
proof (induction s arbitrary: p)
  case (Cons x s)
  obtain y ys where yy: "split_on c s = y # ys" by (meson list.exhaust split_on_ne)
  then have "set y \<subseteq> set s" "\<And>q. q \<in> set ys \<Longrightarrow> set q \<subseteq> set s" using Cons.IH by auto
  with Cons.prems yy show ?case by (auto split: if_splits)
qed simp

lemma split_on_app: "c \<notin> set p \<Longrightarrow> split_on c (p @ c # s) = p # split_on c s"
  by (induction p) auto

lemma split_on_single: "c \<notin> set p \<Longrightarrow> split_on c p = [p]"
  by (induction p) auto

lemma split_join:
  assumes "xs \<noteq> []" "\<And>x. x \<in> set xs \<Longrightarrow> c \<notin> set x"
  shows "split_on c (join [c] xs) = xs"
  using assms
proof (induction xs rule: induct_list012)
  case (3 x y zs)
  have "split_on c (join [c] (y # zs)) = y # zs" by (rule "3.IH"(2)) (use 3(4) in auto)
  with 3(4) [of x] show ?case by (simp add: split_on_app)
qed (auto simp: split_on_single)

lemma startsWith_iff: "startsWith s p \<longleftrightarrow> (\<exists>t. s = p @ t)"
  by (induction s p rule: startsWith.induct) auto

lemma endsWith_iff: "endsWith s p \<longleftrightarrow> (\<exists>t. s = t @ p)"
proof -
  have "endsWith s p \<longleftrightarrow> (\<exists>t. rev s = rev p @ t)" by (simp add: endsWith_def startsWith_iff)
  also have "\<dots> \<longleftrightarrow> (\<exists>t. s = t @ p)"
    by (metis rev_append rev_rev_ident)
  finally show ?thesis .
qed

lemma indexOf_SomeD: "indexOf s p = Some i \<Longrightarrow> \<exists>t. s = take i s @ p @ t"
proof (induction s arbitrary: i)
  case (Cons c s)
  show ?case
  proof (cases "startsWith (c # s) p")
    case True
    then show ?thesis using Cons.prems by (auto simp: startsWith_iff)
  next
    case False
    then obtain j where "i = Suc j" "indexOf s p = Some j" using Cons.prems by auto
    with Cons.IH [of j] show ?thesis by auto
  qed
qed (auto split: if_splits)

lemma indexOf_NoneD: "indexOf s p = None \<Longrightarrow> s \<noteq> a @ p @ b"
proof (induction s arbitrary: a)
  case (Cons c s)
  then have "\<not> startsWith (c # s) p" "indexOf s p = None" by (auto split: if_splits)
  then show ?case using Cons.IH by (cases a) (auto simp: startsWith_iff)
qed (auto split: if_splits)

lemma str_includes_iff: "str_includes s p \<longleftrightarrow> (\<exists>a b. s = a @ p @ b)"
  unfolding str_includes_def using indexOf_SomeD indexOf_NoneD by (metis not_Some_eq)

lemma trimStart_hd: "trimStart s \<noteq> [] \<Longrightarrow> \<not> is_space (hd (trimStart s))"
  by (simp add: trimStart_def hd_dropWhile)

lemma trimEnd_last: "trimEnd s \<noteq> [] \<Longrightarrow> \<not> is_space (last (trimEnd s))"
  by (simp add: trimEnd_def last_rev hd_dropWhile)

lemma trimStart_id: "s = [] \<or> \<not> is_space (hd s) \<Longrightarrow> trimStart s = s"
  by (cases s) (auto simp: trimStart_def)

lemma trimEnd_id: "s = [] \<or> \<not> is_space (last s) \<Longrightarrow> trimEnd s = s"
  by (cases s rule: rev_cases) (auto simp: trimEnd_def)

lemma trimEnd_hd:
  assumes "s = [] \<or> \<not> is_space (hd s)" "trimEnd s \<noteq> []"
  shows "hd (trimEnd s) = hd s"
proof -
  have "s = trimEnd s @ rev (takeWhile is_space (rev s))"
    unfolding trimEnd_def by (metis rev_append rev_rev_ident takeWhile_dropWhile_id)
  with assms(2) show ?thesis by (metis hd_append2)
qed

lemma trim_id: "s = [] \<or> (\<not> is_space (hd s) \<and> \<not> is_space (last s)) \<Longrightarrow> trim s = s"
  by (auto simp: trim_def trimStart_id trimEnd_id)

lemma trim_idem [simp]: "trim (trim s) = trim s"
proof (cases "trim s = []")
  case False
  moreover have "hd (trim s) = hd (trimStart s)"
    using False trimStart_hd [of s] unfolding trim_def by (intro trimEnd_hd) auto
  moreover have "trimStart s \<noteq> []" using False by (auto simp: trim_def trimEnd_def)
  ultimately show ?thesis
    using trimStart_hd [of s] trimEnd_last [of "trimStart s"] by (intro trim_id) (auto simp: trim_def)
next
  case True
  then show ?thesis by (simp add: trim_id)
qed

lemma dec_ne [simp]: "dec n \<noteq> []"
  by (subst dec.simps) auto

lemma dec_digits: "c \<in> set (dec n) \<Longrightarrow> is_digit c"
  by (induction n rule: dec.induct) (subst (asm) (2) dec.simps, auto simp: is_digit_def split: if_splits)

lemma dec_val_acc_append: "dec_val_acc n (s @ t) = dec_val_acc (dec_val_acc n s) t"
  by (induction n s rule: dec_val_acc.induct) auto

lemma dec_val_dec [simp]: "dec_val (dec n) = n"
  by (induction n rule: dec.induct) (subst dec.simps, auto simp: dec_val_def dec_val_acc_append)

lemma takeWhile_dec [simp]: "takeWhile is_digit (dec n) = dec n"
  by (simp add: dec_digits takeWhile_eq_all_conv)

lemma not_space_digit: "is_digit c \<Longrightarrow> \<not> is_space c"
  by (auto simp: is_digit_def is_space_def)

lemma hd_dec: "is_digit (hd (dec n))"
  by (rule dec_digits [of _ n]) simp

lemma last_dec: "is_digit (last (dec n))"
  by (rule dec_digits [of _ n]) simp

lemma trim_dec [simp]: "trim (dec n) = dec n"
  by (rule trim_id) (simp add: hd_dec last_dec not_space_digit)

text \<open>Reading back a printed natural number.\<close>

lemma parseInt10_dec: "parseInt10 (dec n) = to_double (of_nat n)"
proof -
  obtain c s where d: "dec n = c # s" by (cases "dec n") auto
  have "is_digit c" using hd_dec [of n] d by simp
  then have "c \<noteq> 43" "c \<noteq> 45" by (auto simp: is_digit_def)
  moreover have "trimStart (dec n) = dec n"
    using hd_dec [of n] by (intro trimStart_id) (simp add: not_space_digit)
  ultimately have "parseInt10 (dec n) = (let ds = takeWhile is_digit (dec n) in
      if ds = [] then NaN else to_double (of_nat (dec_val ds)))"
    by (simp add: parseInt10_def signed_def d)
  then show ?thesis by simp
qed

lemma utf8_length_ascii: "\<forall>c\<in>set s. c < 128 \<Longrightarrow> utf8_length s = length s"
  by (induction s rule: utf8_length.induct) auto

end
