(* ===== verification/Chain_Types.thy ===== *)
theory Chain_Types
  imports Js_String
begin

text \<open>
  Values the frontend shares between its parts.  A \<open>PublicKey\<close> of \<open>@solana/web3.js\<close> is its 32
  bytes; what the library computes from it (base58 text, program addresses) is a parameter of
  the definitions that use it.  \<open>ProposalStatus\<close> is the union type of \<open>types/proposals.ts\<close>.
\<close>

datatype pubkey = PublicKey (pk_bytes: "nat list")

datatype proposal_status = Supporting | Discussion | Voting | Failed | Finalized

text \<open>The on-chain configuration the frontend works with (\<open>lib/getGovernanceConfig.ts\<close>).\<close>

record governance_config_dto =
  gc_admin :: jsstr
  gc_maxTitleLength :: number
  gc_maxDescriptionLength :: number
  gc_maxSupportEpochs :: number
  gc_minProposalStakeLamports :: number
  gc_clusterSupportPctMinBps :: number
  gc_discussionEpochs :: number
  gc_votingEpochs :: number
  gc_snapshotEpochExtension :: number
  gc_snapshotSlotOffset :: number
  gc_maxSupporters :: number
  gc_bump :: number

end
