(* ===== verification/Proposal_Status.thy ===== *)
theory Proposal_Status
  imports Chain_Types
begin

text \<open>
  The proposal lifecycle of \<open>frontend/src/lib/proposals.ts\<close>: the epochs at which the phases of a
  proposal begin and end, and the status shown for a proposal at an epoch.  Epochs and lamports
  are JavaScript numbers; the properties relate them to the integer lifecycle.
\<close>

section \<open>Data\<close>

record epoch_constants =
  SUPPORT_EPOCHS :: number
  DISCUSSION_EPOCHS :: number
  SNAPSHOT_EPOCHS :: number
  VOTING_EPOCHS :: number

record status_params =
  sp_creationEpoch :: number
  sp_startEpoch :: number
  sp_endEpoch :: number
  sp_currentEpoch :: number
  sp_clusterSupportLamports :: number
  sp_totalStakedLamports :: number
  sp_clusterSupportPctMinBps :: number
  sp_consensusResult :: "pubkey option"
  sp_finalized :: bool
  sp_voting :: bool
  sp_epochConstants :: epoch_constants

record phase_epochs =
  supportStartEpoch :: number
  supportEndEpoch :: number
  phaseBaseEpoch :: number
  discussionStartEpoch :: number
  discussionEndEpoch :: number
  snapshotEpoch :: number

record phase_anchors =
  pa_voting :: bool
  pa_startEpoch :: number

section \<open>Operations\<close>

definition epochConstantsFromGovernanceConfig :: "governance_config_dto \<Rightarrow> epoch_constants" where
  "epochConstantsFromGovernanceConfig dto =
     \<lparr>SUPPORT_EPOCHS = gc_maxSupportEpochs dto,
      DISCUSSION_EPOCHS = gc_discussionEpochs dto,
      SNAPSHOT_EPOCHS = gc_snapshotEpochExtension dto,
      VOTING_EPOCHS = gc_votingEpochs dto\<rparr>"

definition DEFAULT_SUPPORT_THRESHOLD_PERCENT :: number where
  "DEFAULT_SUPPORT_THRESHOLD_PERCENT = Num 15"

definition supportThresholdPercentFromConfig :: "governance_config_dto option \<Rightarrow> number" where
  "supportThresholdPercentFromConfig dto =
     (case dto of Some d \<Rightarrow> gc_clusterSupportPctMinBps d / Num 100
      | None \<Rightarrow> DEFAULT_SUPPORT_THRESHOLD_PERCENT)"

definition getProposalPhaseEpochs ::
  "number \<Rightarrow> epoch_constants \<Rightarrow> phase_anchors option \<Rightarrow> phase_epochs" where
  "getProposalPhaseEpochs creationEpoch epochs onChain =
     (let supportEnd = creationEpoch + SUPPORT_EPOCHS epochs + Num 1;
          base = supportEnd;
          discussionEnd = base + DISCUSSION_EPOCHS epochs;
          snapshot = base + DISCUSSION_EPOCHS epochs + SNAPSHOT_EPOCHS epochs;
          anchor = (case onChain of
                      None \<Rightarrow> None
                    | Some a \<Rightarrow> if pa_voting a \<and> Num 0 < pa_startEpoch a
                                then Some (pa_startEpoch a) else None)
      in \<lparr>supportStartEpoch = creationEpoch,
          supportEndEpoch = supportEnd,
          phaseBaseEpoch = base,
          discussionStartEpoch = base,
          discussionEndEpoch = (case anchor of Some e \<Rightarrow> e | None \<Rightarrow> discussionEnd),
          snapshotEpoch = (case anchor of Some e \<Rightarrow> e | None \<Rightarrow> snapshot)\<rparr>)"

definition isThresholdMetAtSupportEnd :: "status_params \<Rightarrow> bool" where
  "isThresholdMetAtSupportEnd p \<longleftrightarrow>
     sp_totalStakedLamports p * (sp_clusterSupportPctMinBps p / Num 10000)
       \<le> sp_clusterSupportLamports p"

definition getProposalStatus :: "status_params \<Rightarrow> proposal_status" where
  "getProposalStatus p =
     (if sp_finalized p then Finalized
      else if sp_endEpoch p \<le> sp_currentEpoch p \<and> \<not> seq (sp_endEpoch p) (Num 0) then
        (if \<not> sp_voting p then Failed else Finalized)
      else
        let ph = getProposalPhaseEpochs (sp_creationEpoch p) (sp_epochConstants p) None;
            votingStartEpoch = (if sp_voting p then sp_startEpoch p else snapshotEpoch ph + Num 1);
            cur = sp_currentEpoch p
        in if cur < supportStartEpoch ph then Supporting
           else if sp_voting p then
             (if cur < votingStartEpoch then Discussion
              else if sp_consensusResult p \<noteq> None then Voting
              else Discussion)
           else if seq cur (supportStartEpoch ph) then Supporting
           else if cur < supportEndEpoch ph then Supporting
           else if seq cur (supportEndEpoch ph) then
             (if \<not> isThresholdMetAtSupportEnd p then Failed else Discussion)
           else if discussionStartEpoch ph \<le> cur \<and> cur \<le> discussionEndEpoch ph then Failed
           else if discussionEndEpoch ph < cur then Failed
           else Supporting)"

section \<open>The integer lifecycle\<close>

text \<open>A proposal whose epochs and phase lengths are integers, as the program stores them.\<close>

record lifecycle =
  lc_creation :: int
  lc_start :: int
  lc_end :: int
  lc_support :: int
  lc_discussion :: int
  lc_snapshot :: int
  lc_votingEpochs :: int
  lc_supportLamports :: number
  lc_totalLamports :: number
  lc_minBps :: number
  lc_consensus :: "pubkey option"
  lc_finalized :: bool
  lc_voting :: bool

definition epoch_ints :: "lifecycle \<Rightarrow> epoch_constants" where
  "epoch_ints l = \<lparr>SUPPORT_EPOCHS = int_num (lc_support l), DISCUSSION_EPOCHS = int_num (lc_discussion l),
     SNAPSHOT_EPOCHS = int_num (lc_snapshot l), VOTING_EPOCHS = int_num (lc_votingEpochs l)\<rparr>"

definition params_at :: "lifecycle \<Rightarrow> int \<Rightarrow> status_params" where
  "params_at l e =
     \<lparr>sp_creationEpoch = int_num (lc_creation l), sp_startEpoch = int_num (lc_start l),
      sp_endEpoch = int_num (lc_end l), sp_currentEpoch = int_num e,
      sp_clusterSupportLamports = lc_supportLamports l, sp_totalStakedLamports = lc_totalLamports l,
      sp_clusterSupportPctMinBps = lc_minBps l, sp_consensusResult = lc_consensus l,
      sp_finalized = lc_finalized l, sp_voting = lc_voting l, sp_epochConstants = epoch_ints l\<rparr>"

definition epochs_ok :: "lifecycle \<Rightarrow> bool" where
  "epochs_ok l \<longleftrightarrow> 0 \<le> lc_creation l \<and> 0 \<le> lc_support l \<and> 0 \<le> lc_discussion l \<and> 0 \<le> lc_snapshot l \<and>
     lc_creation l + lc_support l + lc_discussion l + lc_snapshot l \<le> 2 ^ 52"

definition support_end :: "lifecycle \<Rightarrow> int" where
  "support_end l = lc_creation l + lc_support l + 1"

definition threshold_met :: "lifecycle \<Rightarrow> bool" where
  "threshold_met l \<longleftrightarrow> lc_totalLamports l * (lc_minBps l / Num 10000) \<le> lc_supportLamports l"

text \<open>The lifecycle as a specification: who is in which phase, in the order of the phases.\<close>

definition status_spec :: "lifecycle \<Rightarrow> int \<Rightarrow> proposal_status" where
  "status_spec l e =
     (let ended = (lc_end l \<noteq> 0 \<and> lc_end l \<le> e) in
      if lc_finalized l \<or> (ended \<and> lc_voting l) then Finalized
      else if ended then Failed
      else if e < lc_creation l then Supporting
      else if lc_voting l then
        (if lc_start l \<le> e \<and> lc_consensus l \<noteq> None then Voting else Discussion)
      else if e < support_end l then Supporting
      else if e = support_end l \<and> threshold_met l then Discussion
      else Failed)"

fun status_rank :: "proposal_status \<Rightarrow> nat" where
  "status_rank Supporting = 0"
| "status_rank Discussion = 1"
| "status_rank Voting = 2"
| "status_rank Failed = 3"
| "status_rank Finalized = 3"

lemma seq_int [simp]: "seq (int_num a) (int_num b) \<longleftrightarrow> a = b" "seq (int_num a) (Num 0) \<longleftrightarrow> a = 0"
  by (auto simp: seq_def)

lemma phase_epochs_int:
  assumes "epochs_ok l"
  shows "getProposalPhaseEpochs (int_num (lc_creation l)) (epoch_ints l) None =
    \<lparr>supportStartEpoch = int_num (lc_creation l),
     supportEndEpoch = int_num (support_end l),
     phaseBaseEpoch = int_num (support_end l),
     discussionStartEpoch = int_num (support_end l),
     discussionEndEpoch = int_num (support_end l + lc_discussion l),
     snapshotEpoch = int_num (support_end l + lc_discussion l + lc_snapshot l)\<rparr>"
proof -
  have "int_num (lc_creation l) + int_num (lc_support l) = int_num (lc_creation l + lc_support l)"
    "int_num (lc_creation l + lc_support l) + int_num 1 = int_num (support_end l)"
    "int_num (support_end l) + int_num (lc_discussion l) = int_num (support_end l + lc_discussion l)"
    "int_num (support_end l + lc_discussion l) + int_num (lc_snapshot l) =
     int_num (support_end l + lc_discussion l + lc_snapshot l)"
    unfolding support_end_def
    by (rule int_num_add, use assms in \<open>simp add: epochs_ok_def\<close>)+
  then show ?thesis by (simp add: getProposalPhaseEpochs_def epoch_ints_def Let_def del: plus_number.simps)
qed

lemma status_meets_spec:
  assumes "epochs_ok l"
  shows "getProposalStatus (params_at l e) = status_spec l e"
proof -
  have "0 \<le> lc_discussion l" "lc_creation l < support_end l"
    using assms by (auto simp: epochs_ok_def support_end_def)
  then show ?thesis
    unfolding getProposalStatus_def status_spec_def
    by (auto simp: params_at_def phase_epochs_int [OF assms] isThresholdMetAtSupportEnd_def
        threshold_met_def Let_def)
qed

lemma status_spec_rank_mono:
  assumes "e \<le> e'" "lc_creation l < support_end l"
  shows "status_rank (status_spec l e) \<le> status_rank (status_spec l e')"
  using assms by (auto simp: status_spec_def Let_def)

section \<open>Properties\<close>

definition sample_lifecycle :: lifecycle where
  "sample_lifecycle =
     \<lparr>lc_creation = 800, lc_start = 907, lc_end = 910, lc_support = 1, lc_discussion = 2,
      lc_snapshot = 1, lc_votingEpochs = 3, lc_supportLamports = Num 20, lc_totalLamports = Num 100,
      lc_minBps = Num 1500, lc_consensus = Some (PublicKey [1]), lc_finalized = False,
      lc_voting = True\<rparr>"

lemma sample_lifecycle_ok: "epochs_ok sample_lifecycle"
  by (simp add: epochs_ok_def sample_lifecycle_def)



text \<open>C16. The status of a proposal never moves backwards as epochs pass: with the account
  unchanged, supporting comes before discussion, discussion before voting, and the terminal
  statuses (failed, finalized) are never left.\<close>

theorem getProposalStatus_never_regresses:
  assumes "epochs_ok l" "e \<le> e'"
  shows "status_rank (getProposalStatus (params_at l e)) \<le> status_rank (getProposalStatus (params_at l e'))"
  unfolding status_meets_spec [OF assms(1)]
  by (rule status_spec_rank_mono) (use assms in \<open>auto simp: epochs_ok_def support_end_def\<close>)

theorem getProposalStatus_never_regresses_witness:
  "status_rank (getProposalStatus (params_at sample_lifecycle 850)) \<le>
   status_rank (getProposalStatus (params_at sample_lifecycle 909))"
  using getProposalStatus_never_regresses [OF sample_lifecycle_ok, of 850 909] by simp

text \<open>The phase epochs are ordered (support start before support end, which is the discussion
  start, then discussion end, then snapshot) while the projection is in use; once the account
  records an accepted proposal with a positive start epoch, discussion end and snapshot are that
  epoch, and the status between creation and the end epoch is \<open>Voting\<close> exactly from the anchored
  snapshot epoch on, provided the consensus result exists.\<close>

theorem phase_epochs_anchor_status:
  assumes "epochs_ok l" "0 < lc_start l" "lc_voting l" "\<not> lc_finalized l"
    "lc_creation l \<le> e" "e < lc_end l"
  shows "let proj = getProposalPhaseEpochs (int_num (lc_creation l)) (epoch_ints l) None;
             anch = getProposalPhaseEpochs (int_num (lc_creation l)) (epoch_ints l)
                      (Some \<lparr>pa_voting = True, pa_startEpoch = int_num (lc_start l)\<rparr>)
         in supportStartEpoch proj < supportEndEpoch proj \<and>
            discussionStartEpoch proj = supportEndEpoch proj \<and>
            discussionStartEpoch proj \<le> discussionEndEpoch proj \<and>
            discussionEndEpoch proj \<le> snapshotEpoch proj \<and>
            supportEndEpoch anch = supportEndEpoch proj \<and>
            discussionEndEpoch anch = int_num (lc_start l) \<and>
            snapshotEpoch anch = int_num (lc_start l) \<and>
            (getProposalStatus (params_at l e) = Voting \<longleftrightarrow>
               snapshotEpoch anch \<le> int_num e \<and> lc_consensus l \<noteq> None)"
proof -
  define proj where "proj = getProposalPhaseEpochs (int_num (lc_creation l)) (epoch_ints l) None"
  define anch where "anch = getProposalPhaseEpochs (int_num (lc_creation l)) (epoch_ints l)
                      (Some \<lparr>pa_voting = True, pa_startEpoch = int_num (lc_start l)\<rparr>)"
  have ok: "0 \<le> lc_discussion l" "0 \<le> lc_snapshot l" "lc_creation l < support_end l"
    using assms(1) by (auto simp: epochs_ok_def support_end_def)
  have pr: "supportStartEpoch proj < supportEndEpoch proj"
    "discussionStartEpoch proj = supportEndEpoch proj"
    "discussionStartEpoch proj \<le> discussionEndEpoch proj"
    "discussionEndEpoch proj \<le> snapshotEpoch proj"
    using ok by (auto simp: proj_def phase_epochs_int [OF assms(1)])
  have an: "discussionEndEpoch anch = int_num (lc_start l)" "snapshotEpoch anch = int_num (lc_start l)"
    "supportEndEpoch anch = supportEndEpoch proj"
    using assms(2) by (auto simp: anch_def proj_def getProposalPhaseEpochs_def Let_def)
  have st: "getProposalStatus (params_at l e) = Voting \<longleftrightarrow>
      snapshotEpoch anch \<le> int_num e \<and> lc_consensus l \<noteq> None"
    using assms(3-6) unfolding status_meets_spec [OF assms(1)] an
    by (auto simp: status_spec_def Let_def)
  show ?thesis using pr an st unfolding Let_def proj_def anch_def by blast
qed

theorem phase_epochs_anchor_status_witness:
  "getProposalStatus (params_at sample_lifecycle 908) = Voting \<longleftrightarrow>
   snapshotEpoch (getProposalPhaseEpochs (int_num 800) (epoch_ints sample_lifecycle)
     (Some \<lparr>pa_voting = True, pa_startEpoch = int_num 907\<rparr>)) \<le> int_num 908"
proof -
  have "0 < lc_start sample_lifecycle" "lc_voting sample_lifecycle" "\<not> lc_finalized sample_lifecycle"
    "lc_creation sample_lifecycle \<le> 908" "908 < lc_end sample_lifecycle"
    by (simp_all add: sample_lifecycle_def)
  from phase_epochs_anchor_status [OF sample_lifecycle_ok this] show ?thesis
    unfolding Let_def by (simp add: sample_lifecycle_def)
qed

end
