(* ===== verification/Support_Stats.thy ===== *)
theory Support_Stats
  imports Js_Number
begin

text \<open>
  The support-phase figures of a proposal
  (\<open>frontend/src/components/proposals/detail/support-phase-progress/stats.ts\<close>): required stake,
  progress, remaining stake, and whether the threshold is met.
\<close>

section \<open>Data\<close>

record support_stats_input =
  si_currentSupportLamports :: number
  si_totalStakedLamports :: number
  si_thresholdPercent :: number
  si_validatorCount :: number
  si_numOfValidators :: number
  si_thresholdCrossed :: "bool option"

record support_stats =
  ss_currentSupportLamports :: number
  ss_totalStakedLamports :: number
  requiredThresholdLamports :: number
  ss_thresholdPercent :: number
  progressPercent :: number
  supportPercentOfTotal :: number
  remainingLamports :: number
  isThresholdMet :: bool
  ss_validatorCount :: number
  participationPercent :: number
  avgStakePerValidator :: number

section \<open>Operation\<close>

definition computeSupportStats :: "support_stats_input \<Rightarrow> support_stats" where
  "computeSupportStats i =
     (let support = si_currentSupportLamports i;
          stake = si_totalStakedLamports i;
          crossed = (case si_thresholdCrossed i of None \<Rightarrow> False | Some b \<Rightarrow> b);
          required = stake * (si_thresholdPercent i / Num 100);
          live = (if Num 0 < required then (support / required) * Num 100 else Num 0)
      in \<lparr>ss_currentSupportLamports = support,
          ss_totalStakedLamports = stake,
          requiredThresholdLamports = required,
          ss_thresholdPercent = si_thresholdPercent i,
          progressPercent = (if crossed then math_max live (Num 100) else live),
          supportPercentOfTotal = (if Num 0 < stake then (support / stake) * Num 100 else Num 0),
          remainingLamports = (if crossed then Num 0 else math_max (Num 0) (required - support)),
          isThresholdMet = (crossed \<or> (Num 0 < stake \<and> required \<le> support)),
          ss_validatorCount = si_validatorCount i,
          participationPercent =
            (if Num 0 < si_numOfValidators i
             then (si_validatorCount i / si_numOfValidators i) * Num 100 else Num 0),
          avgStakePerValidator =
            (if Num 0 < si_validatorCount i then support / si_validatorCount i else Num 0)\<rparr>)"

section \<open>Properties\<close>

lemma math_max_ge: "x \<noteq> NaN \<Longrightarrow> y \<noteq> NaN \<Longrightarrow> y \<le> math_max x y \<and> x \<le> math_max x y"
  by (cases x; cases y) (auto simp: math_max_def less_eq_number_def)

lemma ratio_not_NaN: "Num 0 < q \<Longrightarrow> (Num s / q) * Num 100 \<noteq> NaN"
  by (cases q) (auto simp: to_double_def Let_def)

text \<open>A quotient of at least one gives at least 100 percent, whatever the rounding.\<close>

lemma percent_of_ge:
  assumes "0 < q" "q \<le> s"
  shows "Num 100 \<le> (Num s / Num q) * Num 100"
proof -
  have f1: "fl 1 = 1" using fl_of_int [of 1] by simp
  have f100: "to_double 100 = Num 100" using to_double_of_int [of 100] by simp
  have "1 \<le> fl (s / q)" using fl_mono [of 1 "s / q"] assms f1 by simp
  then consider "to_double (s / q) = Infinity" | r where "to_double (s / q) = Num r" "1 \<le> r"
    using to_double_pos [of "s / q"] to_double_NumD [of "s / q"]
    by (cases "to_double (s / q)") auto
  then show ?thesis
  proof cases
    case 2
    with to_double_mono [of 100 "r * 100"] f100 assms(1) show ?thesis by simp
  next
    case 1
    with assms(1) show ?thesis by simp
  qed
qed

lemma shortfall_pos:
  assumes "is_double (Num a)" "is_double (Num b)" "b < a"
  shows "Num 0 < Num a - Num b"
  using double_diff_pos [of a b] assms by (simp add: minus_number_def to_double_pos)

lemma shortfall_nonpos:
  assumes "a \<le> b"
  shows "math_max (Num 0) (Num a - Num b) = Num 0"
proof -
  have "to_double (a - b) \<le> to_double 0" by (rule to_double_mono) (use assms in simp)
  then have "Num a - Num b \<le> Num 0" by (simp add: minus_number_def)
  then show ?thesis by (cases "Num a - Num b") (auto simp: math_max_def less_eq_number_def)
qed

text \<open>The account's verdict wins: when the program recorded the crossing, the figures show
  the threshold as met, nothing remaining and at least 100 percent progress, whatever the live
  stake says (for every finite support amount).\<close>

theorem crossed_always_met:
  assumes "si_thresholdCrossed i = Some True" "si_currentSupportLamports i = Num s"
  shows "isThresholdMet (computeSupportStats i) \<and> remainingLamports (computeSupportStats i) = Num 0 \<and>
         Num 100 \<le> progressPercent (computeSupportStats i)"
proof -
  let ?req = "si_totalStakedLamports i * (si_thresholdPercent i / Num 100)"
  have "Num 100 \<le> math_max (if Num 0 < ?req then (Num s / ?req) * Num 100 else Num 0) (Num 100)"
    using math_max_ge ratio_not_NaN by (auto split: if_splits)
  then show ?thesis using assms by (simp add: computeSupportStats_def Let_def)
qed

definition sample_support :: "bool option \<Rightarrow> support_stats_input" where
  "sample_support c = \<lparr>si_currentSupportLamports = Num 14, si_totalStakedLamports = Num 100,
     si_thresholdPercent = Num 100, si_validatorCount = Num 2, si_numOfValidators = Num 10,
     si_thresholdCrossed = c\<rparr>"

theorem crossed_always_met_witness:
  "isThresholdMet (computeSupportStats (sample_support (Some True))) \<and>
   remainingLamports (computeSupportStats (sample_support (Some True))) = Num 0 \<and>
   Num 100 \<le> progressPercent (computeSupportStats (sample_support (Some True)))"
  by (rule crossed_always_met [of _ 14]) (simp_all add: sample_support_def)

text \<open>While the crossing is not recorded, the figures agree with each other on every finite
  double: the threshold is met exactly when no stake remains, a proposal that is not met has a
  strictly positive remainder, a met threshold above zero shows at least 100 percent, and with no
  stake loaded nothing is reported as met.\<close>

theorem live_figures_consistent:
  assumes "si_thresholdCrossed i \<noteq> Some True"
    and "si_currentSupportLamports i = Num s" "si_totalStakedLamports i = Num t"
    and "requiredThresholdLamports (computeSupportStats i) = Num q"
    and "is_double (Num s)" "is_double (Num q)"
  shows "let st = computeSupportStats i in
         (isThresholdMet st \<longleftrightarrow> 0 < t \<and> remainingLamports st = Num 0) \<and>
         (0 < t \<and> \<not> isThresholdMet st \<longrightarrow> Num 0 < remainingLamports st) \<and>
         (isThresholdMet st \<and> 0 < q \<longrightarrow> Num 100 \<le> progressPercent st) \<and>
         (t \<le> 0 \<longrightarrow> \<not> isThresholdMet st \<and> supportPercentOfTotal st = Num 0)"
proof -
  have q: "Num t * (si_thresholdPercent i / Num 100) = Num q"
    using assms(3,4) by (simp add: computeSupportStats_def Let_def)
  have c: "(case si_thresholdCrossed i of None \<Rightarrow> False | Some b \<Rightarrow> b) = False"
    using assms(1) by (auto split: option.splits)
  have rem: "math_max (Num 0) (Num q - Num s) = Num 0 \<longleftrightarrow> q \<le> s"
    "\<not> q \<le> s \<Longrightarrow> Num 0 < math_max (Num 0) (Num q - Num s)"
    using shortfall_pos [OF assms(6,5)] shortfall_nonpos [of q s]
    by (cases "q \<le> s"; cases "Num q - Num s"; auto simp: math_max_def)+
  show ?thesis
    using rem percent_of_ge [of q s]
    by (auto simp: computeSupportStats_def Let_def assms(2,3) q c)
qed

theorem live_figures_consistent_witness:
  "let st = computeSupportStats (sample_support None) in
   \<not> isThresholdMet st \<and> Num 0 < remainingLamports st"
proof -
  have d: "to_double 1 = Num 1" "to_double 100 = Num 100" "is_double (Num 14)" "is_double (Num 100)"
    using to_double_of_int [of 1] to_double_of_int [of 100] is_double_int [of 14] is_double_int [of 100]
    by simp_all
  have "requiredThresholdLamports (computeSupportStats (sample_support None)) = Num 100"
    using d by (simp add: computeSupportStats_def sample_support_def Let_def)
  from live_figures_consistent [OF _ _ _ this d(3,4), of 100] show ?thesis
    using d by (simp add: computeSupportStats_def sample_support_def Let_def)
qed

end
