(* ===== verification/Vote_Distribution.thy ===== *)
theory Vote_Distribution
  imports Js_String
begin

text \<open>
  The vote split editor of \<open>frontend/src/hooks/useVoteDistribution.ts\<close>: percentages for the three
  options, normalised after each edit.  The hook's React state is the record
  \<open>vote_distribution\<close>; its callbacks are the state transformers below.
\<close>

section \<open>Data\<close>

datatype vote_option = OptFor | OptAgainst | OptAbstain

record vote_distribution =
  vd_for :: number
  vd_against :: number
  vd_abstain :: number

definition VOTE_OPTIONS :: "vote_option list" where
  "VOTE_OPTIONS = [OptFor, OptAgainst, OptAbstain]"

definition DEFAULT_DISTRIBUTION :: vote_distribution where
  "DEFAULT_DISTRIBUTION = \<lparr>vd_for = Num 0, vd_against = Num 0, vd_abstain = Num 0\<rparr>"

datatype raw_value = RawString jsstr | RawNumber number

fun get_option :: "vote_distribution \<Rightarrow> vote_option \<Rightarrow> number" where
  "get_option d OptFor = vd_for d"
| "get_option d OptAgainst = vd_against d"
| "get_option d OptAbstain = vd_abstain d"

fun set_option :: "vote_distribution \<Rightarrow> vote_option \<Rightarrow> number \<Rightarrow> vote_distribution" where
  "set_option d OptFor v = d\<lparr>vd_for := v\<rparr>"
| "set_option d OptAgainst v = d\<lparr>vd_against := v\<rparr>"
| "set_option d OptAbstain v = d\<lparr>vd_abstain := v\<rparr>"

section \<open>Operations\<close>

definition clampPercentage :: "number \<Rightarrow> number" where
  "clampPercentage v = math_min (Num 100) (math_max (Num 0) v)"

text \<open>\<open>String(raw)\<close> is only reached for strings and for the non-finite numbers.\<close>

fun raw_string :: "raw_value \<Rightarrow> jsstr" where
  "raw_string (RawString s) = s"
| "raw_string (RawNumber Infinity) = js ''Infinity''"
| "raw_string (RawNumber NegInfinity) = js ''-Infinity''"
| "raw_string (RawNumber NaN) = js ''NaN''"
| "raw_string (RawNumber (Num r)) = []"

definition parsePercentageString :: "jsstr \<Rightarrow> number" where
  "parsePercentageString s =
     (let trimmed = trim s in
      if trimmed = [] then Num 0
      else let stripped = dropWhile (\<lambda>c. c = 48) trimmed;
               normalized = (if stripped = [] then js ''0'' else stripped);
               parsed = parseInt10 normalized
           in if parsed = NaN then Num 0 else clampPercentage parsed)"

definition parsePercentage :: "raw_value \<Rightarrow> number" where
  "parsePercentage raw =
     (case raw of
        RawNumber (Num r) \<Rightarrow> clampPercentage (math_round (Num r))
      | _ \<Rightarrow> parsePercentageString (raw_string raw))"

definition totalPercentage :: "vote_distribution \<Rightarrow> number" where
  "totalPercentage d = vd_for d + vd_against d + vd_abstain d"

fun adjust_loop ::
  "vote_option \<Rightarrow> vote_option list \<Rightarrow> vote_distribution \<Rightarrow> number \<Rightarrow> vote_distribution" where
  "adjust_loop opt [] d excess = d"
| "adjust_loop opt (cur # rest) d excess =
     (if cur = opt then adjust_loop opt rest d excess
      else if get_option d cur \<le> Num 0 then adjust_loop opt rest d excess
      else let reduction = math_min (get_option d cur) excess;
               d' = set_option d cur (get_option d cur - reduction);
               excess' = excess - reduction
           in if excess' \<le> Num 0 then d' else adjust_loop opt rest d' excess')"

definition adjustDistribution ::
  "vote_distribution \<Rightarrow> vote_option \<Rightarrow> number \<Rightarrow> vote_distribution" where
  "adjustDistribution previous opt nextValue =
     (let d = set_option previous opt nextValue;
          excess = totalPercentage d - Num 100
      in if excess \<le> Num 0 then d else adjust_loop opt VOTE_OPTIONS d excess)"

definition handleOptionChange ::
  "vote_distribution \<Rightarrow> vote_option \<Rightarrow> jsstr \<Rightarrow> vote_distribution" where
  "handleOptionChange prev opt raw = adjustDistribution prev opt (parsePercentage (RawString raw))"

definition handleQuickSelect :: "vote_option \<Rightarrow> vote_distribution" where
  "handleQuickSelect opt =
     \<lparr>vd_for = (if opt = OptFor then Num 100 else Num 0),
      vd_against = (if opt = OptAgainst then Num 100 else Num 0),
      vd_abstain = (if opt = OptAbstain then Num 100 else Num 0)\<rparr>"

definition resetDistribution :: "vote_distribution option \<Rightarrow> vote_distribution" where
  "resetDistribution next = (case next of Some d \<Rightarrow> d | None \<Rightarrow> DEFAULT_DISTRIBUTION)"

definition isValidDistribution :: "vote_distribution \<Rightarrow> bool" where
  "isValidDistribution d = seq (totalPercentage d) (Num 100)"

text \<open>The hook as a state machine: its callbacks, and the effect that adopts a new initial value.\<close>

datatype dist_event =
    OptionChange vote_option jsstr
  | QuickSelect vote_option
  | Reset "vote_distribution option"
  | InitialChanged vote_distribution

fun useVoteDistribution :: "vote_distribution \<Rightarrow> dist_event \<Rightarrow> vote_distribution" where
  "useVoteDistribution d (OptionChange opt raw) = handleOptionChange d opt raw"
| "useVoteDistribution d (QuickSelect opt) = handleQuickSelect opt"
| "useVoteDistribution d (Reset next) = resetDistribution next"
| "useVoteDistribution d (InitialChanged initial) = initial"

section \<open>Invariant\<close>

definition vsplit :: "int \<Rightarrow> int \<Rightarrow> int \<Rightarrow> vote_distribution" where
  "vsplit f a b = \<lparr>vd_for = inum f, vd_against = inum a, vd_abstain = inum b\<rparr>"

definition split_ok :: "vote_distribution \<Rightarrow> bool" where
  "split_ok d \<longleftrightarrow> (\<exists>f a b. d = vsplit f a b \<and> 0 \<le> f \<and> 0 \<le> a \<and> 0 \<le> b \<and> f + a + b \<le> 100)"

fun event_ok :: "dist_event \<Rightarrow> bool" where
  "event_ok (Reset (Some d)) \<longleftrightarrow> split_ok d"
| "event_ok (InitialChanged d) \<longleftrightarrow> split_ok d"
| "event_ok _ \<longleftrightarrow> True"

inductive reachable :: "vote_distribution \<Rightarrow> vote_distribution \<Rightarrow> bool" for init where
  reach_init: "reachable init init"
| reach_step: "reachable init d \<Longrightarrow> event_ok ev \<Longrightarrow> reachable init (useVoteDistribution d ev)"

lemma clamp_integral:
  assumes "integral x"
  shows "\<exists>n. clampPercentage x = inum n \<and> 0 \<le> n \<and> n \<le> 100"
proof -
  have "clampPercentage Infinity = inum 100" "clampPercentage NegInfinity = inum 0"
    by (simp_all add: clampPercentage_def math_min_def math_max_def inum_def)
  moreover have "clampPercentage (inum m) = inum (min 100 (max 0 m))" for m
    by (simp add: clampPercentage_def js_int)
  ultimately show ?thesis using assms unfolding integral_def by fastforce
qed

lemma parseInt10_integral: "parseInt10 t \<noteq> NaN \<Longrightarrow> integral (parseInt10 t)"
  unfolding parseInt10_def signed_def Let_def
  by (auto split: list.splits if_splits intro: integral_to_double integral_uminus)

lemma parsePercentageString_range:
  "\<exists>n. parsePercentageString s = inum n \<and> 0 \<le> n \<and> n \<le> 100"
  unfolding parsePercentageString_def Let_def
  by (auto simp: js_int intro: clamp_integral [OF parseInt10_integral])

text \<open>What one edit does to the split, on integers.\<close>

lemma total_vsplit: "\<lbrakk>0 \<le> f; 0 \<le> a; 0 \<le> b; f \<le> 100; a \<le> 100; b \<le> 100\<rbrakk> \<Longrightarrow>
    totalPercentage (vsplit f a b) = inum (f + a + b)"
  by (simp add: totalPercentage_def vsplit_def js_arith)

fun others :: "vote_option \<Rightarrow> vote_distribution \<Rightarrow> number list" where
  "others OptFor d = [vd_against d, vd_abstain d]"
| "others OptAgainst d = [vd_for d, vd_abstain d]"
| "others OptAbstain d = [vd_for d, vd_against d]"

lemma adjust_vsplit:
  assumes "0 \<le> f" "0 \<le> a" "0 \<le> b" "f + a + b \<le> 100" "0 \<le> v" "v \<le> 100"
  shows "\<exists>f' a' b'. adjustDistribution (vsplit f a b) opt (inum v) = vsplit f' a' b' \<and>
    0 \<le> f' \<and> 0 \<le> a' \<and> 0 \<le> b' \<and> f' + a' + b' = min 100 (case opt of
       OptFor \<Rightarrow> v + a + b | OptAgainst \<Rightarrow> f + v + b | OptAbstain \<Rightarrow> f + a + v) \<and>
    get_option (vsplit f' a' b') opt = inum v \<and>
    (opt \<noteq> OptFor \<longrightarrow> f' \<le> f) \<and> (opt \<noteq> OptAgainst \<longrightarrow> a' \<le> a) \<and> (opt \<noteq> OptAbstain \<longrightarrow> b' \<le> b)"
  using assms
  by (cases opt)
     (auto simp: adjustDistribution_def VOTE_OPTIONS_def totalPercentage_def vsplit_def Let_def
        js_int js_arith min_def split: if_splits)


lemma split_okE:
  assumes "split_ok d"
  obtains f a b where "d = vsplit f a b" "0 \<le> f" "0 \<le> a" "0 \<le> b" "f + a + b \<le> 100"
  using assms by (auto simp: split_ok_def)

lemma split_ok_vsplit: "0 \<le> f \<Longrightarrow> 0 \<le> a \<Longrightarrow> 0 \<le> b \<Longrightarrow> f + a + b \<le> 100 \<Longrightarrow> split_ok (vsplit f a b)"
  by (auto simp: split_ok_def)

lemma split_ok_change: "split_ok d \<Longrightarrow> split_ok (handleOptionChange d opt raw)"
proof (erule split_okE)
  fix f a b assume d: "d = vsplit f a b" "0 \<le> f" "0 \<le> a" "0 \<le> b" "f + a + b \<le> 100"
  obtain v where "parsePercentageString raw = inum v" "0 \<le> v" "v \<le> 100"
    using parsePercentageString_range by blast
  moreover from adjust_vsplit [OF d(2-5) this(2,3), of opt]
  obtain f' a' b' where "adjustDistribution (vsplit f a b) opt (inum v) = vsplit f' a' b'"
    "0 \<le> f'" "0 \<le> a'" "0 \<le> b'" "f' + a' + b' \<le> 100" by (metis min.cobounded1)
  ultimately show "split_ok (handleOptionChange d opt raw)"
    unfolding handleOptionChange_def parsePercentage_def split_ok_def d(1) by auto
qed

lemma split_ok_const: "split_ok DEFAULT_DISTRIBUTION" "split_ok (handleQuickSelect opt)"
proof -
  have e: "DEFAULT_DISTRIBUTION = vsplit 0 0 0" by (simp add: DEFAULT_DISTRIBUTION_def vsplit_def js_int)
  show "split_ok DEFAULT_DISTRIBUTION" unfolding e by (rule split_ok_vsplit) simp_all
  have "handleQuickSelect opt = (case opt of OptFor \<Rightarrow> vsplit 100 0 0 | OptAgainst \<Rightarrow> vsplit 0 100 0
     | OptAbstain \<Rightarrow> vsplit 0 0 100)"
    by (cases opt) (simp_all add: handleQuickSelect_def vsplit_def js_int)
  then show "split_ok (handleQuickSelect opt)" by (cases opt) (simp_all add: split_ok_vsplit)
qed

lemma reachable_split_ok:
  assumes "reachable init d" "split_ok init"
  shows "split_ok d"
  using assms
proof induction
  case (reach_step d ev)
  then show ?case
    by (cases ev rule: event_ok.cases) (auto intro: split_ok_change simp: split_ok_const resetDistribution_def)
qed

section \<open>Properties\<close>

text \<open>C37. Whatever the user types or clicks, in any order, every reachable split consists of whole
  percentages between 0 and 100 that together never exceed 100 (starting from, and being reset to,
  splits of that form), and a quick selection gives a valid split.\<close>

theorem vote_split_invariant:
  assumes "reachable init d" "split_ok init"
  shows "split_ok d \<and> totalPercentage d \<le> Num 100 \<and> isValidDistribution (handleQuickSelect opt)"
proof -
  have d: "split_ok d" by (rule reachable_split_ok [OF assms])
  then have "totalPercentage d \<le> Num 100"
    by (elim split_okE) (simp add: total_vsplit js_int)
  moreover have "isValidDistribution (handleQuickSelect opt)"
    by (cases opt) (simp_all add: isValidDistribution_def totalPercentage_def handleQuickSelect_def js_int js_arith)
  ultimately show ?thesis using d by blast
qed

theorem vote_split_invariant_witness:
  "split_ok (useVoteDistribution DEFAULT_DISTRIBUTION (OptionChange OptFor (js ''250'')))"
proof -
  have "reachable DEFAULT_DISTRIBUTION (useVoteDistribution DEFAULT_DISTRIBUTION (OptionChange OptFor (js ''250'')))"
    by (intro reach_step reach_init) simp
  from vote_split_invariant [OF this] show ?thesis by (simp add: split_ok_const)
qed

text \<open>An edit gives the edited option exactly the entered percentage, takes any excess from the
  other options (none of them grows, none goes below zero), and the new total is the requested
  total capped at 100.\<close>

theorem adjustDistribution_effect:
  assumes "0 \<le> f" "0 \<le> a" "0 \<le> b" "f + a + b \<le> 100" "0 \<le> v" "v \<le> 100"
  shows "let d = adjustDistribution (vsplit f a b) opt (inum v);
             wanted = (case opt of OptFor \<Rightarrow> v + a + b | OptAgainst \<Rightarrow> f + v + b | OptAbstain \<Rightarrow> f + a + v)
         in get_option d opt = inum v \<and> totalPercentage d = inum (min 100 wanted) \<and>
            (\<forall>o'. o' \<noteq> opt \<longrightarrow> inum 0 \<le> get_option d o' \<and> get_option d o' \<le> get_option (vsplit f a b) o')"
proof -
  obtain f' a' b' where r: "adjustDistribution (vsplit f a b) opt (inum v) = vsplit f' a' b'"
    "0 \<le> f'" "0 \<le> a'" "0 \<le> b'" and sum: "f' + a' + b' = min 100 (case opt of
       OptFor \<Rightarrow> v + a + b | OptAgainst \<Rightarrow> f + v + b | OptAbstain \<Rightarrow> f + a + v)"
    and o: "get_option (vsplit f' a' b') opt = inum v"
    "opt \<noteq> OptFor \<longrightarrow> f' \<le> f" "opt \<noteq> OptAgainst \<longrightarrow> a' \<le> a" "opt \<noteq> OptAbstain \<longrightarrow> b' \<le> b"
    using adjust_vsplit [OF assms, of opt] by blast
  have le: "f' + a' + b' \<le> 100" using sum by simp
  have "\<forall>o'. o' \<noteq> opt \<longrightarrow> inum 0 \<le> get_option (vsplit f' a' b') o' \<and>
      get_option (vsplit f' a' b') o' \<le> get_option (vsplit f a b) o'"
    using r(2-4) o(2-4) by (intro allI, case_tac o') (simp_all add: vsplit_def)
  then show ?thesis using r o(1) sum le by (simp add: Let_def total_vsplit)
qed

theorem adjustDistribution_effect_witness:
  "totalPercentage (adjustDistribution (vsplit 60 30 10) OptAgainst (inum 50)) = inum 100"
  using adjustDistribution_effect [of 60 30 10 50 OptAgainst] by (simp add: Let_def)

end
