(* ===== verification/Js_Io.thy ===== *)
theory Js_Io
  imports Js_String
begin

text \<open>
  Errors and effects.  An asynchronous function of the source is a value of type
  \<open>('ev, 'a) io\<close>: from the log of the external interactions so far it computes its outcome (a thrown
  error or a value) and the extended log.  The answer of an external service to a request may
  depend on everything that happened before, so an answer is a function of the log.
\<close>

section \<open>Errors\<close>

datatype ncn_resource = SnapshotMeta | VoterSummary | VoteAccountProof | StakeAccountProof

text \<open>\<open>LibError name message\<close> is any error raised by code outside the repository.\<close>

datatype js_error =
    JsError jsstr
  | JsTypeError jsstr
  | JsSyntaxError jsstr
  | AbortError jsstr
  | WalletSigningError jsstr
  | NcnApiHttpError (nh_message: jsstr) (nh_status: int) (nh_resource: "ncn_resource option")
      (nh_host: jsstr) (nh_bodySnippet: jsstr)
  | NcnApiNetworkError (nn_message: jsstr) (nn_url: jsstr) (nn_host: jsstr)
  | GithubApiError (gh_message: jsstr) (gh_status: int) (gh_retryable: bool)
  | LibError jsstr jsstr

fun err_name :: "js_error \<Rightarrow> jsstr" where
  "err_name (JsError m) = js ''Error''"
| "err_name (JsTypeError m) = js ''TypeError''"
| "err_name (JsSyntaxError m) = js ''SyntaxError''"
| "err_name (AbortError m) = js ''AbortError''"
| "err_name (WalletSigningError m) = js ''WalletSigningError''"
| "err_name (NcnApiHttpError m s r h b) = js ''NcnApiHttpError''"
| "err_name (NcnApiNetworkError m u h) = js ''NcnApiNetworkError''"
| "err_name (GithubApiError m s r) = js ''GithubApiError''"
| "err_name (LibError n m) = n"

fun err_message :: "js_error \<Rightarrow> jsstr" where
  "err_message (JsError m) = m"
| "err_message (JsTypeError m) = m"
| "err_message (JsSyntaxError m) = m"
| "err_message (AbortError m) = m"
| "err_message (WalletSigningError m) = m"
| "err_message (NcnApiHttpError m s r h b) = m"
| "err_message (NcnApiNetworkError m u h) = m"
| "err_message (GithubApiError m s r) = m"
| "err_message (LibError n m) = m"

text \<open>\<open>String(e)\<close> of an error.\<close>

definition err_string :: "js_error \<Rightarrow> jsstr" where
  "err_string e = (if err_message e = [] then err_name e else err_name e @ js '': '' @ err_message e)"

section \<open>Actions\<close>

type_synonym ('ev, 'a) io = "'ev list \<Rightarrow> (js_error + 'a) \<times> 'ev list"

definition io_return :: "'a \<Rightarrow> ('ev, 'a) io" where
  "io_return x = (\<lambda>l. (Inr x, l))"

definition io_throw :: "js_error \<Rightarrow> ('ev, 'a) io" where
  "io_throw e = (\<lambda>l. (Inl e, l))"

definition io_bind :: "('ev, 'a) io \<Rightarrow> ('a \<Rightarrow> ('ev, 'b) io) \<Rightarrow> ('ev, 'b) io" where
  "io_bind m f = (\<lambda>l. case m l of (Inl e, l') \<Rightarrow> (Inl e, l') | (Inr x, l') \<Rightarrow> f x l')"

text \<open>A pure computation that may throw; one interaction with the outside; \<open>try ... catch\<close>.\<close>

definition io_lift :: "js_error + 'a \<Rightarrow> ('ev, 'a) io" where
  "io_lift r = (\<lambda>l. (r, l))"

definition io_call :: "'ev \<Rightarrow> ('ev list \<Rightarrow> js_error + 'a) \<Rightarrow> ('ev, 'a) io" where
  "io_call ev answer = (\<lambda>l. (answer l, l @ [ev]))"

definition io_try :: "('ev, 'a) io \<Rightarrow> (js_error \<Rightarrow> ('ev, 'a) io) \<Rightarrow> ('ev, 'a) io" where
  "io_try m h = (\<lambda>l. case m l of (Inl e, l') \<Rightarrow> h e l' | (Inr x, l') \<Rightarrow> (Inr x, l'))"

definition io_guard :: "bool \<Rightarrow> js_error \<Rightarrow> ('ev, unit) io" where
  "io_guard b e = (if b then io_return () else io_throw e)"

lemmas io_defs = io_return_def io_throw_def io_bind_def io_lift_def io_call_def io_try_def

lemma io_bind_assoc: "io_bind (io_bind m f) g = io_bind m (\<lambda>x. io_bind (f x) g)"
  by (auto simp: io_bind_def fun_eq_iff split: prod.splits sum.splits)

lemma io_bind_return [simp]: "io_bind (io_return x) f = f x" "io_bind (io_throw e) f = io_throw e"
  by (auto simp: io_defs)

lemma io_try_return [simp]: "io_try (io_return x) h = io_return x" "io_try (io_throw e) h = h e"
  by (auto simp: io_defs)

lemma io_lift_simps [simp]: "io_lift (Inr x) = io_return x" "io_lift (Inl e) = io_throw e"
  by (auto simp: io_defs)

lemma io_guard_simps [simp]: "io_guard True e = io_return ()" "io_guard False e = io_throw e"
  by (auto simp: io_guard_def)

text \<open>Reading a successful run backwards: every step succeeded.\<close>

lemma io_bind_Inr_iff:
  "io_bind m f l = (Inr y, l') \<longleftrightarrow> (\<exists>x k. m l = (Inr x, k) \<and> f x k = (Inr y, l'))"
  by (auto simp: io_bind_def split: prod.splits sum.splits)

lemma io_run_iff:
  "io_return x l = (Inr y, l') \<longleftrightarrow> y = x \<and> l' = l"
  "io_throw e l = (Inr y, l') \<longleftrightarrow> False"
  "io_lift r l = (Inr y, l') \<longleftrightarrow> r = Inr y \<and> l' = l"
  "io_call ev a l = (Inr y, l') \<longleftrightarrow> a l = Inr y \<and> l' = l @ [ev]"
  by (auto simp: io_defs)

lemma io_bind_call_run:
  "io_bind (io_call ev a) f l = (case a l of Inl e \<Rightarrow> (Inl e, l @ [ev]) | Inr x \<Rightarrow> f x (l @ [ev]))"
  by (auto simp: io_defs split: sum.splits)

lemmas io_success = io_bind_Inr_iff io_run_iff

section \<open>What an action does\<close>

text \<open>\<open>emits m P\<close>: from every log, \<open>m\<close> only appends to it, and the outcome and the appended events
  satisfy \<open>P\<close>.  The rules push \<open>P\<close> through the constructs, one step of the source at a time.\<close>

definition emits :: "('ev, 'a) io \<Rightarrow> (js_error + 'a \<Rightarrow> 'ev list \<Rightarrow> bool) \<Rightarrow> bool" where
  "emits m P \<longleftrightarrow> (\<forall>l. \<exists>evs. snd (m l) = l @ evs \<and> P (fst (m l)) evs)"

lemma emits_return [emits_rules]: "P (Inr x) [] \<Longrightarrow> emits (io_return x) P"
  by (simp add: emits_def io_defs)

lemma emits_throw [emits_rules]: "P (Inl e) [] \<Longrightarrow> emits (io_throw e) P"
  by (simp add: emits_def io_defs)

lemma emits_lift [emits_rules]: "P r [] \<Longrightarrow> emits (io_lift r) P"
  by (simp add: emits_def io_defs)

lemma emits_call [emits_rules]: "(\<And>r. P r [ev]) \<Longrightarrow> emits (io_call ev a) P"
  by (simp add: emits_def io_defs)

lemma emits_guard [emits_rules]:
  "(b \<Longrightarrow> P (Inr ()) []) \<Longrightarrow> (\<not> b \<Longrightarrow> P (Inl e) []) \<Longrightarrow> emits (io_guard b e) P"
  by (simp add: io_guard_def emits_rules)

lemma emits_mono: "emits m P \<Longrightarrow> (\<And>r evs. P r evs \<Longrightarrow> Q r evs) \<Longrightarrow> emits m Q"
  by (force simp: emits_def)

lemma emits_bind:
  assumes "emits m R" "\<And>e evs. R (Inl e) evs \<Longrightarrow> P (Inl e) evs"
    "\<And>x evs. R (Inr x) evs \<Longrightarrow> emits (f x) (\<lambda>r evs'. P r (evs @ evs'))"
  shows "emits (io_bind m f) P"
  unfolding emits_def
proof
  fix l
  obtain evs where m: "snd (m l) = l @ evs" "R (fst (m l)) evs" using assms(1) by (auto simp: emits_def)
  show "\<exists>evs. snd (io_bind m f l) = l @ evs \<and> P (fst (io_bind m f l)) evs"
  proof (cases "fst (m l)")
    case (Inl e)
    then show ?thesis using m assms(2) [of e evs] by (cases "m l") (auto simp: io_bind_def)
  next
    case (Inr x)
    then have "emits (f x) (\<lambda>r evs'. P r (evs @ evs'))" using m assms(3) by simp
    then obtain evs' where
      "snd (f x (l @ evs)) = (l @ evs) @ evs'" "P (fst (f x (l @ evs))) (evs @ evs')"
      unfolding emits_def by blast
    then show ?thesis using m Inr by (cases "m l") (auto simp: io_bind_def)
  qed
qed

lemma emits_try:
  assumes "emits m R" "\<And>x evs. R (Inr x) evs \<Longrightarrow> P (Inr x) evs"
    "\<And>e evs. R (Inl e) evs \<Longrightarrow> emits (h e) (\<lambda>r evs'. P r (evs @ evs'))"
  shows "emits (io_try m h) P"
  unfolding emits_def
proof
  fix l
  obtain evs where m: "snd (m l) = l @ evs" "R (fst (m l)) evs" using assms(1) by (auto simp: emits_def)
  show "\<exists>evs. snd (io_try m h l) = l @ evs \<and> P (fst (io_try m h l)) evs"
  proof (cases "fst (m l)")
    case (Inr x)
    then show ?thesis using m assms(2) [of x evs] by (cases "m l") (auto simp: io_try_def)
  next
    case (Inl e)
    then have "emits (h e) (\<lambda>r evs'. P r (evs @ evs'))" using m assms(3) by simp
    then obtain evs' where
      "snd (h e (l @ evs)) = (l @ evs) @ evs'" "P (fst (h e (l @ evs))) (evs @ evs')"
      unfolding emits_def by blast
    then show ?thesis using m Inl by (cases "m l") (auto simp: io_try_def)
  qed
qed

lemma emitsD: "emits m P \<Longrightarrow> m l = (r, l') \<Longrightarrow> \<exists>evs. l' = l @ evs \<and> P r evs"
  unfolding emits_def by (metis fst_conv snd_conv)

text \<open>Weakest-precondition forms of the steps that occur in every transaction builder.\<close>

lemma emits_bind_lift [emits_rules]:
  "(\<And>e. r = Inl e \<Longrightarrow> P (Inl e) []) \<Longrightarrow> (\<And>x. r = Inr x \<Longrightarrow> emits (f x) P) \<Longrightarrow>
   emits (io_bind (io_lift r) f) P"
  by (cases r) (auto intro: emits_rules)

lemma emits_bind_call [emits_rules]:
  "(\<And>e. P (Inl e) [ev]) \<Longrightarrow> (\<And>x. emits (f x) (\<lambda>r evs. P r (ev # evs))) \<Longrightarrow>
   emits (io_bind (io_call ev a) f) P"
  by (rule emits_bind [where R = "\<lambda>r evs. evs = [ev]"]) (auto intro: emits_rules)

lemma emits_bind_guard [emits_rules]:
  "(\<not> b \<Longrightarrow> P (Inl e) []) \<Longrightarrow> (b \<Longrightarrow> emits (f ()) P) \<Longrightarrow> emits (io_bind (io_guard b e) f) P"
  by (cases b) (auto intro: emits_rules)

section \<open>Safety of every emitted event\<close>

text \<open>
  A client of the outside world is safe when every event it can emit is acceptable.  The locale
  fixes which events only read and which are acceptable, requires that reads are, and carries
  safety through the constructs; the components interpret it with their own notion (correctly
  signed submissions, proof requests at the right slot).
\<close>

locale event_safety =
  fixes reads :: "'ev \<Rightarrow> bool" and ok :: "'ev \<Rightarrow> bool"
  assumes reads_ok: "reads ev \<Longrightarrow> ok ev"
begin

definition safe :: "('ev, 'a) io \<Rightarrow> bool" where
  "safe m \<longleftrightarrow> emits m (\<lambda>r evs. list_all ok evs)"

lemma safe_return: "safe (io_return x)"
  by (simp add: safe_def emits_rules)

lemma safe_throw: "safe (io_throw e)"
  by (simp add: safe_def emits_rules)

lemma safe_lift: "safe (io_lift r)"
  by (simp add: safe_def emits_rules)

lemma safe_guard: "safe (io_guard b e)"
  by (simp add: safe_def emits_rules)

lemma safe_call: "ok ev \<Longrightarrow> safe (io_call ev a)"
  by (simp add: safe_def emits_rules)

lemma safe_read: "reads ev \<Longrightarrow> safe (io_call ev a)"
  by (rule safe_call) (rule reads_ok)

lemma safe_bind: "safe m \<Longrightarrow> (\<And>x. safe (f x)) \<Longrightarrow> safe (io_bind m f)"
  unfolding safe_def
  by (rule emits_bind [where R = "\<lambda>r evs. list_all ok evs"]) (auto elim: emits_mono)

lemma safe_try: "safe m \<Longrightarrow> (\<And>e. safe (h e)) \<Longrightarrow> safe (io_try m h)"
  unfolding safe_def
  by (rule emits_try [where R = "\<lambda>r evs. list_all ok evs"]) (auto elim: emits_mono)

lemma safe_if: "(b \<Longrightarrow> safe m) \<Longrightarrow> (\<not> b \<Longrightarrow> safe n) \<Longrightarrow> safe (if b then m else n)"
  by simp

lemma safe_option: "(x = None \<Longrightarrow> safe m) \<Longrightarrow> (\<And>y. x = Some y \<Longrightarrow> safe (f y)) \<Longrightarrow>
    safe (case x of None \<Rightarrow> m | Some y \<Rightarrow> f y)"
  by (cases x) auto

lemma safe_split: "(\<And>a b. x = (a, b) \<Longrightarrow> safe (f a b)) \<Longrightarrow> safe (case x of (a, b) \<Rightarrow> f a b)"
  by (cases x) auto

lemma safe_emits: "emits m (\<lambda>r evs. list_all Q evs) \<Longrightarrow> (\<And>e. Q e \<Longrightarrow> ok e) \<Longrightarrow> safe m"
  unfolding safe_def by (erule emits_mono) (auto simp: list_all_iff)

lemma safe_runD: "safe m \<Longrightarrow> \<exists>evs. snd (m l) = l @ evs \<and> list_all ok evs"
  unfolding safe_def emits_def by blast

text \<open>A pure result decides what follows: its value is available to the continuation.\<close>

lemma safe_bind_lift: "(\<And>x. r = Inr x \<Longrightarrow> safe (f x)) \<Longrightarrow> safe (io_bind (io_lift r) f)"
  by (cases r) (auto intro: safe_throw)

lemma safe_bind_guard: "(b \<Longrightarrow> safe (f ())) \<Longrightarrow> safe (io_bind (io_guard b e) f)"
  by (cases b) (auto intro: safe_throw)

lemmas safe_rules = safe_return safe_throw safe_lift safe_guard safe_bind_lift safe_bind_guard
  safe_if safe_option safe_split

lemma safeD: "safe m \<Longrightarrow> m l = (r, l') \<Longrightarrow> \<exists>evs. l' = l @ evs \<and> list_all ok evs"
  unfolding safe_def by (rule emitsD)

end

end
