(* ===== verification/Networks.thy ===== *)
theory Networks
  imports Js_Io
begin

text \<open>
  Clusters and RPC endpoints: \<open>frontend/src/lib/getRpcUrls.ts\<close> (the effective RPC URL of an
  endpoint) and \<open>frontend/src/lib/snapshotNetwork.ts\<close> (the known cluster behind an endpoint).  The
  URL parser and the genesis-hash request are parameters.
\<close>

section \<open>RPC URLs\<close>

datatype rpc_endpoint = Mainnet | Testnet | Devnet | CustomEndpoint

record rpc_env =
  NEXT_PUBLIC_SOLANA_RPC_MAINNET :: "jsstr option"
  NEXT_PUBLIC_SOLANA_RPC_TESTNET :: "jsstr option"
  NEXT_PUBLIC_SOLANA_RPC_DEVNET :: "jsstr option"

record rpc_urls =
  url_mainnet :: jsstr
  url_testnet :: jsstr
  url_devnet :: jsstr

definition DEFAULT_RPC_URLS :: rpc_urls where
  "DEFAULT_RPC_URLS =
     \<lparr>url_mainnet = js ''https://api.mainnet-beta.solana.com'',
      url_testnet = js ''https://api.testnet.solana.com'',
      url_devnet = js ''https://api.devnet.solana.com''\<rparr>"

definition or_default :: "'a option \<Rightarrow> 'a \<Rightarrow> 'a" where
  "or_default x d = (case x of None \<Rightarrow> d | Some y \<Rightarrow> y)"

definition getRpcUrls :: "rpc_env \<Rightarrow> rpc_urls" where
  "getRpcUrls e =
     \<lparr>url_mainnet = or_default (NEXT_PUBLIC_SOLANA_RPC_MAINNET e) (url_mainnet DEFAULT_RPC_URLS),
      url_testnet = or_default (NEXT_PUBLIC_SOLANA_RPC_TESTNET e) (url_testnet DEFAULT_RPC_URLS),
      url_devnet = or_default (NEXT_PUBLIC_SOLANA_RPC_DEVNET e) (url_devnet DEFAULT_RPC_URLS)\<rparr>"

text \<open>\<open>valid_url\<close> says whether \<open>new URL\<close> accepts the text; \<open>process_env\<close> is the environment read
  when the caller passes none.\<close>

definition getRpcUrlForEndpoint ::
  "(jsstr \<Rightarrow> bool) \<Rightarrow> rpc_env \<Rightarrow> rpc_endpoint \<Rightarrow> jsstr option \<Rightarrow> rpc_env option \<Rightarrow> js_error + jsstr" where
  "getRpcUrlForEndpoint valid_url process_env endpoint customRpcUrl envSource =
     (let urls = getRpcUrls (or_default envSource process_env) in
      case endpoint of
        CustomEndpoint \<Rightarrow>
          (case customRpcUrl of
             None \<Rightarrow> Inl (JsError (js ''rpcUrl is required when endpoint is custom''))
           | Some u \<Rightarrow>
               if u = [] then Inl (JsError (js ''rpcUrl is required when endpoint is custom''))
               else if \<not> valid_url u then Inl (JsError (js ''Invalid rpcUrl for custom endpoint''))
               else Inr u)
      | Mainnet \<Rightarrow> Inr (url_mainnet urls)
      | Testnet \<Rightarrow> Inr (url_testnet urls)
      | Devnet \<Rightarrow> Inr (url_devnet urls))"

section \<open>Snapshot networks\<close>

datatype known_network = KMainnet | KDevnet | KTestnet

fun network_name :: "known_network \<Rightarrow> jsstr" where
  "network_name KMainnet = js ''mainnet''"
| "network_name KDevnet = js ''devnet''"
| "network_name KTestnet = js ''testnet''"

definition SNAPSHOT_UNAVAILABLE_MESSAGE :: jsstr where
  "SNAPSHOT_UNAVAILABLE_MESSAGE = js ''Snapshot service unavailable in this network''"

text \<open>The table of genesis hashes, in the order of its keys.\<close>

definition CLUSTER_GENESIS_HASHES :: "(known_network \<times> jsstr) list" where
  "CLUSTER_GENESIS_HASHES =
     [(KMainnet, js ''5eykt4UsFv8P8NJdTREpY1vzqKqZKvdpKuc147dw2N9d''),
      (KDevnet, js ''EtWTRABZaYq6iMfeYKouRu166VU2xqa1wcaWoxPkrZBG''),
      (KTestnet, js ''4uhcVJyU9pJkvQyS88uRDiswHXSCkY3zQawwpjk2NsNY'')]"

text \<open>The \<open>in\<close> operator on the table sees its own three keys and those every object inherits.\<close>

definition object_prototype_keys :: "jsstr list" where
  "object_prototype_keys = map js [''constructor'', ''__defineGetter__'', ''__defineSetter__'',
     ''hasOwnProperty'', ''__lookupGetter__'', ''__lookupSetter__'', ''isPrototypeOf'',
     ''propertyIsEnumerable'', ''toString'', ''valueOf'', ''__proto__'', ''toLocaleString'']"

definition isKnownSnapshotNetwork :: "jsstr option \<Rightarrow> bool" where
  "isKnownSnapshotNetwork network =
     (case network of None \<Rightarrow> False
      | Some n \<Rightarrow> n \<in> set (map (network_name \<circ> fst) CLUSTER_GENESIS_HASHES @ object_prototype_keys))"

definition networkFromGenesisHash :: "jsstr \<Rightarrow> known_network option" where
  "networkFromGenesisHash h = map_option fst (List.find (\<lambda>(n, g). g = h) CLUSTER_GENESIS_HASHES)"

text \<open>\<open>genesis_request\<close> is \<open>fetchGenesisHash\<close>: a connection to the endpoint and one RPC call.\<close>

definition resolveSnapshotNetwork ::
  "(jsstr \<Rightarrow> ('ev, jsstr) io) \<Rightarrow> rpc_endpoint \<Rightarrow> jsstr \<Rightarrow> ('ev, known_network option) io" where
  "resolveSnapshotNetwork genesis_request endpointType endpointUrl =
     (case endpointType of
        Mainnet \<Rightarrow> io_return (Some KMainnet)
      | Testnet \<Rightarrow> io_return (Some KTestnet)
      | Devnet \<Rightarrow> io_return (Some KDevnet)
      | CustomEndpoint \<Rightarrow>
          io_bind (genesis_request endpointUrl) (\<lambda>h. io_return (networkFromGenesisHash h)))"

definition requireKnownSnapshotNetwork :: "jsstr option \<Rightarrow> js_error + jsstr" where
  "requireKnownSnapshotNetwork network =
     (if isKnownSnapshotNetwork network then Inr (the network)
      else Inl (JsError SNAPSHOT_UNAVAILABLE_MESSAGE))"

section \<open>Properties\<close>

lemma genesis_distinct: "distinct (map snd CLUSTER_GENESIS_HASHES)"
  by (simp add: CLUSTER_GENESIS_HASHES_def)

lemma networkFromGenesisHash_iff:
  "networkFromGenesisHash h = Some n \<longleftrightarrow> (n, h) \<in> set CLUSTER_GENESIS_HASHES"
  by (auto simp: networkFromGenesisHash_def CLUSTER_GENESIS_HASHES_def split: if_splits)

text \<open>A custom RPC is treated as a known cluster exactly when the hash it reports is in the
  table (each hash names one cluster), a preset endpoint is resolved without any request, and the
  effective RPC URL of a preset is its environment override when there is one.\<close>

theorem endpoint_resolution:
  "(\<forall>l. fst (resolveSnapshotNetwork (\<lambda>u. io_call (ask u) (answer u)) CustomEndpoint url l) =
      (case answer url l of Inl e \<Rightarrow> Inl e | Inr h \<Rightarrow> Inr (networkFromGenesisHash h))) \<and>
   (networkFromGenesisHash h = Some n \<longleftrightarrow> (n, h) \<in> set CLUSTER_GENESIS_HASHES) \<and>
   resolveSnapshotNetwork g Mainnet url = io_return (Some KMainnet) \<and>
   getRpcUrlForEndpoint valid penv Mainnet custom (Some e) =
     Inr (case NEXT_PUBLIC_SOLANA_RPC_MAINNET e of Some u \<Rightarrow> u | None \<Rightarrow> url_mainnet DEFAULT_RPC_URLS) \<and>
   (getRpcUrlForEndpoint valid penv CustomEndpoint custom (Some e) = Inr u \<longleftrightarrow>
      custom = Some u \<and> u \<noteq> [] \<and> valid u)"
  by (auto simp: resolveSnapshotNetwork_def networkFromGenesisHash_iff getRpcUrlForEndpoint_def
      getRpcUrls_def or_default_def io_defs Let_def split: sum.splits option.splits if_splits)

end
