(* ===== verification/Chain_Env.thy ===== *)
theory Chain_Env
  imports Chain_Types Networks
begin

text \<open>
  The world around the transaction builders: the parameter and response types of
  \<open>frontend/src/chain/instructions/types.ts\<close>, transactions and instructions, the events by which
  the code talks to the RPC node, the verifier API and the wallet, and the environment record.

  The environment holds the functions of \<open>@solana/web3.js\<close>, \<open>@coral-xyz/anchor\<close>, \<open>bn.js\<close>, the wallet
  adapter, the URL parser and the network.  They are parameters: nothing is assumed of them beyond
  what a theorem states as a hypothesis.  An answer of a service is a function of the log.
\<close>

section \<open>Instructions and transactions\<close>

text \<open>A \<open>BN\<close> is an integer, a byte array a list of numbers below 256.\<close>

record stake_leaf =
  sl_activeStake :: int
  sl_stakeAccount :: pubkey
  sl_votingWallet :: pubkey

record meta_leaf =
  ml_votingWallet :: pubkey
  ml_voteAccount :: pubkey
  ml_stakeMerkleRoot :: "nat list"
  ml_activeStake :: int

datatype ix_call =
    CreateProposalIx int jsstr jsstr
  | SupportProposalIx
  | CastVoteIx int int int
  | ModifyVoteIx int int int
  | CastVoteOverrideIx int int int "nat list list" stake_leaf
  | ModifyVoteOverrideIx int int int "nat list list" stake_leaf
  | FinalizeProposalIx
  | InitMetaMerkleProofIx meta_leaf "nat list list" int

datatype instruction =
    ComputeUnitLimitIx number
  | ProgramIx (ix_program: pubkey) (ix_call: ix_call) (ix_accounts: "(string \<times> pubkey) list")

record transaction =
  tx_instructions :: "instruction list"
  tx_feePayer :: pubkey
  tx_recentBlockhash :: jsstr
  tx_signatures :: "(pubkey \<times> nat list option) list"

section \<open>Answers of the services\<close>

datatype str_or_num = SStr jsstr | SNum number

record meta_merkle_leaf =
  mml_active_stake :: str_or_num
  mml_stake_merkle_root :: jsstr
  mml_vote_account :: jsstr
  mml_voting_wallet :: jsstr

record vote_account_proof =
  meta_merkle_leaf :: meta_merkle_leaf
  meta_merkle_proof :: "jsstr list"
  vap_network :: jsstr
  vap_snapshot_slot :: number

record stake_merkle_leaf_raw =
  smr_active_stake :: str_or_num
  smr_stake_account :: jsstr
  smr_voting_wallet :: jsstr

text \<open>\<open>vote_account\<close> is typed as a string but comes from an unvalidated answer: it may be absent.\<close>

record stake_account_proof =
  stake_merkle_leaf :: stake_merkle_leaf_raw
  stake_merkle_proof :: "jsstr list"
  sap_network :: jsstr
  sap_snapshot_slot :: number
  sap_vote_account :: "jsstr option"

text \<open>The proposal account as Anchor decodes it; 64-bit fields are \<open>BN\<close>s.\<close>

record proposal_account =
  pr_author :: pubkey
  pr_title :: jsstr
  pr_description :: jsstr
  pr_creationEpoch :: int
  pr_startEpoch :: int
  pr_endEpoch :: int
  pr_proposerStakeWeightBp :: int
  pr_clusterSupportLamports :: int
  pr_forVotesLamports :: int
  pr_againstVotesLamports :: int
  pr_abstainVotesLamports :: int
  pr_voting :: bool
  pr_finalized :: bool
  pr_proposalBump :: number
  pr_creationTimestamp :: int
  pr_voteCount :: number
  pr_index :: number
  pr_consensusResult :: "pubkey option"
  pr_snapshotSlot :: int
  pr_numSupporters :: number

record vote_account_info =
  va_nodePubkey :: jsstr
  va_votePubkey :: jsstr
  va_activatedStake :: number
  va_commission :: number
  va_lastVote :: number

record epoch_info =
  ei_absoluteSlot :: number
  ei_slotIndex :: number
  ei_epoch :: number
  ei_slotsInEpoch :: number

text \<open>One HTTP exchange: what \<open>fetch\<close> gave, and whether the timer or the caller's signal had fired
  when the outcome was inspected.\<close>

record http_response =
  hr_status :: int
  hr_url :: jsstr
  hr_statusText :: jsstr
  hr_text :: "js_error + jsstr"

record http_attempt =
  ha_result :: "js_error + http_response"
  ha_timedOut :: bool
  ha_aborted :: bool

section \<open>Events\<close>

datatype event =
    FetchProposal jsstr pubkey
  | GetVoteAccounts jsstr
  | GetAccountInfo jsstr pubkey
  | GetEpochInfo jsstr
  | GetEpochSchedule jsstr
  | GetBlockTime jsstr number
  | GetLatestBlockhash jsstr
  | HttpGet jsstr
  | Backoff number
  | SignRequest transaction
  | SendRaw jsstr transaction
  | Confirm jsstr jsstr jsstr
  | AnchorRpc jsstr instruction

text \<open>The events that cannot move funds or change the chain.\<close>

fun is_read :: "event \<Rightarrow> bool" where
  "is_read (SignRequest t) = False"
| "is_read (SendRaw e t) = False"
| "is_read (AnchorRpc e i) = False"
| "is_read _ = True"

type_synonym log = "event list"

section \<open>The environment\<close>

record wallet =
  w_publicKey :: "pubkey option"
  w_signTransaction :: "log \<Rightarrow> transaction \<Rightarrow> js_error + transaction"

record chain_env =
  new_PublicKey :: "jsstr \<Rightarrow> js_error + pubkey"
  toBase58 :: "pubkey \<Rightarrow> jsstr"
  findProgramAddressSync :: "nat list list \<Rightarrow> pubkey \<Rightarrow> js_error + pubkey"
  bn_of_number :: "number \<Rightarrow> js_error + int"
  bn_of_string :: "jsstr \<Rightarrow> js_error + int"
  bn_le8 :: "int \<Rightarrow> js_error + nat list"
  bn_toNumber :: "int \<Rightarrow> js_error + number"
  new_Connection :: "jsstr \<Rightarrow> js_error + unit"
  build_instruction :: "instruction \<Rightarrow> js_error + unit"
  verifySignatures :: "transaction \<Rightarrow> bool"
  serialize :: "transaction \<Rightarrow> js_error + nat list"
  url_host :: "jsstr \<Rightarrow> jsstr option"
  decode_vote_proof :: "jsstr \<Rightarrow> js_error + vote_account_proof"
  decode_stake_proof :: "jsstr \<Rightarrow> js_error + stake_account_proof"
  svmgov_program_id :: pubkey
  snapshot_program_id :: pubkey
  system_program_id :: pubkey
  rpc_env_vars :: rpc_env
  ans_proposal :: "log \<Rightarrow> jsstr \<Rightarrow> pubkey \<Rightarrow> js_error + proposal_account"
  ans_vote_accounts :: "log \<Rightarrow> jsstr \<Rightarrow> js_error + vote_account_info list"
  ans_account_exists :: "log \<Rightarrow> jsstr \<Rightarrow> pubkey \<Rightarrow> js_error + bool"
  ans_epoch_info :: "log \<Rightarrow> jsstr \<Rightarrow> js_error + epoch_info"
  ans_first_slot :: "log \<Rightarrow> jsstr \<Rightarrow> js_error + (number \<Rightarrow> number)"
  ans_block_time :: "log \<Rightarrow> jsstr \<Rightarrow> number \<Rightarrow> js_error + number option"
  ans_blockhash :: "log \<Rightarrow> jsstr \<Rightarrow> js_error + jsstr"
  ans_http :: "log \<Rightarrow> jsstr \<Rightarrow> http_attempt"
  ans_wait_aborted :: "log \<Rightarrow> number \<Rightarrow> bool"
  ans_send :: "log \<Rightarrow> jsstr \<Rightarrow> transaction \<Rightarrow> js_error + jsstr"
  ans_confirm :: "log \<Rightarrow> jsstr \<Rightarrow> jsstr \<Rightarrow> js_error + jsstr option"
  ans_anchor_rpc :: "log \<Rightarrow> jsstr \<Rightarrow> instruction \<Rightarrow> js_error + jsstr"
  math_random :: "log \<Rightarrow> number"

section \<open>Parameters of the builders\<close>

record blockchain_params =
  bp_network :: jsstr
  bp_endpoint :: jsstr
  bp_ncnApiUrl :: "jsstr option"

record transaction_result =
  res_signature :: jsstr
  res_success :: bool
  res_error :: "jsstr option"

record create_proposal_params =
  cp_title :: jsstr
  cp_description :: jsstr
  cp_seed :: "number option"
  cp_wallet :: "wallet option"

record vote_params =
  vp_proposalId :: jsstr
  vp_forVotesBp :: number
  vp_againstVotesBp :: number
  vp_abstainVotesBp :: number
  vp_wallet :: "wallet option"
  vp_consensusResult :: "pubkey option"

record vote_override_params =
  op_proposalId :: jsstr
  op_forVotesBp :: number
  op_againstVotesBp :: number
  op_abstainVotesBp :: number
  op_stakeAccount :: jsstr
  op_wallet :: "wallet option"
  op_consensusResult :: "pubkey option"

record support_params =
  su_proposalId :: jsstr
  su_wallet :: "wallet option"

record support_config =
  sc_discussionEpochs :: number
  sc_snapshotEpochExtension :: number
  sc_snapshotSlotOffset :: number

record chain_vote_account =
  cv_activeStake :: number
  cv_voteAccount :: jsstr
  cv_nodePubkey :: jsstr

end
