(* ===== verification/Ncn_Api.thy ===== *)
theory Ncn_Api
  imports Chain_Env
begin

text \<open>
  The verifier API client of \<open>frontend/src/lib/ncnApi.ts\<close>: one bounded request, the classification
  of its failure, the retry loop with backoff, and the rewriting that keeps 64-bit integers exact
  through \<open>JSON.parse\<close>.
\<close>

section \<open>Constants and errors\<close>

definition DEFAULT_NCN_API_URL :: jsstr where
  "DEFAULT_NCN_API_URL = js ''https://ncn-governance.solana.com''"

definition DEFAULT_TIMEOUT_MS :: number where
  "DEFAULT_TIMEOUT_MS = Num 10000"

definition DEFAULT_MAX_RETRIES :: nat where
  "DEFAULT_MAX_RETRIES = 3"

definition MAX_RETRY_DELAY_MS :: number where
  "MAX_RETRY_DELAY_MS = Num 8000"

definition RETRY_JITTER_MS :: number where
  "RETRY_JITTER_MS = Num 250"

definition MAX_BODY_SNIPPET_CHARS :: nat where
  "MAX_BODY_SNIPPET_CHARS = 200"

definition hostOf :: "chain_env \<Rightarrow> jsstr \<Rightarrow> jsstr" where
  "hostOf env url = (case url_host env url of Some h \<Rightarrow> h | None \<Rightarrow> url)"

definition new_NcnApiHttpError ::
  "chain_env \<Rightarrow> jsstr \<Rightarrow> int \<Rightarrow> jsstr \<Rightarrow> jsstr \<Rightarrow> jsstr \<Rightarrow> ncn_resource option \<Rightarrow> js_error" where
  "new_NcnApiHttpError env label status url statusText bodySnippet resource =
     (let host = hostOf env url;
          shown = (if statusText \<noteq> [] then dec_int status @ js '' '' @ statusText else dec_int status)
      in NcnApiHttpError (js ''Failed to get '' @ label @ js '' from '' @ host @ js '': '' @ shown)
           status resource host bodySnippet)"

definition new_NcnApiNetworkError :: "chain_env \<Rightarrow> jsstr \<Rightarrow> jsstr \<Rightarrow> js_error" where
  "new_NcnApiNetworkError env message url = NcnApiNetworkError message url (hostOf env url)"

fun isNcnProofNotFound :: "js_error \<Rightarrow> bool" where
  "isNcnProofNotFound (NcnApiHttpError m status resource h b) =
     (status = 404 \<and> (resource = Some VoteAccountProof \<or> resource = Some StakeAccountProof))"
| "isNcnProofNotFound _ = False"

text \<open>The messages by which the engines report a failed \<open>fetch\<close>.\<close>

definition network_failure_phrases :: "jsstr list" where
  "network_failure_phrases = [js ''load failed'', js ''failed to fetch'', js ''fetch failed'',
     js ''networkerror'', js ''network request failed'']"

fun isNetworkFailure :: "js_error \<Rightarrow> bool" where
  "isNetworkFailure (NcnApiNetworkError m u h) = True"
| "isNetworkFailure (JsTypeError m) = list_ex (ci_includes m) network_failure_phrases"
| "isNetworkFailure _ = False"

definition UPSTREAM_STATUSES :: "int list" where
  "UPSTREAM_STATUSES = [403, 408, 429]"

datatype ncn_failure_kind = NetworkFailure | UpstreamFailure | RequestFailure

definition classifyNcnFailure :: "js_error \<Rightarrow> ncn_failure_kind option" where
  "classifyNcnFailure e =
     (if isNetworkFailure e then Some NetworkFailure
      else case e of
        NcnApiHttpError m status r h b \<Rightarrow>
          Some (if 500 \<le> status \<or> status \<in> set UPSTREAM_STATUSES then UpstreamFailure else RequestFailure)
      | _ \<Rightarrow> None)"

definition isPermanentNcnFailure :: "js_error \<Rightarrow> bool" where
  "isPermanentNcnFailure e = (classifyNcnFailure e = Some RequestFailure)"

definition readBodySnippet :: "http_response \<Rightarrow> jsstr" where
  "readBodySnippet r =
     (case hr_text r of Inl e \<Rightarrow> [] | Inr t \<Rightarrow> take MAX_BODY_SNIPPET_CHARS (trim t))"

section \<open>Exact integers\<close>

text \<open>
  The pattern \<open>("field"\s*:\s*)(-?(?:0|[1-9]\d*))(?=\s*[,}])\<close> at the start of a text: the matched
  prefix, the integer and the rest.  No step of the pattern can match in two ways that both succeed
  (the character after each greedy run is not in the run), so the match is found without
  backtracking.
\<close>

definition quote_field :: "jsstr \<Rightarrow> jsstr" where
  "quote_field field = [34] @ field @ [34]"

definition match_int :: "jsstr \<Rightarrow> (jsstr \<times> jsstr) option" where
  "match_int s =
     (let sign = (if s \<noteq> [] \<and> hd s = 45 then [45] else []);
          t = drop (length sign) s
      in if t = [] \<or> \<not> is_digit (hd t) then None
         else if hd t = 48 then Some (sign @ [48], tl t)
         else Some (sign @ takeWhile is_digit t, dropWhile is_digit t))"

definition lossless_match :: "jsstr \<Rightarrow> jsstr \<Rightarrow> (jsstr \<times> jsstr \<times> jsstr) option" where
  "lossless_match field s =
     (if \<not> startsWith s (quote_field field) then None
      else let a = drop (length (quote_field field)) s; b = dropWhile is_space a
           in if b = [] \<or> hd b \<noteq> 58 then None
              else let c = dropWhile is_space (tl b)
                   in case match_int c of
                        None \<Rightarrow> None
                      | Some (digits, rest) \<Rightarrow>
                          (let after = dropWhile is_space rest
                           in if after \<noteq> [] \<and> (hd after = 44 \<or> hd after = 125)
                              then Some (take (length s - length c) s, digits, rest) else None))"

text \<open>The global replacement by \<open>$1"$2"\<close>, left to right.\<close>

lemma length_dropWhile_less: "s \<noteq> [] \<Longrightarrow> P (hd s) \<Longrightarrow> length (dropWhile P s) < length s"
  by (cases s) (auto simp: length_dropWhile_le less_Suc_eq_le)

lemma match_int_length:
  assumes "match_int s = Some (d, r)"
  shows "length r < length s"
proof -
  let ?t = "drop (length (if s \<noteq> [] \<and> hd s = 45 then [45::nat] else [])) s"
  have t: "?t \<noteq> []" "is_digit (hd ?t)" using assms by (auto simp: match_int_def Let_def split: if_splits)
  have "r = tl ?t \<or> r = dropWhile is_digit ?t"
    using assms by (auto simp: match_int_def Let_def split: if_splits)
  then have "length r < length ?t"
    using length_dropWhile_less [of ?t is_digit] t by auto
  also have "\<dots> \<le> length s" by simp
  finally show ?thesis .
qed

lemma lossless_match_length:
  assumes "lossless_match field s = Some (p, d, r)"
  shows "length r < length s"
proof -
  let ?a = "drop (length (quote_field field)) s"
  let ?b = "dropWhile is_space ?a"
  let ?c = "dropWhile is_space (tl ?b)"
  have "match_int ?c = Some (d, r)"
    using assms by (auto simp: lossless_match_def Let_def split: if_splits option.splits)
  then have "length r < length ?c" by (rule match_int_length)
  also have "length ?c \<le> length (tl ?b)" by (rule length_dropWhile_le)
  also have "length (tl ?b) \<le> length ?a" using length_dropWhile_le [of is_space ?a] by simp
  also have "length ?a \<le> length s" by simp
  finally show ?thesis .
qed

function replace_lossless :: "jsstr \<Rightarrow> jsstr \<Rightarrow> jsstr" where
  "replace_lossless field s =
     (case s of [] \<Rightarrow> []
      | c # t \<Rightarrow>
          (case lossless_match field s of
             None \<Rightarrow> c # replace_lossless field t
           | Some (prefix, digits, rest) \<Rightarrow> prefix @ [34] @ digits @ [34] @ replace_lossless field rest))"
  by pat_completeness auto
termination
  by (relation "measure (\<lambda>(f, s). length s)") (auto dest: lossless_match_length)

definition parseNcnJson :: "(jsstr \<Rightarrow> js_error + 'a) \<Rightarrow> jsstr \<Rightarrow> jsstr list \<Rightarrow> js_error + 'a" where
  "parseNcnJson json_parse body fieldNames = json_parse (fold replace_lossless fieldNames body)"

section \<open>Requests\<close>

record ncn_options =
  no_timeoutMs :: number
  no_maxRetries :: nat
  no_losslessIntegerFields :: "jsstr list"
  no_retryDelayMs :: "(nat \<Rightarrow> number) option"
  no_label :: jsstr
  no_resource :: "ncn_resource option"
  no_hasSignal :: bool

definition default_options :: "jsstr \<Rightarrow> ncn_options" where
  "default_options label =
     \<lparr>no_timeoutMs = DEFAULT_TIMEOUT_MS, no_maxRetries = DEFAULT_MAX_RETRIES,
      no_losslessIntegerFields = [], no_retryDelayMs = None, no_label = label,
      no_resource = None, no_hasSignal = False\<rparr>"

definition defaultRetryDelayMs :: "number \<Rightarrow> nat \<Rightarrow> number" where
  "defaultRetryDelayMs random retryNumber =
     math_min (Num 1000 * Num (2 ^ retryNumber)) MAX_RETRY_DELAY_MS + random * RETRY_JITTER_MS"

definition abort_error :: js_error where
  "abort_error = AbortError (js ''The operation was aborted'')"

definition response_ok :: "http_response \<Rightarrow> bool" where
  "response_ok r \<longleftrightarrow> 200 \<le> hr_status r \<and> hr_status r \<le> 299"

text \<open>The caller's signal counts only when one was passed.\<close>

definition caller_aborted :: "ncn_options \<Rightarrow> http_attempt \<Rightarrow> bool" where
  "caller_aborted opts att \<longleftrightarrow> no_hasSignal opts \<and> ha_aborted att"

definition ncn_body ::
  "chain_env \<Rightarrow> (jsstr \<Rightarrow> js_error + 'a) \<Rightarrow> jsstr \<Rightarrow> ncn_options \<Rightarrow> http_attempt \<Rightarrow> js_error + 'a" where
  "ncn_body env json_parse url opts att =
     res_bind (ha_result att) (\<lambda>r.
       if \<not> response_ok r then
         Inl (new_NcnApiHttpError env (no_label opts) (hr_status r)
                (if hr_url r \<noteq> [] then hr_url r else url) (hr_statusText r) (readBodySnippet r)
                (no_resource opts))
       else if no_losslessIntegerFields opts = [] then res_bind (hr_text r) json_parse
       else res_bind (hr_text r) (\<lambda>t. parseNcnJson json_parse t (no_losslessIntegerFields opts)))"

definition ncn_catch ::
  "chain_env \<Rightarrow> jsstr \<Rightarrow> ncn_options \<Rightarrow> http_attempt \<Rightarrow> js_error \<Rightarrow> js_error" where
  "ncn_catch env url opts att e =
     (if caller_aborted opts att then e
      else if ha_timedOut att then
        new_NcnApiNetworkError env
          (js ''Timed out after '' @ number_to_string (no_timeoutMs opts) @ js ''ms getting '' @ no_label opts
            @ js '' from '' @ hostOf env url) url
      else if isNetworkFailure e then
        new_NcnApiNetworkError env
          (js ''NCN API unreachable at '' @ hostOf env url @ js '' while getting '' @ no_label opts
            @ js '' (network or CORS failure)'') url
      else e)"

definition fetchNcnJsonOnce ::
  "chain_env \<Rightarrow> (jsstr \<Rightarrow> js_error + 'a) \<Rightarrow> jsstr \<Rightarrow> ncn_options \<Rightarrow> http_attempt \<Rightarrow> js_error + 'a" where
  "fetchNcnJsonOnce env json_parse url opts att =
     (case ncn_body env json_parse url opts att of
        Inr x \<Rightarrow> Inr x
      | Inl e \<Rightarrow> Inl (ncn_catch env url opts att e))"

definition waitForRetry :: "chain_env \<Rightarrow> ncn_options \<Rightarrow> number \<Rightarrow> bool \<Rightarrow> (event, unit) io" where
  "waitForRetry env opts delayMs aborted =
     (if aborted then io_throw abort_error
      else if delayMs \<le> Num 0 then io_return ()
      else io_call (Backoff delayMs)
             (\<lambda>l. if no_hasSignal opts \<and> ans_wait_aborted env l delayMs then Inl abort_error else Inr ()))"

definition retry_delay :: "chain_env \<Rightarrow> ncn_options \<Rightarrow> nat \<Rightarrow> log \<Rightarrow> number" where
  "retry_delay env opts n l =
     (case no_retryDelayMs opts of Some f \<Rightarrow> f n | None \<Rightarrow> defaultRetryDelayMs (math_random env l) n)"

text \<open>One pass of the loop of \<open>fetchNcnJson\<close>: the request, the decision, the backoff, and then \<open>again\<close>.
  The loop itself counts the retries that remain, \<open>maxRetries - retryNumber\<close>, which bounds it; with
  none left \<open>again\<close> is never reached.\<close>

definition fetch_pass ::
  "chain_env \<Rightarrow> (jsstr \<Rightarrow> js_error + 'a) \<Rightarrow> jsstr \<Rightarrow> ncn_options \<Rightarrow> nat \<Rightarrow> (event, 'a) io \<Rightarrow> (event, 'a) io" where
  "fetch_pass env json_parse url opts retryNumber again =
     (\<lambda>l. let att = ans_http env l url; l' = l @ [HttpGet url] in
       case fetchNcnJsonOnce env json_parse url opts att of
         Inr x \<Rightarrow> (Inr x, l')
       | Inl e \<Rightarrow>
           (let kind = classifyNcnFailure e;
                shouldRetry = (retryNumber < no_maxRetries opts \<and>
                               (kind = Some NetworkFailure \<or> kind = Some UpstreamFailure))
            in if \<not> shouldRetry \<or> caller_aborted opts att then (Inl e, l')
               else io_bind (waitForRetry env opts (retry_delay env opts retryNumber l')
                               (caller_aborted opts att))
                      (\<lambda>_. again) l'))"

primrec fetch_loop ::
  "chain_env \<Rightarrow> (jsstr \<Rightarrow> js_error + 'a) \<Rightarrow> jsstr \<Rightarrow> ncn_options \<Rightarrow> nat \<Rightarrow> (event, 'a) io" where
  "fetch_loop env json_parse url opts 0 =
     fetch_pass env json_parse url opts (no_maxRetries opts) (io_throw abort_error)"
| "fetch_loop env json_parse url opts (Suc n) =
     fetch_pass env json_parse url opts (no_maxRetries opts - Suc n) (fetch_loop env json_parse url opts n)"

definition fetchNcnJson ::
  "chain_env \<Rightarrow> (jsstr \<Rightarrow> js_error + 'a) \<Rightarrow> jsstr \<Rightarrow> ncn_options \<Rightarrow> (event, 'a) io" where
  "fetchNcnJson env json_parse url opts = fetch_loop env json_parse url opts (no_maxRetries opts)"

section \<open>Properties\<close>

fun is_request :: "event \<Rightarrow> bool" where
  "is_request (HttpGet u) = True"
| "is_request _ = False"

definition requests :: "log \<Rightarrow> nat" where
  "requests evs = length (filter is_request evs)"

lemma requests_simps [simp]:
  "requests [] = 0" "requests (a @ b) = requests a + requests b"
  "requests (e # evs) = (if is_request e then Suc (requests evs) else requests evs)"
  by (simp_all add: requests_def)

definition transient :: "js_error \<Rightarrow> bool" where
  "transient e \<longleftrightarrow> classifyNcnFailure e = Some NetworkFailure \<or> classifyNcnFailure e = Some UpstreamFailure"

lemma abort_not_transient [simp]: "\<not> transient abort_error"
  by (simp add: transient_def abort_error_def classifyNcnFailure_def)

text \<open>The only events of the client: requests to the given URL and waits.\<close>

fun ncn_event :: "jsstr \<Rightarrow> event \<Rightarrow> bool" where
  "ncn_event url (HttpGet u) = (u = url)"
| "ncn_event url (Backoff d) = True"
| "ncn_event url _ = False"

lemma ncn_event_read: "ncn_event url e \<Longrightarrow> is_read e"
  by (cases e) auto

lemma emits_wait:
  "emits (waitForRetry env opts d b) (\<lambda>r evs. requests evs = 0 \<and> list_all (ncn_event url) evs \<and>
     (r = Inr () \<or> (r = Inl abort_error \<and> (b \<or> no_hasSignal opts))))"
  by (auto simp: waitForRetry_def emits_def io_defs)

text \<open>What one pass guarantees, from what \<open>again\<close> guarantees.\<close>

definition bounded :: "jsstr \<Rightarrow> ncn_options \<Rightarrow> nat \<Rightarrow> js_error + 'a \<Rightarrow> log \<Rightarrow> bool" where
  "bounded url opts n r evs \<longleftrightarrow> 1 \<le> requests evs \<and> requests evs \<le> Suc n \<and> list_all (ncn_event url) evs \<and>
     (case r of Inr x \<Rightarrow> True
      | Inl e \<Rightarrow> transient e \<and> \<not> no_hasSignal opts \<longrightarrow> requests evs = Suc n)"

lemma emits_pass:
  assumes "retryNumber < no_maxRetries opts \<Longrightarrow> 0 < n \<and> emits again (bounded url opts (n - 1))"
    and "\<not> retryNumber < no_maxRetries opts \<Longrightarrow> n = 0"
  shows "emits (fetch_pass env json_parse url opts retryNumber again) (bounded url opts n)"
  unfolding emits_def
proof
  fix l
  let ?m = "fetch_pass env json_parse url opts retryNumber again"
  let ?att = "ans_http env l url" and ?l = "l @ [HttpGet url]"
  let ?once = "fetchNcnJsonOnce env json_parse url opts ?att"
  consider x where "?once = Inr x"
    | e where "?once = Inl e" "\<not> (retryNumber < no_maxRetries opts \<and> transient e) \<or> caller_aborted opts ?att"
    | e where "?once = Inl e" "retryNumber < no_maxRetries opts" "transient e" "\<not> caller_aborted opts ?att"
    by (cases ?once) auto
  then show "\<exists>evs. snd (?m l) = l @ evs \<and> bounded url opts n (fst (?m l)) evs"
  proof cases
    case 1
    then show ?thesis by (simp add: fetch_pass_def Let_def bounded_def)
  next
    case 2
    then have "?m l = (Inl e, ?l)" by (auto simp: fetch_pass_def Let_def transient_def)
    then show ?thesis using 2(2) assms(2) by (auto simp: bounded_def caller_aborted_def)
  next
    case 3
    let ?w = "waitForRetry env opts (retry_delay env opts retryNumber ?l) False"
    have m: "?m l = io_bind ?w (\<lambda>_. again) ?l"
      using 3 by (auto simp: fetch_pass_def Let_def transient_def)
    have n: "0 < n" "emits again (bounded url opts (n - 1))" using assms(1) 3(2) by auto
    have "emits (io_bind ?w (\<lambda>_. again)) (\<lambda>r evs. bounded url opts n r (HttpGet url # evs))"
    proof (rule emits_bind [OF emits_wait [of _ _ _ _ url]], goal_cases)
      case (1 e evs)
      then show ?case by (auto simp: bounded_def)
    next
      case (2 x evs)
      show ?case
        by (rule emits_mono [OF n(2)]) (use 2 n(1) in \<open>auto simp: bounded_def split: sum.splits\<close>)
    qed
    then obtain evs where "snd (?m l) = ?l @ evs" "bounded url opts n (fst (?m l)) (HttpGet url # evs)"
      unfolding m emits_def by blast
    then show ?thesis by auto
  qed
qed

lemma emits_loop: "n \<le> no_maxRetries opts \<Longrightarrow> emits (fetch_loop env json_parse url opts n) (bounded url opts n)"
proof (induction n)
  case 0
  then show ?case by (simp add: emits_pass)
next
  case (Suc n)
  then show ?case by (simp add: emits_pass)
qed

lemma emits_fetch: "emits (fetchNcnJson env json_parse url opts) (bounded url opts (no_maxRetries opts))"
  by (simp add: fetchNcnJson_def emits_loop)


lemma fetch_definite:
  assumes "r = fetchNcnJsonOnce env json_parse url opts (ans_http env l url)"
    and "case r of Inr x \<Rightarrow> True | Inl e \<Rightarrow> \<not> transient e \<or> caller_aborted opts (ans_http env l url)"
  shows "fetchNcnJson env json_parse url opts l = (r, l @ [HttpGet url])"
proof -
  have "fetch_pass env json_parse url opts n again l = (r, l @ [HttpGet url])" for n again
    using assms by (auto simp: fetch_pass_def Let_def transient_def split: sum.splits)
  then show ?thesis unfolding fetchNcnJson_def by (cases "no_maxRetries opts") simp_all
qed

text \<open>A definite answer ends the request at once: a first attempt that succeeds, that fails with
  a status every operator would repeat (a 404 among them), that fails outside this client, or whose
  caller cancelled, makes exactly one HTTP request and is reported as it is.\<close>

theorem fetchNcnJson_definite:
  assumes "r = fetchNcnJsonOnce env json_parse url opts (ans_http env l url)"
    and "case r of Inr x \<Rightarrow> True | Inl e \<Rightarrow> \<not> transient e \<or> caller_aborted opts (ans_http env l url)"
  shows "fetchNcnJson env json_parse url opts l = (r, l @ [HttpGet url])"
  using assms by (rule fetch_definite)

text \<open>An environment in which every request is answered with the given exchange.\<close>

definition http_env :: "http_attempt \<Rightarrow> chain_env" where
  "http_env att =
     \<lparr>new_PublicKey = \<lambda>s. Inr (PublicKey s), toBase58 = pk_bytes,
      findProgramAddressSync = \<lambda>seeds p. Inr (PublicKey (concat seeds @ pk_bytes p)),
      bn_of_number = \<lambda>x. (case x of Num r \<Rightarrow> Inr \<lfloor>r\<rfloor> | _ \<Rightarrow> Inl (JsError [])),
      bn_of_string = \<lambda>s. Inr (int (dec_val s)), bn_le8 = \<lambda>i. Inr [nat i], bn_toNumber = \<lambda>i. Inr (inum i),
      new_Connection = \<lambda>u. Inr (), build_instruction = \<lambda>i. Inr (), verifySignatures = \<lambda>t. True,
      serialize = \<lambda>t. Inr [], url_host = \<lambda>u. None,
      decode_vote_proof = \<lambda>t. Inl (JsSyntaxError []), decode_stake_proof = \<lambda>t. Inl (JsSyntaxError []),
      svmgov_program_id = PublicKey [1], snapshot_program_id = PublicKey [2],
      system_program_id = PublicKey [3],
      rpc_env_vars = \<lparr>NEXT_PUBLIC_SOLANA_RPC_MAINNET = None, NEXT_PUBLIC_SOLANA_RPC_TESTNET = None,
        NEXT_PUBLIC_SOLANA_RPC_DEVNET = None\<rparr>,
      ans_proposal = \<lambda>l e p. Inl (JsError []), ans_vote_accounts = \<lambda>l e. Inr [],
      ans_account_exists = \<lambda>l e p. Inr True, ans_epoch_info = \<lambda>l e. Inl (JsError []),
      ans_first_slot = \<lambda>l e. Inr (\<lambda>n. n), ans_block_time = \<lambda>l e s. Inr None,
      ans_blockhash = \<lambda>l e. Inr (js ''hash''), ans_http = \<lambda>l u. att, ans_wait_aborted = \<lambda>l d. False,
      ans_send = \<lambda>l e t. Inr (js ''sig''), ans_confirm = \<lambda>l e s. Inr None,
      ans_anchor_rpc = \<lambda>l e i. Inr (js ''sig''), math_random = \<lambda>l. Num 0\<rparr>"

definition answer_404 :: http_attempt where
  "answer_404 = \<lparr>ha_result = Inr \<lparr>hr_status = 404, hr_url = [], hr_statusText = [], hr_text = Inr (js ''no leaf'')\<rparr>,
     ha_timedOut = False, ha_aborted = False\<rparr>"

lemma once_404:
  "\<exists>m h b. fetchNcnJsonOnce (http_env answer_404) json_parse url opts answer_404 =
     Inl (NcnApiHttpError m 404 (no_resource opts) h b)"
  by (simp add: fetchNcnJsonOnce_def ncn_body_def ncn_catch_def answer_404_def response_ok_def
      new_NcnApiHttpError_def Let_def)

theorem fetchNcnJson_definite_witness:
  "\<exists>e. isPermanentNcnFailure e \<and>
     fetchNcnJson (http_env answer_404) (Inr :: jsstr \<Rightarrow> js_error + jsstr) (js ''u'') (default_options (js ''proof'')) [] =
       (Inl e, [HttpGet (js ''u'')])"
proof -
  obtain m h b where o: "fetchNcnJsonOnce (http_env answer_404) (Inr :: jsstr \<Rightarrow> js_error + jsstr) (js ''u'')
      (default_options (js ''proof'')) answer_404 =
      Inl (NcnApiHttpError m 404 (no_resource (default_options (js ''proof''))) h b)" (is "_ = Inl ?e")
    using once_404 by blast
  have k: "classifyNcnFailure ?e = Some RequestFailure"
    by (simp add: classifyNcnFailure_def UPSTREAM_STATUSES_def)
  have "fetchNcnJson (http_env answer_404) (Inr :: jsstr \<Rightarrow> js_error + jsstr) (js ''u'') (default_options (js ''proof'')) [] =
      (Inl ?e, [] @ [HttpGet (js ''u'')])"
    by (rule fetchNcnJson_definite) (use o k in \<open>simp_all add: http_env_def transient_def\<close>)
  then show ?thesis using k by (auto simp: isPermanentNcnFailure_def)
qed

text \<open>An exchange whose timer fires, and options that retry it once without a pause.\<close>

definition timed_out :: http_attempt where
  "timed_out = \<lparr>ha_result = Inl abort_error, ha_timedOut = True, ha_aborted = False\<rparr>"

definition one_retry :: ncn_options where
  "one_retry = default_options (js ''proof'')\<lparr>no_maxRetries := 1, no_retryDelayMs := Some (\<lambda>n. Num 0)\<rparr>"

lemma retries_time_out:
  "\<exists>e. transient e \<and> fst (fetchNcnJson (http_env timed_out) (Inr :: jsstr \<Rightarrow> js_error + jsstr) (js ''u'') one_retry []) = Inl e"
proof -
  obtain m h u where once: "fetchNcnJsonOnce (http_env timed_out) (Inr :: jsstr \<Rightarrow> js_error + jsstr) (js ''u'') one_retry timed_out =
      Inl (NcnApiNetworkError m h u)" (is "_ = Inl ?e")
    by (simp add: fetchNcnJsonOnce_def ncn_body_def ncn_catch_def timed_out_def one_retry_def default_options_def
        caller_aborted_def new_NcnApiNetworkError_def)
  have e: "transient ?e" by (simp add: transient_def classifyNcnFailure_def)
  have "no_maxRetries one_retry = Suc 0" "\<not> no_hasSignal one_retry" by (simp_all add: one_retry_def default_options_def)
  then have "fst (fetchNcnJson (http_env timed_out) (Inr :: jsstr \<Rightarrow> js_error + jsstr) (js ''u'') one_retry []) = Inl ?e"
    using once e by (simp add: fetchNcnJson_def fetch_pass_def Let_def http_env_def transient_def caller_aborted_def
        waitForRetry_def retry_delay_def io_bind_def io_return_def one_retry_def default_options_def)
  with e show ?thesis by blast
qed


text \<open>A timeout that fires while the body of an error answer is read hides the status the
  server gave: the failure is reported as a network failure, and a definite 404 is retried.  (The
  comment on \<open>readBodySnippet\<close> says that a known status is never traded for an opaque failure.)\<close>

theorem timeout_hides_status:
  assumes "ha_result att = Inr r" "\<not> response_ok r" "ha_timedOut att" "\<not> caller_aborted opts att"
  shows "\<exists>e. fetchNcnJsonOnce env json_parse url opts att = Inl e \<and>
             classifyNcnFailure e = Some NetworkFailure \<and> transient e"
  using assms
  by (simp add: fetchNcnJsonOnce_def ncn_body_def ncn_catch_def new_NcnApiNetworkError_def
      classifyNcnFailure_def transient_def)

theorem timeout_hides_status_witness:
  "\<exists>e. fetchNcnJsonOnce (http_env answer_404) (Inr :: jsstr \<Rightarrow> js_error + jsstr) (js ''u'') (default_options [])
         (answer_404\<lparr>ha_timedOut := True\<rparr>) = Inl e \<and> transient e"
proof -
  let ?r = "\<lparr>hr_status = 404, hr_url = [], hr_statusText = [], hr_text = Inr (js ''no leaf'')\<rparr>"
  have "ha_result (answer_404\<lparr>ha_timedOut := True\<rparr>) = Inr ?r" "\<not> response_ok ?r"
    "ha_timedOut (answer_404\<lparr>ha_timedOut := True\<rparr>)"
    "\<not> caller_aborted (default_options []) (answer_404\<lparr>ha_timedOut := True\<rparr>)"
    by (simp_all add: answer_404_def response_ok_def caller_aborted_def)
  from timeout_hides_status [OF this] show ?thesis by blast
qed

text \<open>The rewriting of integers.\<close>

lemma replace_skip: "lossless_match field (c # t) = None \<Longrightarrow> replace_lossless field (c # t) = c # replace_lossless field t"
  by (subst replace_lossless.simps) simp

lemma lossless_match_needs_quote: "c \<noteq> 34 \<Longrightarrow> lossless_match field (c # t) = None"
  by (simp add: lossless_match_def quote_field_def)

lemma replace_prefix: "34 \<notin> set pre \<Longrightarrow> replace_lossless field (pre @ s) = pre @ replace_lossless field s"
  by (induction pre) (auto simp: replace_skip lossless_match_needs_quote)

lemma dec_zero_or_lead: "dec n = [48] \<or> hd (dec n) \<noteq> 48"
proof (induction n rule: dec.induct)
  case (1 n)
  show ?case
  proof (cases "n < 10")
    case True
    then show ?thesis by (subst (1 2) dec.simps) auto
  next
    case False
    have "dec (n div 10) = [48] \<Longrightarrow> n div 10 = 0" using dec_val_dec [of "n div 10"] by (simp add: dec_val_def)
    with 1 False have "hd (dec (n div 10)) \<noteq> 48" by auto
    then show ?thesis using False by (subst (1 2) dec.simps) (simp add: hd_append)
  qed
qed

lemma takeWhile_dec_stop:
  assumes "\<not> is_digit c"
  shows "takeWhile is_digit (dec n @ c # rest) = dec n" "dropWhile is_digit (dec n @ c # rest) = c # rest"
  using assms dec_digits by (simp_all add: takeWhile_append2 dropWhile_append2)

lemma match_int_dec:
  assumes "\<not> is_digit c"
  shows "match_int (dec n @ c # rest) = Some (dec n, c # rest)"
proof -
  have h: "is_digit (hd (dec n @ c # rest))" using hd_dec [of n] by (simp add: hd_append)
  then have "hd (dec n @ c # rest) \<noteq> 45" by (auto simp: is_digit_def)
  with h show ?thesis
    using dec_zero_or_lead [of n] takeWhile_dec_stop [OF assms, of n rest]
    by (auto simp: match_int_def Let_def)
qed

lemma lossless_match_dec:
  assumes "c = 44 \<or> c = 125"
  shows "lossless_match field (quote_field field @ 58 # dec n @ c # rest) =
         Some (quote_field field @ [58], dec n, c # rest)"
proof -
  have nd: "\<not> is_digit c" "\<not> is_space c" using assms by (auto simp: is_digit_def is_space_def)
  have "\<not> is_space (hd (dec n @ c # rest))" using hd_dec [of n] by (simp add: hd_append not_space_digit)
  then have "dropWhile is_space (dec n @ c # rest) = dec n @ c # rest"
    by (cases "dec n @ c # rest") auto
  then show ?thesis
    using match_int_dec [OF nd(1), of n rest] nd(2) assms
    by (auto simp: lossless_match_def Let_def startsWith_iff is_space_def)
qed



end
