(* ===== verification/Chain_Helpers.thy ===== *)
theory Chain_Helpers
  imports Ncn_Api
begin

text \<open>
  The helpers shared by the transaction builders: \<open>frontend/src/chain/instructions/helpers.ts\<close>, the
  compute budget of \<open>types.ts\<close> and \<open>deriveProposalAccount\<close> of \<open>frontend/src/chain/helpers.ts\<close>.
\<close>

section \<open>Compute budget\<close>

definition SUPPORT_CU_BASE :: number where "SUPPORT_CU_BASE = Num 22500"
definition SUPPORT_CU_PER_SUPPORTER :: number where "SUPPORT_CU_PER_SUPPORTER = Num 132"
definition SUPPORT_CU_ACTIVATION :: number where "SUPPORT_CU_ACTIVATION = Num 28000"
definition SUPPORT_CU_HEADROOM_PERCENT :: number where "SUPPORT_CU_HEADROOM_PERCENT = Num 15"
definition MAX_COMPUTE_UNIT_LIMIT :: number where "MAX_COMPUTE_UNIT_LIMIT = Num 1400000"
definition MAX_SUPPORTERS :: number where "MAX_SUPPORTERS = Num 2000"

definition supportComputeUnitLimit :: "number \<Rightarrow> number" where
  "supportComputeUnitLimit numSupporters =
     (let modelled = SUPPORT_CU_BASE + SUPPORT_CU_PER_SUPPORTER * math_max (Num 0) numSupporters
                     + SUPPORT_CU_ACTIVATION;
          withHeadroom = math_ceil ((modelled * (Num 100 + SUPPORT_CU_HEADROOM_PERCENT)) / Num 100)
      in math_min withHeadroom MAX_COMPUTE_UNIT_LIMIT)"

section \<open>Signing\<close>

definition msg_different_account :: jsstr where
  "msg_different_account = js ''Your wallet signed with a different account than the one that started this vote. Reconnect the original account and try again.''"

definition msg_not_signed :: jsstr where
  "msg_not_signed = js ''Your wallet did not sign the transaction with the connected account. Reconnect the account that started this vote and try again.''"

definition msg_invalid_signature :: jsstr where
  "msg_invalid_signature = js ''Your wallet returned an invalid transaction signature. Reconnect the account that started this vote and try again.''"

definition check_signed :: "chain_env \<Rightarrow> pubkey \<Rightarrow> transaction \<Rightarrow> js_error + transaction" where
  "check_signed env expectedSigner signedTx =
     (let expected = List.find (\<lambda>(pk, sig). pk = expectedSigner) (tx_signatures signedTx);
          unexpected = List.find (\<lambda>(pk, sig). sig \<noteq> None \<and> pk \<noteq> expectedSigner) (tx_signatures signedTx);
          has_signature = (case expected of Some (pk, Some sig) \<Rightarrow> True | _ \<Rightarrow> False)
      in if \<not> has_signature \<and> unexpected \<noteq> None then Inl (WalletSigningError msg_different_account)
         else if \<not> has_signature then Inl (WalletSigningError msg_not_signed)
         else if \<not> verifySignatures env signedTx then Inl (WalletSigningError msg_invalid_signature)
         else Inr signedTx)"

definition signTransactionForWallet ::
  "chain_env \<Rightarrow> wallet \<Rightarrow> transaction \<Rightarrow> pubkey \<Rightarrow> (event, transaction) io" where
  "signTransactionForWallet env w tx expectedSigner =
     io_bind (io_call (SignRequest tx) (\<lambda>l. w_signTransaction w l tx))
       (\<lambda>signedTx. io_lift (check_signed env expectedSigner signedTx))"

section \<open>Program addresses\<close>

definition deriveProposalPda :: "chain_env \<Rightarrow> int \<Rightarrow> pubkey \<Rightarrow> pubkey \<Rightarrow> js_error + pubkey" where
  "deriveProposalPda env seed signer programId =
     res_bind (bn_le8 env seed) (\<lambda>b.
       findProgramAddressSync env [js ''proposal'', b, pk_bytes signer] programId)"

definition deriveProposalIndexPda :: "chain_env \<Rightarrow> pubkey \<Rightarrow> js_error + pubkey" where
  "deriveProposalIndexPda env programId = findProgramAddressSync env [js ''index''] programId"

definition deriveGlobalConfigPda :: "chain_env \<Rightarrow> pubkey \<Rightarrow> js_error + pubkey" where
  "deriveGlobalConfigPda env programId = findProgramAddressSync env [js ''global_config''] programId"

definition deriveVotePda :: "chain_env \<Rightarrow> pubkey \<Rightarrow> pubkey \<Rightarrow> pubkey \<Rightarrow> js_error + pubkey" where
  "deriveVotePda env proposal voteAccount programId =
     findProgramAddressSync env [js ''vote'', pk_bytes proposal, pk_bytes voteAccount] programId"

definition deriveSupportPda :: "chain_env \<Rightarrow> pubkey \<Rightarrow> pubkey \<Rightarrow> pubkey \<Rightarrow> js_error + pubkey" where
  "deriveSupportPda env proposal voteAccount programId =
     findProgramAddressSync env [js ''support'', pk_bytes proposal, pk_bytes voteAccount] programId"

definition deriveVoteOverridePda ::
  "chain_env \<Rightarrow> pubkey \<Rightarrow> pubkey \<Rightarrow> pubkey \<Rightarrow> pubkey \<Rightarrow> js_error + pubkey" where
  "deriveVoteOverridePda env proposal stakeAccount validatorVote programId =
     findProgramAddressSync env
       [js ''vote_override'', pk_bytes proposal, pk_bytes stakeAccount, pk_bytes validatorVote] programId"

definition deriveVoteOverrideCachePda :: "chain_env \<Rightarrow> pubkey \<Rightarrow> pubkey \<Rightarrow> pubkey \<Rightarrow> js_error + pubkey" where
  "deriveVoteOverrideCachePda env proposal vote programId =
     findProgramAddressSync env [js ''vote_override_cache'', pk_bytes proposal, pk_bytes vote] programId"

definition deriveProposalAccount :: "chain_env \<Rightarrow> int \<Rightarrow> pubkey \<Rightarrow> js_error + pubkey" where
  "deriveProposalAccount env seed splVoteAccount =
     res_bind (bn_le8 env seed) (\<lambda>b.
       findProgramAddressSync env [js ''proposal'', b, pk_bytes splVoteAccount] (svmgov_program_id env))"

definition getMetaMerkleProofPda ::
  "chain_env \<Rightarrow> vote_account_proof \<Rightarrow> pubkey \<Rightarrow> pubkey \<Rightarrow> js_error + pubkey" where
  "getMetaMerkleProofPda env proof snapshotProgramId consensusResult =
     res_bind (new_PublicKey env (mml_vote_account (meta_merkle_leaf proof))) (\<lambda>va.
       findProgramAddressSync env [js ''MetaMerkleProof'', pk_bytes consensusResult, pk_bytes va]
         snapshotProgramId)"

section \<open>Programs\<close>

text \<open>A program instance is its RPC endpoint and program id; creating it validates the endpoint.\<close>

record program =
  prog_endpoint :: jsstr
  prog_id :: pubkey

definition RPC_URLS :: "chain_env \<Rightarrow> rpc_urls" where
  "RPC_URLS env = getRpcUrls (rpc_env_vars env)"

definition create_program :: "chain_env \<Rightarrow> pubkey \<Rightarrow> jsstr option \<Rightarrow> js_error + program" where
  "create_program env programId endpoint =
     (let rpcEndpoint = (case endpoint of Some e \<Rightarrow> if e \<noteq> [] then e else url_testnet (RPC_URLS env)
                         | None \<Rightarrow> url_testnet (RPC_URLS env))
      in res_bind (new_Connection env rpcEndpoint) (\<lambda>_.
           Inr \<lparr>prog_endpoint = rpcEndpoint, prog_id = programId\<rparr>))"

definition createProgramWithWallet :: "chain_env \<Rightarrow> wallet \<Rightarrow> jsstr option \<Rightarrow> js_error + program" where
  "createProgramWithWallet env w endpoint = create_program env (svmgov_program_id env) endpoint"

definition createGovV1ProgramWithWallet :: "chain_env \<Rightarrow> wallet \<Rightarrow> jsstr option \<Rightarrow> js_error + program" where
  "createGovV1ProgramWithWallet env w endpoint = create_program env (snapshot_program_id env) endpoint"

definition createProgramWitDummyWallet :: "chain_env \<Rightarrow> jsstr option \<Rightarrow> js_error + program" where
  "createProgramWitDummyWallet env endpoint = create_program env (svmgov_program_id env) endpoint"

section \<open>Proofs from the verifier\<close>

definition api_base :: "jsstr option \<Rightarrow> jsstr" where
  "api_base ncnApiUrl = (case ncnApiUrl of Some u \<Rightarrow> if u \<noteq> [] then u else DEFAULT_NCN_API_URL
                         | None \<Rightarrow> DEFAULT_NCN_API_URL)"

definition proof_url :: "jsstr \<Rightarrow> jsstr \<Rightarrow> jsstr \<Rightarrow> jsstr \<Rightarrow> number \<Rightarrow> jsstr" where
  "proof_url base kind account network slot =
     base @ js ''/proof/'' @ kind @ js ''/'' @ account @ js ''?network='' @ network @ js ''&slot=''
     @ number_to_string slot"

definition proof_options :: "jsstr \<Rightarrow> ncn_resource \<Rightarrow> ncn_options" where
  "proof_options label resource =
     (default_options label)\<lparr>no_losslessIntegerFields := [js ''active_stake''], no_resource := Some resource\<rparr>"

definition getVoteAccountProof ::
  "chain_env \<Rightarrow> jsstr \<Rightarrow> jsstr \<Rightarrow> number \<Rightarrow> jsstr option \<Rightarrow> (event, vote_account_proof) io" where
  "getVoteAccountProof env voteAccount network slot ncnApiUrl =
     fetchNcnJson env (decode_vote_proof env)
       (proof_url (api_base ncnApiUrl) (js ''vote_account'') voteAccount network slot)
       (proof_options (js ''vote account proof'') VoteAccountProof)"

definition getStakeAccountProof ::
  "chain_env \<Rightarrow> jsstr \<Rightarrow> jsstr \<Rightarrow> number \<Rightarrow> jsstr option \<Rightarrow> (event, stake_account_proof) io" where
  "getStakeAccountProof env stakeAccount network slot ncnApiUrl =
     fetchNcnJson env (decode_stake_proof env)
       (proof_url (api_base ncnApiUrl) (js ''stake_account'') stakeAccount network slot)
       (proof_options (js ''stake account proof'') StakeAccountProof)"

definition resolveSnapshotVoteAccount :: "chain_env \<Rightarrow> stake_account_proof \<Rightarrow> js_error + pubkey" where
  "resolveSnapshotVoteAccount env proof =
     (let missing = Inl (JsError (js ''Stake account proof is missing the snapshot vote_account; the verifier service may be out of date''))
      in case sap_vote_account proof of
           None \<Rightarrow> missing
         | Some va \<Rightarrow> if va = [] then missing else new_PublicKey env va)"

definition resolveProposalSnapshotSlot :: "chain_env \<Rightarrow> int \<Rightarrow> js_error + number" where
  "resolveProposalSnapshotSlot env snapshotSlot =
     res_bind (bn_toNumber env snapshotSlot) (\<lambda>slot.
       if \<not> is_finite_num slot \<or> slot \<le> Num 0 then
         Inl (JsError (js ''Proposal has no snapshot slot; voting may not have been activated yet''))
       else Inr slot)"

definition assertOverrideProofLineage ::
  "stake_account_proof \<Rightarrow> vote_account_proof \<Rightarrow> js_error + unit" where
  "assertOverrideProofLineage stakeProof metaProof =
     (let meta_va = mml_vote_account (meta_merkle_leaf metaProof) in
      if sap_vote_account stakeProof \<noteq> Some meta_va then
        Inl (JsError (js ''Override proof mismatch: stake proof's snapshot vote account ''
          @ (case sap_vote_account stakeProof of Some v \<Rightarrow> v | None \<Rightarrow> js ''undefined'')
          @ js '' does not match meta proof vote account '' @ meta_va))
      else Inr ())"

definition convertMerkleProofStrings :: "chain_env \<Rightarrow> jsstr list \<Rightarrow> js_error + nat list list" where
  "convertMerkleProofStrings env proofs =
     res_map (\<lambda>p. res_bind (new_PublicKey env p) (\<lambda>pk. Inr (pk_bytes pk))) proofs"

fun template_str :: "str_or_num \<Rightarrow> jsstr" where
  "template_str (SStr s) = s"
| "template_str (SNum x) = number_to_string x"

definition convertStakeMerkleLeafDataToIdlType ::
  "chain_env \<Rightarrow> stake_merkle_leaf_raw \<Rightarrow> js_error + stake_leaf" where
  "convertStakeMerkleLeafDataToIdlType env leaf =
     res_bind (bn_of_string env (template_str (smr_active_stake leaf))) (\<lambda>stake.
     res_bind (new_PublicKey env (smr_stake_account leaf)) (\<lambda>sa.
     res_bind (new_PublicKey env (smr_voting_wallet leaf)) (\<lambda>vw.
       Inr \<lparr>sl_activeStake = stake, sl_stakeAccount = sa, sl_votingWallet = vw\<rparr>)))"

section \<open>Validation\<close>

definition BASIS_POINTS_TOTAL :: number where
  "BASIS_POINTS_TOTAL = Num 10000"

definition validateVoteBasisPoints :: "number \<Rightarrow> number \<Rightarrow> number \<Rightarrow> js_error + unit" where
  "validateVoteBasisPoints forVotes againstVotes abstainVotes =
     (let sum = forVotes + againstVotes + abstainVotes in
      if \<not> seq sum (Num 10000) then
        Inl (JsError (js ''Total vote basis points must sum to 10000, got '' @ number_to_string sum))
      else Inr ())"

text \<open>\<open>Buffer.from(s, "hex")\<close> decodes pairs of hexadecimal digits up to the first that is none.\<close>

fun buffer_from_hex :: "jsstr \<Rightarrow> nat list" where
  "buffer_from_hex (a # b # s) =
     (case (radix_digit a, radix_digit b) of
        (Some x, Some y) \<Rightarrow> (16 * x + y) # buffer_from_hex s
      | _ \<Rightarrow> [])"
| "buffer_from_hex _ = []"

definition hexToBytes :: "jsstr \<Rightarrow> js_error + nat list" where
  "hexToBytes hex =
     (let cleanHex = (if startsWith hex (js ''0x'') then drop 2 hex else hex) in
      if length cleanHex \<noteq> 64 then
        Inl (JsError (js ''Merkle root hash must be exactly 32 bytes (64 hex characters)''))
      else Inr (buffer_from_hex cleanHex))"

section \<open>Close timestamp\<close>

definition MS_PER_SLOT :: number where "MS_PER_SLOT = Num 400"
definition BUFFER_PCT :: number where "BUFFER_PCT = Num 20"
definition MIN_BUFFER_SECONDS :: number where "MIN_BUFFER_SECONDS = Num 3600"

text \<open>The walk over skipped slots: \<open>left\<close> attempts remain; \<open>tried\<close> is the number of slots tried.\<close>

definition block_time_failure :: "nat \<Rightarrow> number \<Rightarrow> js_error \<Rightarrow> js_error" where
  "block_time_failure attempts lastTried lastErr =
     JsError (js ''Failed to fetch a recent block time (tried '' @ dec attempts @ js '' slots ending at ''
       @ number_to_string lastTried @ js ''): '' @ err_string lastErr)"

primrec block_time_loop ::
  "chain_env \<Rightarrow> jsstr \<Rightarrow> nat \<Rightarrow> nat \<Rightarrow> number \<Rightarrow> number \<Rightarrow> js_error \<Rightarrow> (event, number \<times> number) io" where
  "block_time_loop env ep 0 tried candidate lastTried lastErr =
     io_throw (block_time_failure tried lastTried lastErr)"
| "block_time_loop env ep (Suc left) tried candidate lastTried lastErr =
     io_bind (io_call (GetBlockTime ep candidate) (\<lambda>l. Inr (ans_block_time env l ep candidate)))
       (\<lambda>answer.
          case answer of
            Inr (Some t) \<Rightarrow> io_return (candidate, t)
          | _ \<Rightarrow>
              (let err = (case answer of
                            Inl e \<Rightarrow> e
                          | Inr x \<Rightarrow> JsError (js ''no block time available for slot '' @ number_to_string candidate))
               in if seq candidate (Num 0) then io_throw (block_time_failure (Suc tried) candidate err)
                  else block_time_loop env ep left (Suc tried) (math_max (Num 0) (candidate - Num 1))
                         candidate err))"

definition blockTimeAtOrBefore :: "chain_env \<Rightarrow> jsstr \<Rightarrow> number \<Rightarrow> (event, number \<times> number) io" where
  "blockTimeAtOrBefore env ep slot = block_time_loop env ep 8 0 slot slot (JsError [])"

definition close_estimate :: "epoch_info \<Rightarrow> number \<Rightarrow> number \<times> number \<Rightarrow> number" where
  "close_estimate info endEpoch ref =
     (case ref of (refSlot, refTime) \<Rightarrow>
        let epochStartSlot = ei_absoluteSlot info - ei_slotIndex info;
            targetSlot = epochStartSlot + (endEpoch - ei_epoch info) * ei_slotsInEpoch info;
            slotDelta = targetSlot - refSlot;
            projectedSecs = math_trunc ((slotDelta * MS_PER_SLOT) / Num 1000);
            buffer = (if Num 0 < projectedSecs
                      then math_max (math_trunc ((projectedSecs * BUFFER_PCT) / Num 100)) MIN_BUFFER_SECONDS
                      else Num 0)
        in refTime + projectedSecs + buffer)"

definition computeProofCloseTimestamp :: "chain_env \<Rightarrow> jsstr \<Rightarrow> number \<Rightarrow> (event, number) io" where
  "computeProofCloseTimestamp env ep endEpoch =
     io_bind (io_call (GetEpochInfo ep) (\<lambda>l. ans_epoch_info env l ep)) (\<lambda>info.
     io_bind (blockTimeAtOrBefore env ep (ei_absoluteSlot info)) (\<lambda>ref.
       io_return (close_estimate info endEpoch ref)))"

section \<open>Signed submissions\<close>

text \<open>The event is a read, a request to sign for \<open>signer\<close>, or the submission of a transaction that
  carries a signature of \<open>signer\<close> and passes the signature check.\<close>

fun signed_ok :: "chain_env \<Rightarrow> pubkey \<Rightarrow> event \<Rightarrow> bool" where
  "signed_ok env signer (SignRequest t) = (tx_feePayer t = signer)"
| "signed_ok env signer (SendRaw ep t) =
     (verifySignatures env t \<and> (\<exists>sig. (signer, Some sig) \<in> set (tx_signatures t)))"
| "signed_ok env signer (AnchorRpc ep i) = False"
| "signed_ok env signer _ = True"

interpretation signed: event_safety is_read "signed_ok env signer" for env signer
  by unfold_locales (auto elim: is_read.elims)

lemma check_signed_iff:
  "check_signed env s t = Inr t' \<longleftrightarrow> t' = t \<and> verifySignatures env t \<and>
     (\<exists>sig. List.find (\<lambda>(pk, sig). pk = s) (tx_signatures t) = Some (s, Some sig))"
proof -
  have "pk = s" if "List.find (\<lambda>(pk, sig). pk = s) (tx_signatures t) = Some (pk, sig)" for pk sig
    using find_SomeD [OF that] by simp
  then show ?thesis
    by (auto simp: check_signed_def Let_def split: option.splits if_splits)
qed

lemma check_signed_ok: "check_signed env s t = Inr t' \<Longrightarrow> signed_ok env s (SendRaw ep t')"
  by (auto simp: check_signed_iff dest: find_SomeD)

lemma signed_read [intro]: "is_read ev \<Longrightarrow> signed.safe env s (io_call ev a)"
  by (rule signed.safe_read)

lemma reads_safe: "emits m (\<lambda>r evs. list_all is_read evs) \<Longrightarrow> signed.safe env s m"
  unfolding signed.safe_def
  by (erule emits_mono) (auto simp: list_all_iff intro: signed.reads_ok)

lemma signed_fetch [intro]: "signed.safe env s (fetchNcnJson env' p url opts)"
  by (rule reads_safe, rule emits_mono [OF emits_fetch])
     (auto simp: bounded_def list_all_iff intro: ncn_event_read)

lemma signed_proofs [intro]:
  "signed.safe env s (getVoteAccountProof env' a n k u)" "signed.safe env s (getStakeAccountProof env' a n k u)"
  by (auto simp: getVoteAccountProof_def getStakeAccountProof_def)

lemma block_time_reads:
  "emits (block_time_loop env ep k tried c lt e)
     (\<lambda>r evs. list_all is_read evs \<and> length evs \<le> k)"
proof (induction k arbitrary: tried c lt e)
  case (Suc k)
  show ?case
    unfolding block_time_loop.simps
    by (rule emits_rules)+ (auto simp: Let_def split: sum.splits option.splits
        intro!: emits_rules Suc)
qed (auto intro: emits_rules)

lemma signed_close [intro]: "signed.safe env s (computeProofCloseTimestamp env' ep e)"
  unfolding computeProofCloseTimestamp_def blockTimeAtOrBefore_def
  by (intro signed.safe_bind signed_read signed.safe_return reads_safe emits_mono [OF block_time_reads]) auto

text \<open>The submission step of every builder: a transaction for \<open>signer\<close> is signed, checked, sent.\<close>

lemma signed_submit:
  assumes "tx_feePayer tx = signer"
  shows "signed.safe env signer (io_bind (signTransactionForWallet env w tx signer)
           (\<lambda>t. io_bind (io_lift (serialize env t)) (\<lambda>b. io_call (SendRaw ep t) (\<lambda>l. ans l t))))"
  unfolding signTransactionForWallet_def io_bind_assoc
  by (intro signed.safe_bind [OF signed.safe_call] signed.safe_bind_lift signed.safe_call)
     (use assms check_signed_ok in auto)

section \<open>Properties\<close>

text \<open>For every supporter count up to the program's cap the requested compute limit is the cost
  model with 15 percent headroom, rounded up and capped: at least the modelled cost (or the cap),
  at most the cap, and monotone in the count; a negative count is treated as zero.\<close>

theorem supportComputeUnitLimit_model:
  assumes "n \<le> 1000000"
  defines "cost \<equiv> \<lambda>k::int. 50500 + 132 * max 0 k"
  shows "supportComputeUnitLimit (inum n) = inum (min (- ((- (cost n * 115)) div 100)) 1400000) \<and>
         (\<forall>m\<le>n. supportComputeUnitLimit (inum m) \<le> supportComputeUnitLimit (inum n)) \<and>
         inum (min (cost n) 1400000) \<le> supportComputeUnitLimit (inum n)"
proof -
  have eq: "supportComputeUnitLimit (inum m) = inum (min (- ((- (cost m * 115)) div 100)) 1400000)"
    if "m \<le> 1000000" for m
  proof -
    have c: "0 \<le> max 0 m" "max 0 m \<le> 1000000" using that by auto
    have "inum 22500 + inum 132 * inum (max 0 m) + inum 28000 = inum (cost m)"
      using c by (simp add: js_arith cost_def)
    moreover have "inum (cost m) * (inum 100 + inum 15) = inum (cost m * 115)"
      using c by (simp add: js_arith cost_def)
    moreover have "\<bar>cost m * 115\<bar> \<le> 2 ^ 40" using c by (simp add: cost_def)
    ultimately show ?thesis
      by (simp add: supportComputeUnitLimit_def SUPPORT_CU_BASE_def SUPPORT_CU_PER_SUPPORTER_def
          SUPPORT_CU_ACTIVATION_def SUPPORT_CU_HEADROOM_PERCENT_def MAX_COMPUTE_UNIT_LIMIT_def js_int
          Let_def inum_div_ceil)
  qed
  have mono: "- ((- (cost m * 115)) div 100) \<le> - ((- (cost n * 115)) div 100)" if "m \<le> n" for m
    using that by (auto simp: cost_def intro!: zdiv_mono1)
  have "cost n \<le> - ((- (cost n * 115)) div 100)"
  proof -
    have "(- (cost n * 115)) div 100 \<le> (- (cost n * 100)) div 100"
      by (rule zdiv_mono1) (auto simp: cost_def)
    then show ?thesis by simp
  qed
  then show ?thesis using eq assms(1) mono [THEN min.mono [OF _ order_refl]] by (auto intro: min.mono)
qed

theorem supportComputeUnitLimit_model_witness:
  "supportComputeUnitLimit (inum 2000) = inum 361675"
  using supportComputeUnitLimit_model [of 2000] by simp

text \<open>The close timestamp of a proof on integer inputs: the projection at 400 ms per slot
  truncated toward zero, plus, for a proposal that is still open, a buffer of a fifth of the
  projected time and never less than an hour; an expired proposal gets no buffer and a time that is
  not after the reference block.\<close>

theorem close_estimate_exact:
  fixes absSlot idx ep len endEp refSlot refTime :: int
  assumes "0 \<le> idx" "idx \<le> absSlot" "absSlot \<le> 2 ^ 30" "0 \<le> ep" "0 \<le> endEp" "\<bar>endEp - ep\<bar> \<le> 2 ^ 10"
    and "0 \<le> len" "len \<le> 2 ^ 19" "0 \<le> refSlot" "refSlot \<le> 2 ^ 30" "\<bar>refTime\<bar> \<le> 2 ^ 40"
  defines "secs \<equiv> quot0 ((absSlot - idx + (endEp - ep) * len - refSlot) * 400) 1000"
  shows "close_estimate \<lparr>ei_absoluteSlot = inum absSlot, ei_slotIndex = inum idx, ei_epoch = inum ep,
             ei_slotsInEpoch = inum len\<rparr> (inum endEp) (inum refSlot, inum refTime) =
           inum (refTime + secs + (if 0 < secs then max (secs * 20 div 100) 3600 else 0)) \<and>
         (secs \<le> 0 \<longrightarrow> refTime + secs \<le> refTime)"
proof -
  let ?d = "absSlot - idx + (endEp - ep) * len - refSlot"
  have prod: "\<bar>(endEp - ep) * len\<bar> \<le> 2 ^ 29"
    using mult_mono [of "\<bar>endEp - ep\<bar>" "2 ^ 10" len "2 ^ 19"] assms by (simp add: abs_mult)
  then have d: "\<bar>?d\<bar> \<le> 2 ^ 31" using assms by (simp add: abs_le_iff)
  have s: "\<bar>secs\<bar> \<le> 2 ^ 30"
  proof -
    have "\<bar>secs\<bar> = \<bar>?d * 400\<bar> div 1000" unfolding secs_def by (rule quot0_abs) simp
    also have "\<dots> = \<bar>?d\<bar> * 400 div 1000" by (simp only: abs_mult abs_numeral)
    also have "\<dots> \<le> 2 ^ 31 * 400 div 1000" using d by (intro zdiv_mono1) auto
    finally show ?thesis by simp
  qed
  have t: "inum absSlot - inum idx + (inum endEp - inum ep) * inum len - inum refSlot = inum ?d"
    using assms(1-10) prod d by (simp add: js_arith abs_le_iff)
  have p: "math_trunc (inum ?d * inum 400 / inum 1000) = inum secs"
    using d by (simp add: js_arith abs_le_iff secs_def inum_div_trunc)
  have b: "math_trunc (inum secs * inum 20 / inum 100) = inum (secs * 20 div 100)" if "0 < secs"
    using s that by (simp add: js_arith abs_le_iff inum_div_trunc quot0_def)
  have q: "0 < secs \<Longrightarrow> secs * 20 div 100 \<le> 2 ^ 30" "0 < secs \<Longrightarrow> 0 \<le> secs * 20 div 100"
    using s by (auto simp: pos_imp_zdiv_nonneg_iff)
  show ?thesis
    using assms(11) s q b by (auto simp: close_estimate_def Let_def MS_PER_SLOT_def BUFFER_PCT_def
      MIN_BUFFER_SECONDS_def js_int t p js_arith abs_le_iff max_def)
qed

theorem close_estimate_exact_witness:
  "close_estimate \<lparr>ei_absoluteSlot = inum 1000, ei_slotIndex = inum 200, ei_epoch = inum 2,
     ei_slotsInEpoch = inum 432000\<rparr> (inum 3) (inum 999, inum 1700000000) = inum 1700207264"
  using close_estimate_exact [of 200 1000 2 3 432000 999 1700000000] by (simp add: quot0_def)

lemma block_time_slot:
  assumes "0 \<le> c" "c \<le> 2 ^ 52"
  shows "emits (block_time_loop env ep k tried (inum c) lt e)
     (\<lambda>r evs. length evs \<le> k \<and> (case r of Inl x \<Rightarrow> True
        | Inr (s, t) \<Rightarrow> \<exists>n. s = inum n \<and> 0 \<le> n \<and> n \<le> c \<and> c < n + int k))"
  using assms
proof (induction k arbitrary: tried c lt e)
  case 0
  then show ?case by (auto intro: emits_rules)
next
  case (Suc k)
  have next_slot: "math_max (Num 0) (inum c - Num 1) = inum (max 0 (c - 1))"
    using Suc.prems by (simp add: js_int js_arith)
  have IH: "emits (block_time_loop env ep k t (inum (max 0 (c - 1))) l x)
     (\<lambda>r evs. length (a # evs) \<le> Suc k \<and> (case r of Inl x \<Rightarrow> True
        | Inr (s, t) \<Rightarrow> \<exists>n. s = inum n \<and> 0 \<le> n \<and> n \<le> c \<and> c < n + int (Suc k)))"
    if "c \<noteq> 0" for t l x a
    by (rule emits_mono [OF Suc.IH]) (use Suc.prems that in \<open>auto split: sum.splits prod.splits\<close>)
  show ?case
    unfolding block_time_loop.simps next_slot
    by (rule emits_rules)+ (use Suc.prems IH in \<open>auto simp: Let_def js_int split: sum.splits option.splits
        intro!: emits_rules\<close>)
qed

text \<open>The walk over skipped slots always ends: it asks for at most eight block times, and a
  slot it returns is at or before the requested one, at most seven slots earlier and never
  negative.\<close>

theorem blockTimeAtOrBefore_bounds:
  assumes "0 \<le> slot" "slot \<le> 2 ^ 52"
  shows "\<exists>evs. snd (blockTimeAtOrBefore env ep (inum slot) l) = l @ evs \<and> length evs \<le> 8 \<and>
    (\<forall>s t. fst (blockTimeAtOrBefore env ep (inum slot) l) = Inr (s, t) \<longrightarrow>
       (\<exists>n. s = inum n \<and> 0 \<le> n \<and> n \<le> slot \<and> slot \<le> n + 7))"
proof -
  obtain evs where "snd (blockTimeAtOrBefore env ep (inum slot) l) = l @ evs" "length evs \<le> 8"
    "case fst (blockTimeAtOrBefore env ep (inum slot) l) of Inl x \<Rightarrow> True
        | Inr (s, t) \<Rightarrow> \<exists>n. s = inum n \<and> 0 \<le> n \<and> n \<le> slot \<and> slot < n + int 8"
    using block_time_slot [OF assms, of env ep 8 0 "inum slot" "JsError []"]
    unfolding emits_def blockTimeAtOrBefore_def by blast
  then show ?thesis by (intro exI [of _ evs]) (auto split: sum.splits)
qed

theorem blockTimeAtOrBefore_bounds_witness:
  "\<exists>evs. snd (blockTimeAtOrBefore (http_env answer_404) [] (inum 100) []) = evs \<and> length evs \<le> 8"
  using blockTimeAtOrBefore_bounds [of 100 "http_env answer_404" "[]" "[]"] by auto

text \<open>Basis points are accepted exactly when they sum to 10000 (on integers in the range the
  votes use, the integer sum), and a rejected distribution is reported, never corrected.\<close>

lemma validateVoteBasisPoints_iff:
  assumes "\<bar>f\<bar> \<le> 2 ^ 50" "\<bar>a\<bar> \<le> 2 ^ 50" "\<bar>b\<bar> \<le> 2 ^ 50"
  shows "(validateVoteBasisPoints (inum f) (inum a) (inum b) = Inr () \<longleftrightarrow> f + a + b = 10000) \<and>
         (f + a + b \<noteq> 10000 \<longrightarrow> (\<exists>m. validateVoteBasisPoints (inum f) (inum a) (inum b) = Inl (JsError m)))"
proof -
  have "inum f + inum a + inum b = inum (f + a + b)" using assms by (simp add: js_arith abs_le_iff)
  then show ?thesis by (simp add: validateVoteBasisPoints_def js_int Let_def)
qed

lemma buffer_from_hex_length: "length (buffer_from_hex s) \<le> length s div 2"
  by (induction s rule: buffer_from_hex.induct) (auto split: option.splits)

lemma buffer_from_hex_full:
  "\<forall>c\<in>set s. radix_digit c \<noteq> None \<Longrightarrow> length (buffer_from_hex s) = length s div 2"
  by (induction s rule: buffer_from_hex.induct) (auto split: option.splits)

text \<open>A merkle root of 64 characters is accepted even when they are not hexadecimal digits, and
  the bytes end at the first pair that is not: the 32 bytes the error message promises are
  guaranteed only for hexadecimal input.\<close>

theorem hexToBytes_length:
  assumes "hexToBytes hex = Inr bs"
  shows "length bs \<le> 32 \<and>
    ((\<forall>c\<in>set (if startsWith hex (js ''0x'') then drop 2 hex else hex). radix_digit c \<noteq> None) \<longrightarrow>
       length bs = 32) \<and>
    hexToBytes (replicate 64 122) = Inr []"
proof -
  let ?h = "if startsWith hex (js ''0x'') then drop 2 hex else hex"
  have h: "length ?h = 64" "bs = buffer_from_hex ?h"
    using assms by (auto simp: hexToBytes_def Let_def split: if_splits)
  have "hexToBytes (replicate 64 122) = Inr []"
    by (simp add: hexToBytes_def js_def numeral_eq_Suc radix_digit_def is_digit_def)
  then show ?thesis
    using h buffer_from_hex_length [of ?h] buffer_from_hex_full [of ?h] by simp
qed

theorem hexToBytes_length_witness:
  "hexToBytes (js ''0x'' @ replicate 64 48) = Inr (replicate 32 0) \<and> length (replicate 32 (0::nat)) \<le> 32"
proof -
  have "hexToBytes (js ''0x'' @ replicate 64 48) = Inr (replicate 32 0)"
    by (simp add: hexToBytes_def js_def numeral_eq_Suc radix_digit_def is_digit_def)
  with hexToBytes_length [OF this] show ?thesis by blast
qed

end
