(* ===== verification/Vote_Instructions.thy ===== *)
theory Vote_Instructions
  imports Chain_Helpers
begin

text \<open>
  The transaction builders that vote: \<open>castVote\<close>, \<open>modifyVote\<close>, \<open>castVoteOverride\<close> and
  \<open>modifyVoteOverride\<close> of \<open>frontend/src/chain/instructions/\<close>.  Each builder is an action over the
  events of \<open>Chain_Env\<close>: reads of the chain and of the verifier, requests to the wallet, and
  submissions.
\<close>

section \<open>Steps shared by the builders\<close>

definition wallet_not_connected :: js_error where
  "wallet_not_connected = JsError (js ''Wallet not connected'')"

definition with_wallet :: "wallet option \<Rightarrow> (wallet \<Rightarrow> pubkey \<Rightarrow> (event, 'a) io) \<Rightarrow> (event, 'a) io" where
  "with_wallet w k =
     (case w of None \<Rightarrow> io_throw wallet_not_connected
      | Some wl \<Rightarrow> (case w_publicKey wl of None \<Rightarrow> io_throw wallet_not_connected | Some pk \<Rightarrow> k wl pk))"

definition new_transaction :: "instruction list \<Rightarrow> pubkey \<Rightarrow> jsstr \<Rightarrow> transaction" where
  "new_transaction ixs payer blockhash =
     \<lparr>tx_instructions = ixs, tx_feePayer = payer, tx_recentBlockhash = blockhash, tx_signatures = []\<rparr>"

definition submit_transaction ::
  "chain_env \<Rightarrow> wallet \<Rightarrow> pubkey \<Rightarrow> jsstr \<Rightarrow> instruction list \<Rightarrow> (event, jsstr) io" where
  "submit_transaction env w signer ep ixs =
     io_bind (io_call (GetLatestBlockhash ep) (\<lambda>l. ans_blockhash env l ep)) (\<lambda>hash.
     io_bind (signTransactionForWallet env w (new_transaction ixs signer hash) signer) (\<lambda>tx.
     io_bind (io_lift (serialize env tx)) (\<lambda>raw.
       io_call (SendRaw ep tx) (\<lambda>l. ans_send env l ep tx))))"

definition success_result :: "jsstr \<Rightarrow> transaction_result" where
  "success_result sig = \<lparr>res_signature = sig, res_success = True, res_error = None\<rparr>"

definition find_vote_account :: "chain_env \<Rightarrow> pubkey \<Rightarrow> vote_account_info list \<Rightarrow> js_error + vote_account_info" where
  "find_vote_account env identity accounts =
     (case List.find (\<lambda>acc. va_nodePubkey acc = toBase58 env identity) accounts of
        None \<Rightarrow> Inl (JsError (js ''No SPL vote account found for validator identity '' @ toBase58 env identity))
      | Some acc \<Rightarrow> Inr acc)"

definition bn_of_str_or_num :: "chain_env \<Rightarrow> str_or_num \<Rightarrow> js_error + int" where
  "bn_of_str_or_num env x = (case x of SStr s \<Rightarrow> bn_of_string env s | SNum n \<Rightarrow> bn_of_number env n)"

definition build_ix :: "chain_env \<Rightarrow> instruction \<Rightarrow> js_error + instruction" where
  "build_ix env ix = res_bind (build_instruction env ix) (\<lambda>_. Inr ix)"

section \<open>castVote and modifyVote\<close>

datatype vote_kind = CastKind | ModifyKind

record vote_context =
  vc_program :: program
  vc_proposal :: pubkey
  vc_account :: proposal_account
  vc_splVoteAccount :: pubkey
  vc_votePda :: pubkey
  vc_cachePda :: "pubkey option"
  vc_govProgram :: program
  vc_proof :: vote_account_proof
  vc_metaPda :: pubkey

definition vote_prepare ::
  "vote_kind \<Rightarrow> chain_env \<Rightarrow> vote_params \<Rightarrow> blockchain_params \<Rightarrow> wallet \<Rightarrow> pubkey \<Rightarrow> pubkey \<Rightarrow>
   (event, vote_context) io" where
  "vote_prepare kind env p bp w signer consensus =
     io_bind (io_lift (validateVoteBasisPoints (vp_forVotesBp p) (vp_againstVotesBp p) (vp_abstainVotesBp p))) (\<lambda>_.
     io_bind (io_lift (new_PublicKey env (vp_proposalId p))) (\<lambda>proposal.
     io_bind (io_lift (createProgramWithWallet env w (Some (bp_endpoint bp)))) (\<lambda>prog.
     io_bind (io_call (FetchProposal (prog_endpoint prog) proposal)
                (\<lambda>l. ans_proposal env l (prog_endpoint prog) proposal)) (\<lambda>account.
     io_bind (io_lift (resolveProposalSnapshotSlot env (pr_snapshotSlot account))) (\<lambda>slot.
     io_bind (io_call (GetVoteAccounts (prog_endpoint prog))
                (\<lambda>l. ans_vote_accounts env l (prog_endpoint prog))) (\<lambda>accounts.
     io_bind (io_lift (find_vote_account env signer accounts)) (\<lambda>va.
     io_bind (io_lift (new_PublicKey env (va_votePubkey va))) (\<lambda>spl.
     io_bind (io_lift (deriveVotePda env proposal spl (prog_id prog))) (\<lambda>votePda.
     io_bind (case kind of
                CastKind \<Rightarrow> io_bind (io_lift (deriveVoteOverrideCachePda env proposal votePda (prog_id prog)))
                              (\<lambda>c. io_return (Some c))
              | ModifyKind \<Rightarrow> io_return None) (\<lambda>cache.
     io_bind (io_lift (createGovV1ProgramWithWallet env w (Some (bp_endpoint bp)))) (\<lambda>gov.
     io_bind (getVoteAccountProof env (va_votePubkey va) (bp_network bp) slot (bp_ncnApiUrl bp)) (\<lambda>proof.
     io_bind (io_lift (getMetaMerkleProofPda env proof (snapshot_program_id env) consensus)) (\<lambda>pda.
       io_return \<lparr>vc_program = prog, vc_proposal = proposal, vc_account = account,
         vc_splVoteAccount = spl, vc_votePda = votePda, vc_cachePda = cache, vc_govProgram = gov,
         vc_proof = proof, vc_metaPda = pda\<rparr>)))))))))))))"

definition init_meta_args ::
  "chain_env \<Rightarrow> vote_account_proof \<Rightarrow> js_error + meta_leaf \<times> nat list list" where
  "init_meta_args env proof =
     (let leaf = meta_merkle_leaf proof in
     res_bind (new_PublicKey env (mml_voting_wallet leaf)) (\<lambda>vw.
     res_bind (new_PublicKey env (mml_vote_account leaf)) (\<lambda>va.
     res_bind (new_PublicKey env (mml_stake_merkle_root leaf)) (\<lambda>root.
     res_bind (bn_of_str_or_num env (mml_active_stake leaf)) (\<lambda>stake.
     res_bind (convertMerkleProofStrings env (meta_merkle_proof proof)) (\<lambda>nodes.
       Inr (\<lparr>ml_votingWallet = vw, ml_voteAccount = va, ml_stakeMerkleRoot = pk_bytes root,
             ml_activeStake = stake\<rparr>, nodes)))))))"

definition init_meta_accounts :: "chain_env \<Rightarrow> pubkey \<Rightarrow> pubkey \<Rightarrow> pubkey \<Rightarrow> (string \<times> pubkey) list" where
  "init_meta_accounts env consensus pda payer =
     [(''consensusResult'', consensus), (''merkleProof'', pda), (''payer'', payer),
      (''systemProgram'', system_program_id env)]"

definition vote_init_instructions ::
  "chain_env \<Rightarrow> pubkey \<Rightarrow> pubkey \<Rightarrow> vote_context \<Rightarrow> (event, instruction list) io" where
  "vote_init_instructions env signer consensus ctx =
     (let ep = prog_endpoint (vc_program ctx) in
     io_bind (io_call (GetAccountInfo ep (vc_metaPda ctx))
                (\<lambda>l. ans_account_exists env l ep (vc_metaPda ctx))) (\<lambda>found.
       if found then io_return []
       else
         io_bind (io_lift (bn_toNumber env (pr_endEpoch (vc_account ctx)))) (\<lambda>endEpoch.
         io_bind (computeProofCloseTimestamp env ep endEpoch) (\<lambda>closeTimestamp.
         io_bind (io_lift (init_meta_args env (vc_proof ctx))) (\<lambda>(leaf, nodes).
         io_bind (io_lift (bn_of_number env closeTimestamp)) (\<lambda>close.
         io_bind (io_lift (build_ix env
                    (ProgramIx (prog_id (vc_govProgram ctx)) (InitMetaMerkleProofIx leaf nodes close)
                       (init_meta_accounts env consensus (vc_metaPda ctx) signer)))) (\<lambda>ix.
           io_return [ix])))))))"

definition vote_instruction ::
  "vote_kind \<Rightarrow> chain_env \<Rightarrow> vote_params \<Rightarrow> pubkey \<Rightarrow> pubkey \<Rightarrow> vote_context \<Rightarrow> js_error + instruction" where
  "vote_instruction kind env p signer consensus ctx =
     res_bind (bn_of_number env (vp_forVotesBp p)) (\<lambda>f.
     res_bind (bn_of_number env (vp_againstVotesBp p)) (\<lambda>a.
     res_bind (bn_of_number env (vp_abstainVotesBp p)) (\<lambda>b.
       build_ix env
         (ProgramIx (prog_id (vc_program ctx))
            (case kind of CastKind \<Rightarrow> CastVoteIx f a b | ModifyKind \<Rightarrow> ModifyVoteIx f a b)
            ([(''signer'', signer), (''proposal'', vc_proposal ctx), (''vote'', vc_votePda ctx),
              (''splVoteAccount'', vc_splVoteAccount ctx), (''snapshotProgram'', snapshot_program_id env),
              (''consensusResult'', consensus), (''metaMerkleProof'', vc_metaPda ctx),
              (''systemProgram'', system_program_id env)]
             @ (case vc_cachePda ctx of None \<Rightarrow> [] | Some c \<Rightarrow> [(''voteOverrideCache'', c)]))))))"

definition vote_flow ::
  "vote_kind \<Rightarrow> chain_env \<Rightarrow> vote_params \<Rightarrow> blockchain_params \<Rightarrow> (event, transaction_result) io" where
  "vote_flow kind env p bp =
     with_wallet (vp_wallet p) (\<lambda>w signer.
       case vp_consensusResult p of
         None \<Rightarrow> io_throw (JsError (js ''Consensus result not defined''))
       | Some consensus \<Rightarrow>
           io_bind (vote_prepare kind env p bp w signer consensus) (\<lambda>ctx.
           io_bind (vote_init_instructions env signer consensus ctx) (\<lambda>init.
           io_bind (io_lift (vote_instruction kind env p signer consensus ctx)) (\<lambda>ix.
           io_bind (submit_transaction env w signer (prog_endpoint (vc_program ctx)) (init @ [ix])) (\<lambda>sig.
             io_return (success_result sig))))))"

definition castVote :: "chain_env \<Rightarrow> vote_params \<Rightarrow> blockchain_params \<Rightarrow> (event, transaction_result) io" where
  "castVote env p bp = vote_flow CastKind env p bp"

definition modifyVote :: "chain_env \<Rightarrow> vote_params \<Rightarrow> blockchain_params \<Rightarrow> (event, transaction_result) io" where
  "modifyVote env p bp = vote_flow ModifyKind env p bp"

section \<open>castVoteOverride and modifyVoteOverride\<close>

record override_context =
  oc_program :: program
  oc_proposal :: pubkey
  oc_account :: proposal_account
  oc_stakeAccount :: pubkey
  oc_stakeProof :: stake_account_proof
  oc_splVoteAccount :: pubkey
  oc_metaProof :: vote_account_proof
  oc_metaPda :: pubkey

definition override_network :: "vote_kind \<Rightarrow> blockchain_params \<Rightarrow> jsstr" where
  "override_network kind bp =
     (case kind of CastKind \<Rightarrow> bp_network bp
      | ModifyKind \<Rightarrow> if bp_network bp \<noteq> [] then bp_network bp else js ''mainnet'')"

definition override_proofs ::
  "chain_env \<Rightarrow> jsstr \<Rightarrow> jsstr \<Rightarrow> number \<Rightarrow> jsstr option \<Rightarrow>
   (event, stake_account_proof \<times> pubkey \<times> vote_account_proof) io" where
  "override_proofs env stakeAccount network slot api =
     io_bind (getStakeAccountProof env stakeAccount network slot api) (\<lambda>stakeProof.
     io_bind (io_lift (resolveSnapshotVoteAccount env stakeProof)) (\<lambda>spl.
     io_bind (getVoteAccountProof env (toBase58 env spl) network slot api) (\<lambda>metaProof.
     io_bind (io_lift (assertOverrideProofLineage stakeProof metaProof)) (\<lambda>_.
       io_return (stakeProof, spl, metaProof)))))"

definition override_prepare ::
  "vote_kind \<Rightarrow> chain_env \<Rightarrow> vote_override_params \<Rightarrow> blockchain_params \<Rightarrow> wallet \<Rightarrow> pubkey \<Rightarrow>
   (event, override_context) io" where
  "override_prepare kind env p bp w consensus =
     io_bind (io_lift (validateVoteBasisPoints (op_forVotesBp p) (op_againstVotesBp p) (op_abstainVotesBp p))) (\<lambda>_.
     io_bind (io_lift (new_PublicKey env (op_proposalId p))) (\<lambda>proposal.
     io_bind (io_lift (createProgramWithWallet env w (Some (bp_endpoint bp)))) (\<lambda>prog.
     io_bind (io_call (FetchProposal (prog_endpoint prog) proposal)
                (\<lambda>l. ans_proposal env l (prog_endpoint prog) proposal)) (\<lambda>account.
     io_bind (io_lift (resolveProposalSnapshotSlot env (pr_snapshotSlot account))) (\<lambda>slot.
     io_bind (io_lift (new_PublicKey env (op_stakeAccount p))) (\<lambda>stake.
     io_bind (override_proofs env (op_stakeAccount p) (override_network kind bp) slot (bp_ncnApiUrl bp))
       (\<lambda>(stakeProof, spl, metaProof).
     io_bind (io_lift (getMetaMerkleProofPda env metaProof (snapshot_program_id env) consensus)) (\<lambda>pda.
       io_return \<lparr>oc_program = prog, oc_proposal = proposal, oc_account = account,
         oc_stakeAccount = stake, oc_stakeProof = stakeProof, oc_splVoteAccount = spl,
         oc_metaProof = metaProof, oc_metaPda = pda\<rparr>))))))))"

definition override_init_args ::
  "chain_env \<Rightarrow> vote_account_proof \<Rightarrow> nat list \<Rightarrow> js_error + meta_leaf" where
  "override_init_args env proof rootBytes =
     (let leaf = meta_merkle_leaf proof in
     res_bind (new_PublicKey env (mml_voting_wallet leaf)) (\<lambda>vw.
     res_bind (new_PublicKey env (mml_vote_account leaf)) (\<lambda>va.
     res_bind (bn_of_string env (template_str (mml_active_stake leaf))) (\<lambda>stake.
       Inr \<lparr>ml_votingWallet = vw, ml_voteAccount = va, ml_stakeMerkleRoot = rootBytes, ml_activeStake = stake\<rparr>))))"

text \<open>The separate transaction that creates and confirms the meta merkle proof.\<close>

definition override_init ::
  "chain_env \<Rightarrow> blockchain_params \<Rightarrow> wallet \<Rightarrow> pubkey \<Rightarrow> pubkey \<Rightarrow> override_context \<Rightarrow> (event, unit) io" where
  "override_init env bp w signer consensus ctx =
     (let ep = prog_endpoint (oc_program ctx) in
     io_bind (io_lift (createGovV1ProgramWithWallet env w (Some (bp_endpoint bp)))) (\<lambda>gov.
     io_bind (io_lift (new_PublicKey env (mml_stake_merkle_root (meta_merkle_leaf (oc_metaProof ctx))))) (\<lambda>root.
     io_bind (io_lift (convertMerkleProofStrings env (meta_merkle_proof (oc_metaProof ctx)))) (\<lambda>nodes.
     io_bind (io_lift (bn_toNumber env (pr_endEpoch (oc_account ctx)))) (\<lambda>endEpoch.
     io_bind (computeProofCloseTimestamp env ep endEpoch) (\<lambda>closeTimestamp.
     io_bind (io_lift (override_init_args env (oc_metaProof ctx) (pk_bytes root))) (\<lambda>leaf.
     io_bind (io_lift (bn_of_number env closeTimestamp)) (\<lambda>close.
     io_bind (io_lift (build_ix env
                (ProgramIx (prog_id gov) (InitMetaMerkleProofIx leaf nodes close)
                   (init_meta_accounts env consensus (oc_metaPda ctx) signer)))) (\<lambda>ix.
     io_bind (io_call (GetLatestBlockhash ep) (\<lambda>l. ans_blockhash env l ep)) (\<lambda>hash.
     io_bind (signTransactionForWallet env w (new_transaction [ix] signer hash) signer) (\<lambda>tx.
     io_bind (io_lift (serialize env tx)) (\<lambda>raw.
     io_bind (io_call (SendRaw ep tx) (\<lambda>l. ans_send env l ep tx)) (\<lambda>sig.
     io_bind (io_call (Confirm ep sig hash) (\<lambda>l. ans_confirm env l ep sig)) (\<lambda>confirmation.
       (case confirmation of
          Some err \<Rightarrow> io_throw (JsError (js ''Failed to initialize meta merkle proof: '' @ err))
        | None \<Rightarrow> io_return ())))))))))))))))"

definition override_instruction ::
  "vote_kind \<Rightarrow> chain_env \<Rightarrow> vote_override_params \<Rightarrow> pubkey \<Rightarrow> pubkey \<Rightarrow> override_context \<Rightarrow>
   js_error + instruction" where
  "override_instruction kind env p signer consensus ctx =
     (let prog = prog_id (oc_program ctx) in
     res_bind (convertMerkleProofStrings env (stake_merkle_proof (oc_stakeProof ctx))) (\<lambda>nodes.
     res_bind (convertStakeMerkleLeafDataToIdlType env (stake_merkle_leaf (oc_stakeProof ctx))) (\<lambda>leaf.
     res_bind (bn_of_number env (op_forVotesBp p)) (\<lambda>f.
     res_bind (bn_of_number env (op_againstVotesBp p)) (\<lambda>a.
     res_bind (bn_of_number env (op_abstainVotesBp p)) (\<lambda>b.
     res_bind (deriveVotePda env (oc_proposal ctx) (oc_splVoteAccount ctx) prog) (\<lambda>votePda.
     res_bind (deriveVoteOverridePda env (oc_proposal ctx) (oc_stakeAccount ctx) votePda prog) (\<lambda>overridePda.
     res_bind (deriveVoteOverrideCachePda env (oc_proposal ctx) votePda prog) (\<lambda>cachePda.
       build_ix env
         (ProgramIx prog
            (case kind of CastKind \<Rightarrow> CastVoteOverrideIx f a b nodes leaf
             | ModifyKind \<Rightarrow> ModifyVoteOverrideIx f a b nodes leaf)
            [(''signer'', signer), (''splVoteAccount'', oc_splVoteAccount ctx),
             (''splStakeAccount'', oc_stakeAccount ctx), (''proposal'', oc_proposal ctx),
             (''consensusResult'', consensus), (''metaMerkleProof'', oc_metaPda ctx),
             (''snapshotProgram'', snapshot_program_id env), (''systemProgram'', system_program_id env),
             (''voteOverride'', overridePda), (''voteOverrideCache'', cachePda),
             (''validatorVote'', votePda)]))))))))))"

definition override_flow ::
  "vote_kind \<Rightarrow> chain_env \<Rightarrow> vote_override_params \<Rightarrow> blockchain_params \<Rightarrow> (event, transaction_result) io" where
  "override_flow kind env p bp =
     with_wallet (op_wallet p) (\<lambda>w signer.
       case op_consensusResult p of
         None \<Rightarrow> io_throw (JsError (js ''Consensus result not defined''))
       | Some consensus \<Rightarrow>
           io_bind (override_prepare kind env p bp w consensus) (\<lambda>ctx.
           let ep = prog_endpoint (oc_program ctx) in
           io_bind (io_call (GetAccountInfo ep (oc_metaPda ctx))
                      (\<lambda>l. ans_account_exists env l ep (oc_metaPda ctx))) (\<lambda>found.
           io_bind (if found then io_return () else override_init env bp w signer consensus ctx) (\<lambda>_.
           io_bind (io_lift (override_instruction kind env p signer consensus ctx)) (\<lambda>ix.
           io_bind (submit_transaction env w signer ep [ix]) (\<lambda>sig.
             io_return (success_result sig)))))))"

definition castVoteOverride ::
  "chain_env \<Rightarrow> vote_override_params \<Rightarrow> blockchain_params \<Rightarrow> (event, transaction_result) io" where
  "castVoteOverride env p bp = override_flow CastKind env p bp"

definition modifyVoteOverride ::
  "chain_env \<Rightarrow> vote_override_params \<Rightarrow> blockchain_params \<Rightarrow> (event, transaction_result) io" where
  "modifyVoteOverride env p bp = override_flow ModifyKind env p bp"

section \<open>Every submission is signed by the wallet's account\<close>

lemmas signed_intros = signed.safe_return signed.safe_throw signed.safe_lift signed.safe_bind_lift
  signed.safe_bind signed.safe_if signed.safe_option signed.safe_split signed_proofs signed_close signed_read

lemma signed_submit_transaction: "signed.safe env signer (submit_transaction env w signer ep ixs)"
  unfolding submit_transaction_def
  by (rule signed.safe_bind, rule signed_read, simp, rule signed_submit) (simp add: new_transaction_def)

lemma signed_vote_prepare: "signed.safe env signer (vote_prepare kind env p bp w s c)"
  unfolding vote_prepare_def by (cases kind; simp; (rule signed_intros | simp)+)

lemma signed_vote_init: "signed.safe env signer (vote_init_instructions env s c ctx)"
  unfolding vote_init_instructions_def Let_def by (rule signed_intros | simp)+

lemma signed_override_prepare: "signed.safe env signer (override_prepare kind env p bp w c)"
  unfolding override_prepare_def override_proofs_def by (rule signed_intros | simp)+

lemma signed_sign:
  assumes "tx_feePayer tx = signer" "\<And>t. signed_ok env signer (SendRaw [] t) \<Longrightarrow> signed.safe env signer (f t)"
  shows "signed.safe env signer (io_bind (signTransactionForWallet env w tx signer) f)"
  unfolding signTransactionForWallet_def io_bind_assoc
  by (intro signed.safe_bind [OF signed.safe_call] signed.safe_bind_lift) (use assms check_signed_ok in auto)

lemma signed_override_init: "signed.safe env signer (override_init env bp w signer c ctx)"
  unfolding override_init_def Let_def
  by (rule signed_sign signed_intros signed.safe_call | simp add: new_transaction_def)+

lemma signed_with_wallet:
  "w = Some wl \<Longrightarrow> w_publicKey wl = Some signer \<Longrightarrow> signed.safe env signer (k wl signer) \<Longrightarrow>
   signed.safe env signer (with_wallet w k)"
  by (simp add: with_wallet_def)

lemma signed_vote_flow:
  "vp_wallet p = Some w \<Longrightarrow> w_publicKey w = Some signer \<Longrightarrow> signed.safe env signer (vote_flow kind env p bp)"
  unfolding vote_flow_def
  by (erule (1) signed_with_wallet)
     (rule signed_intros signed_vote_prepare signed_vote_init signed_submit_transaction | simp)+

lemma signed_override_flow:
  "op_wallet p = Some w \<Longrightarrow> w_publicKey w = Some signer \<Longrightarrow> signed.safe env signer (override_flow kind env p bp)"
  unfolding override_flow_def Let_def
  by (erule (1) signed_with_wallet)
     (rule signed_intros signed_override_prepare signed_override_init signed_submit_transaction | simp)+

section \<open>Submissions and their order\<close>

text \<open>The events that reach the chain or wait for it.\<close>

fun is_submission :: "event \<Rightarrow> bool" where
  "is_submission (SendRaw ep t) = True"
| "is_submission (Confirm ep s h) = True"
| "is_submission (AnchorRpc ep i) = True"
| "is_submission _ = False"

definition submissions :: "log \<Rightarrow> log" where
  "submissions evs = filter is_submission evs"

lemma submissions_simps [simp]:
  "submissions [] = []" "submissions (a @ b) = submissions a @ submissions b"
  "submissions (e # evs) = (if is_submission e then e # submissions evs else submissions evs)"
  by (simp_all add: submissions_def)

interpretation quiet: event_safety "\<lambda>e. \<not> is_submission e" "\<lambda>e. \<not> is_submission e"
  by unfold_locales

lemma submissions_quiet: "list_all (\<lambda>e. \<not> is_submission e) evs \<Longrightarrow> submissions evs = []"
  by (auto simp: submissions_def list_all_iff)

lemma quiet_run: "quiet.safe m \<Longrightarrow> m l = (r, l') \<Longrightarrow> \<exists>evs. l' = l @ evs \<and> submissions evs = []"
  using quiet.safeD submissions_quiet by blast

lemma quiet_fetch: "quiet.safe (fetchNcnJson env p url opts)"
proof (rule quiet.safe_emits)
  show "emits (fetchNcnJson env p url opts) (\<lambda>r evs. list_all (ncn_event url) evs)"
    by (rule emits_mono [OF emits_fetch]) (simp add: bounded_def)
  show "ncn_event url e \<Longrightarrow> \<not> is_submission e" for e by (cases e) auto
qed

lemma quiet_proofs: "quiet.safe (getVoteAccountProof env a n k u)" "quiet.safe (getStakeAccountProof env a n k u)"
  by (simp_all add: getVoteAccountProof_def getStakeAccountProof_def quiet_fetch)

lemma quiet_block_time: "quiet.safe (block_time_loop env ep k tried c lt e)"
proof (induction k arbitrary: tried c lt e)
  case (Suc k)
  show ?case
    unfolding block_time_loop.simps
    by (intro quiet.safe_bind quiet.safe_call)
       (auto simp: Let_def split: sum.splits option.splits intro: quiet.safe_rules Suc)
qed (simp add: quiet.safe_throw)

lemmas quiet_intros = quiet.safe_return quiet.safe_throw quiet.safe_lift quiet.safe_bind_lift
  quiet.safe_bind quiet.safe_if quiet.safe_option quiet.safe_split quiet_proofs quiet_block_time quiet.safe_call

lemma quiet_close: "quiet.safe (computeProofCloseTimestamp env ep e)"
  unfolding computeProofCloseTimestamp_def blockTimeAtOrBefore_def by (rule quiet_intros | simp)+

lemma quiet_sign: "quiet.safe (signTransactionForWallet env w tx s)"
  unfolding signTransactionForWallet_def by (rule quiet_intros | simp)+

lemma quiet_vote_prepare: "quiet.safe (vote_prepare kind env p bp w s c)"
  unfolding vote_prepare_def by (cases kind; simp; (rule quiet_intros | simp)+)

lemma quiet_vote_init: "quiet.safe (vote_init_instructions env s c ctx)"
  unfolding vote_init_instructions_def Let_def by (rule quiet_close quiet_intros | simp)+

lemma quiet_override_prepare: "quiet.safe (override_prepare kind env p bp w c)"
  unfolding override_prepare_def override_proofs_def by (rule quiet_intros | simp)+

lemma with_wallet_success:
  "with_wallet w k l = (Inr r, l') \<longleftrightarrow> (\<exists>wl pk. w = Some wl \<and> w_publicKey wl = Some pk \<and> k wl pk l = (Inr r, l'))"
  by (auto simp: with_wallet_def io_run_iff split: option.splits)

text \<open>What a successful submission did: the wallet was asked to sign exactly the instructions for
  the signer, and the transaction it returned, which passed the check, is what was sent.\<close>

lemma submit_success:
  assumes "submit_transaction env w signer ep ixs l = (Inr sig, l')"
  shows "\<exists>hash t.
    l' = l @ [GetLatestBlockhash ep, SignRequest (new_transaction ixs signer hash), SendRaw ep t] \<and>
    w_signTransaction w (l @ [GetLatestBlockhash ep]) (new_transaction ixs signer hash) = Inr t \<and>
    signed_ok env signer (SendRaw ep t)"
proof -
  from assms obtain hash t t' where
    "w_signTransaction w (l @ [GetLatestBlockhash ep]) (new_transaction ixs signer hash) = Inr t'"
    "check_signed env signer t' = Inr t"
    "l' = l @ [GetLatestBlockhash ep, SignRequest (new_transaction ixs signer hash), SendRaw ep t]"
    unfolding submit_transaction_def signTransactionForWallet_def by (auto simp: io_success)
  moreover from this(2) have "t = t'" "signed_ok env signer (SendRaw ep t)"
    by (auto simp: check_signed_iff dest: find_SomeD)
  ultimately show ?thesis by blast
qed

lemma override_init_success:
  assumes "override_init env bp w signer c ctx l = (Inr u, l')"
  defines "ep \<equiv> prog_endpoint (oc_program ctx)"
  shows "\<exists>evs t sig hash. l' = l @ evs @ [SendRaw ep t, Confirm ep sig hash] \<and> submissions evs = [] \<and>
    ans_confirm env (l @ evs @ [SendRaw ep t]) ep sig = Inr None \<and> signed_ok env signer (SendRaw ep t)"
proof -
  from assms(1) obtain endEpoch ct k ix hash t' t sig where
    c: "computeProofCloseTimestamp env ep endEpoch l = (Inr ct, k)" and
    k: "check_signed env signer t' = Inr t"
      "ans_confirm env (k @ [GetLatestBlockhash ep, SignRequest (new_transaction [ix] signer hash), SendRaw ep t])
         ep sig = Inr None"
      "l' = k @ [GetLatestBlockhash ep, SignRequest (new_transaction [ix] signer hash), SendRaw ep t,
         Confirm ep sig hash]"
    unfolding override_init_def Let_def signTransactionForWallet_def ep_def [symmetric]
    by (auto simp: io_success split: option.splits)
  obtain evs0 where e: "k = l @ evs0" "submissions evs0 = []" using quiet_run [OF quiet_close c] by blast
  let ?evs = "evs0 @ [GetLatestBlockhash ep, SignRequest (new_transaction [ix] signer hash)]"
  show ?thesis
    by (rule exI [of _ ?evs]) (use k e check_signed_ok [OF k(1)] in \<open>auto simp del: signed_ok.simps\<close>)
qed

lemma vote_flow_success:
  assumes "vote_flow kind env p bp l = (Inr res, l')"
  shows "\<exists>w signer consensus ctx init ix evs hash t.
    vp_wallet p = Some w \<and> w_publicKey w = Some signer \<and> vp_consensusResult p = Some consensus \<and>
    vote_instruction kind env p signer consensus ctx = Inr ix \<and> length init \<le> 1 \<and>
    l' = l @ evs @ [SignRequest (new_transaction (init @ [ix]) signer hash),
                    SendRaw (prog_endpoint (vc_program ctx)) t] \<and>
    submissions evs = [] \<and> signed_ok env signer (SendRaw (prog_endpoint (vc_program ctx)) t) \<and>
    validateVoteBasisPoints (vp_forVotesBp p) (vp_againstVotesBp p) (vp_abstainVotesBp p) = Inr () \<and>
    res_success res"
proof -
  from assms obtain w signer consensus ctx k1 init k2 ix sig where
    w: "vp_wallet p = Some w" "w_publicKey w = Some signer" "vp_consensusResult p = Some consensus" and
    prep: "vote_prepare kind env p bp w signer consensus l = (Inr ctx, k1)" and
    init: "vote_init_instructions env signer consensus ctx k1 = (Inr init, k2)" and
    ix: "vote_instruction kind env p signer consensus ctx = Inr ix" and
    sub: "submit_transaction env w signer (prog_endpoint (vc_program ctx)) (init @ [ix]) k2 = (Inr sig, l')" and
    res: "res = success_result sig"
    unfolding vote_flow_def with_wallet_success by (auto simp: io_success split: option.splits)
  obtain e1 where e1: "k1 = l @ e1" "submissions e1 = []" using quiet_run [OF quiet_vote_prepare prep] by blast
  obtain e2 where e2: "k2 = k1 @ e2" "submissions e2 = []" using quiet_run [OF quiet_vote_init init] by blast
  obtain hash t where t: "l' = k2 @ [GetLatestBlockhash (prog_endpoint (vc_program ctx)),
      SignRequest (new_transaction (init @ [ix]) signer hash), SendRaw (prog_endpoint (vc_program ctx)) t]"
    "signed_ok env signer (SendRaw (prog_endpoint (vc_program ctx)) t)"
    using submit_success [OF sub] by blast
  have v: "validateVoteBasisPoints (vp_forVotesBp p) (vp_againstVotesBp p) (vp_abstainVotesBp p) = Inr ()"
    using prep unfolding vote_prepare_def by (auto simp: io_bind_Inr_iff io_run_iff)
  have "length init \<le> 1" using init unfolding vote_init_instructions_def
    by (auto simp: io_success Let_def split: if_splits prod.splits)
  moreover let ?evs = "e1 @ e2 @ [GetLatestBlockhash (prog_endpoint (vc_program ctx))]"
  have "l' = l @ ?evs @ [SignRequest (new_transaction (init @ [ix]) signer hash),
                    SendRaw (prog_endpoint (vc_program ctx)) t]" "submissions ?evs = []"
    using t(1) e1 e2 by simp_all
  ultimately show ?thesis using w ix t(2) v res by (simp only: success_result_def transaction_result.simps) blast
qed

lemma override_flow_success:
  assumes "override_flow kind env p bp l = (Inr res, l')"
  shows "\<exists>w signer ep evs t. op_wallet p = Some w \<and> w_publicKey w = Some signer \<and> l' = l @ evs \<and>
    signed_ok env signer (SendRaw ep t) \<and>
    (submissions evs = [SendRaw ep t] \<or>
     (\<exists>ti sig hash k rest. submissions evs = [SendRaw ep ti, Confirm ep sig hash, SendRaw ep t] \<and>
        signed_ok env signer (SendRaw ep ti) \<and> l' = k @ Confirm ep sig hash # rest \<and>
        ans_confirm env k ep sig = Inr None))"
proof -
  from assms obtain w signer consensus ctx k1 found k2 ix sig where
    w: "op_wallet p = Some w" "w_publicKey w = Some signer" and
    prep: "override_prepare kind env p bp w consensus l = (Inr ctx, k1)" and
    init: "(if found then io_return () else override_init env bp w signer consensus ctx)
       (k1 @ [GetAccountInfo (prog_endpoint (oc_program ctx)) (oc_metaPda ctx)]) = (Inr (), k2)" and
    sub: "submit_transaction env w signer (prog_endpoint (oc_program ctx)) [ix] k2 = (Inr sig, l')"
    unfolding override_flow_def with_wallet_success by (auto simp: io_success Let_def split: option.splits)
  let ?ep = "prog_endpoint (oc_program ctx)"
  obtain e1 where e1: "k1 = l @ e1" "submissions e1 = []"
    using quiet_run [OF quiet_override_prepare prep] by blast
  obtain hash t where t: "l' = k2 @ [GetLatestBlockhash ?ep,
      SignRequest (new_transaction [ix] signer hash), SendRaw ?ep t]" "signed_ok env signer (SendRaw ?ep t)"
    using submit_success [OF sub] by blast
  show ?thesis
  proof (cases found)
    case True
    then have "k2 = k1 @ [GetAccountInfo ?ep (oc_metaPda ctx)]" using init by (simp add: io_run_iff)
    then have "l' = l @ (e1 @ [GetAccountInfo ?ep (oc_metaPda ctx), GetLatestBlockhash ?ep,
        SignRequest (new_transaction [ix] signer hash), SendRaw ?ep t])" using t(1) e1(1) by simp
    then show ?thesis using w t(2) e1(2) by (intro exI conjI) (assumption | simp)+
  next
    case False
    let ?k1 = "k1 @ [GetAccountInfo ?ep (oc_metaPda ctx)]"
    from False have "override_init env bp w signer consensus ctx ?k1 = (Inr (), k2)" using init by simp
    from override_init_success [OF this] obtain e2 ti si h where
      i: "k2 = ?k1 @ e2 @ [SendRaw ?ep ti, Confirm ?ep si h]" "submissions e2 = []"
        "ans_confirm env (?k1 @ e2 @ [SendRaw ?ep ti]) ?ep si = Inr None" "signed_ok env signer (SendRaw ?ep ti)"
      by blast
    let ?tail = "[GetLatestBlockhash ?ep, SignRequest (new_transaction [ix] signer hash), SendRaw ?ep t]"
    let ?evs = "e1 @ [GetAccountInfo ?ep (oc_metaPda ctx)] @ e2 @ [SendRaw ?ep ti, Confirm ?ep si h] @ ?tail"
    have "l' = l @ ?evs" "submissions ?evs = [SendRaw ?ep ti, Confirm ?ep si h, SendRaw ?ep t]"
      "l' = (?k1 @ e2 @ [SendRaw ?ep ti]) @ Confirm ?ep si h # ?tail"
      using t(1) e1 i(1,2) by simp_all
    then show ?thesis using w t(2) i(3,4) by blast
  qed
qed

section \<open>Proofs are requested at the proposal's snapshot\<close>

fun slot_ok :: "number \<Rightarrow> event \<Rightarrow> bool" where
  "slot_ok slot (HttpGet u) = endsWith u (js ''&slot='' @ number_to_string slot)"
| "slot_ok slot _ = True"

interpretation at_slot: event_safety "\<lambda>e. \<not> is_request e" "slot_ok slot" for slot
  by unfold_locales (auto elim: is_request.elims)

lemma at_slot_proofs:
  "at_slot.safe slot (getVoteAccountProof env a n slot u)" "at_slot.safe slot (getStakeAccountProof env a n slot u)"
proof -
  have f: "at_slot.safe slot (fetchNcnJson env d (proof_url b k a n slot) opts)"
    for d :: "jsstr \<Rightarrow> js_error + 'z" and b k a opts
  proof (rule at_slot.safe_emits)
    show "emits (fetchNcnJson env d (proof_url b k a n slot) opts)
        (\<lambda>r evs. list_all (ncn_event (proof_url b k a n slot)) evs)"
      by (rule emits_mono [OF emits_fetch]) (simp add: bounded_def)
    have "endsWith (proof_url b k a n slot) (js ''&slot='' @ number_to_string slot)"
      by (simp add: proof_url_def endsWith_iff)
    then show "ncn_event (proof_url b k a n slot) e \<Longrightarrow> slot_ok slot e" for e by (cases e) auto
  qed
  show "at_slot.safe slot (getVoteAccountProof env a n slot u)" "at_slot.safe slot (getStakeAccountProof env a n slot u)"
    by (simp_all add: getVoteAccountProof_def getStakeAccountProof_def f)
qed

lemma at_slot_quiet: "emits m (\<lambda>r evs. list_all (\<lambda>e. \<not> is_request e) evs) \<Longrightarrow> at_slot.safe slot m"
  by (erule at_slot.safe_emits) (rule at_slot.reads_ok)

interpretation offline: event_safety "\<lambda>e. \<not> is_request e" "\<lambda>e. \<not> is_request e"
  by unfold_locales

lemma offline_at_slot: "offline.safe m \<Longrightarrow> at_slot.safe slot m"
  unfolding offline.safe_def by (rule at_slot_quiet)

lemmas offline_intros = offline.safe_return offline.safe_throw offline.safe_lift offline.safe_bind_lift
  offline.safe_bind offline.safe_if offline.safe_option offline.safe_split offline.safe_call

lemma offline_block_time: "offline.safe (block_time_loop env ep k tried c lt e)"
proof (induction k arbitrary: tried c lt e)
  case (Suc k)
  show ?case
    unfolding block_time_loop.simps
    by (intro offline.safe_bind offline.safe_call)
       (auto simp: Let_def split: sum.splits option.splits intro: offline.safe_rules Suc)
qed (simp add: offline.safe_throw)

lemma offline_close: "offline.safe (computeProofCloseTimestamp env ep e)"
  unfolding computeProofCloseTimestamp_def blockTimeAtOrBefore_def
  by (rule offline_block_time offline_intros | simp)+

lemma offline_tail:
  "offline.safe (override_init env bp w signer c ctx)" "offline.safe (submit_transaction env w signer ep ixs)"
  "offline.safe (vote_init_instructions env signer c vctx)"
  unfolding override_init_def submit_transaction_def vote_init_instructions_def signTransactionForWallet_def Let_def
  by (rule offline_close offline_intros | simp)+

lemma at_slot_step:
  assumes "a l = Inr x" "slot_ok slot ev" "at_slot.safe slot (f x)"
  shows "\<exists>evs. snd (io_bind (io_call ev a) f l) = l @ evs \<and> list_all (slot_ok slot) evs"
proof -
  obtain evs where "snd (f x (l @ [ev])) = (l @ [ev]) @ evs" "list_all (slot_ok slot) evs"
    using at_slot.safe_runD [OF assms(3)] by blast
  then show ?thesis
    using assms(1,2) by (intro exI [of _ "ev # evs"]) (simp add: io_bind_call_run)
qed

lemmas at_slot_intros = at_slot.safe_return at_slot.safe_throw at_slot.safe_lift at_slot.safe_bind_lift
  at_slot.safe_bind at_slot.safe_if at_slot.safe_option at_slot.safe_split at_slot_proofs
  offline_tail [THEN offline_at_slot] at_slot.safe_read

lemma override_proofs_slot: "at_slot.safe slot (override_proofs env a n slot u)"
  unfolding override_proofs_def by (rule at_slot_intros | simp)+

lemma override_flow_slot:
  assumes "op_wallet p = Some w" "w_publicKey w = Some signer" "op_consensusResult p = Some consensus"
    and "validateVoteBasisPoints (op_forVotesBp p) (op_againstVotesBp p) (op_abstainVotesBp p) = Inr ()"
    and "new_PublicKey env (op_proposalId p) = Inr proposal"
    and "createProgramWithWallet env w (Some (bp_endpoint bp)) = Inr prog"
    and "ans_proposal env l (prog_endpoint prog) proposal = Inr account"
    and "resolveProposalSnapshotSlot env (pr_snapshotSlot account) = Inr slot"
  shows "\<exists>evs. snd (override_flow kind env p bp l) = l @ evs \<and> list_all (slot_ok slot) evs"
  unfolding override_flow_def with_wallet_def override_prepare_def Let_def
  apply (simp add: assms(1-6) io_bind_assoc)
  apply (rule at_slot_step [where a = "\<lambda>l. ans_proposal env l (prog_endpoint prog) proposal", OF assms(7)])
   apply simp
  apply (simp add: assms(8))
  apply (rule override_proofs_slot at_slot_intros | simp)+
  done

lemma vote_flow_slot:
  assumes "vp_wallet p = Some w" "w_publicKey w = Some signer" "vp_consensusResult p = Some consensus"
    and "validateVoteBasisPoints (vp_forVotesBp p) (vp_againstVotesBp p) (vp_abstainVotesBp p) = Inr ()"
    and "new_PublicKey env (vp_proposalId p) = Inr proposal"
    and "createProgramWithWallet env w (Some (bp_endpoint bp)) = Inr prog"
    and "ans_proposal env l (prog_endpoint prog) proposal = Inr account"
    and "resolveProposalSnapshotSlot env (pr_snapshotSlot account) = Inr slot"
  shows "\<exists>evs. snd (vote_flow kind env p bp l) = l @ evs \<and> list_all (slot_ok slot) evs"
  unfolding vote_flow_def with_wallet_def vote_prepare_def Let_def
  apply (simp add: assms(1-6) io_bind_assoc)
  apply (rule at_slot_step [where a = "\<lambda>l. ans_proposal env l (prog_endpoint prog) proposal", OF assms(7)])
   apply simp
  apply (simp add: assms(8))
  apply (cases kind; simp; (rule at_slot_intros | simp)+)
  done

section \<open>A sample world\<close>

definition answer_200 :: http_attempt where
  "answer_200 = \<lparr>ha_result = Inr \<lparr>hr_status = 200, hr_url = [], hr_statusText = [], hr_text = Inr []\<rparr>,
     ha_timedOut = False, ha_aborted = False\<rparr>"

definition sample_account :: proposal_account where
  "sample_account = \<lparr>pr_author = PublicKey [9], pr_title = [], pr_description = [], pr_creationEpoch = 800,
     pr_startEpoch = 907, pr_endEpoch = 910, pr_proposerStakeWeightBp = 0, pr_clusterSupportLamports = 0,
     pr_forVotesLamports = 0, pr_againstVotesLamports = 0, pr_abstainVotesLamports = 0, pr_voting = True,
     pr_finalized = False, pr_proposalBump = inum 255, pr_creationTimestamp = 0, pr_voteCount = inum 0,
     pr_index = inum 1, pr_consensusResult = Some (PublicKey [5]), pr_snapshotSlot = 340000000,
     pr_numSupporters = inum 3\<rparr>"

definition sample_meta_proof :: vote_account_proof where
  "sample_meta_proof = \<lparr>meta_merkle_leaf = \<lparr>mml_active_stake = SStr (js ''9007199254740993''),
     mml_stake_merkle_root = js ''root'', mml_vote_account = js ''va'', mml_voting_wallet = js ''vw''\<rparr>,
     meta_merkle_proof = [js ''n1''], vap_network = js ''mainnet'', vap_snapshot_slot = inum 340000000\<rparr>"

definition sample_stake_proof :: stake_account_proof where
  "sample_stake_proof = \<lparr>stake_merkle_leaf = \<lparr>smr_active_stake = SStr (js ''5''), smr_stake_account = js ''sa'',
     smr_voting_wallet = js ''vw''\<rparr>, stake_merkle_proof = [js ''n2''], sap_network = js ''mainnet'',
     sap_snapshot_slot = inum 340000000, sap_vote_account = Some (js ''va'')\<rparr>"

definition sample_env :: "bool \<Rightarrow> chain_env" where
  "sample_env proof_exists = (http_env answer_200)
     \<lparr>bn_of_number := \<lambda>x. Inr (case x of Num r \<Rightarrow> \<lfloor>r\<rfloor> | _ \<Rightarrow> 0),
      decode_vote_proof := \<lambda>t. Inr sample_meta_proof, decode_stake_proof := \<lambda>t. Inr sample_stake_proof,
      ans_proposal := \<lambda>l e p. Inr sample_account,
      ans_vote_accounts := \<lambda>l e. Inr [\<lparr>va_nodePubkey = js ''id'', va_votePubkey = js ''va'',
        va_activatedStake = inum 1, va_commission = inum 0, va_lastVote = inum 0\<rparr>],
      ans_account_exists := \<lambda>l e p. Inr proof_exists,
      ans_epoch_info := \<lambda>l e. Inr \<lparr>ei_absoluteSlot = inum 1000, ei_slotIndex = inum 0, ei_epoch = inum 2,
        ei_slotsInEpoch = inum 500\<rparr>,
      ans_block_time := \<lambda>l e s. Inr (Some (inum 1700000000))\<rparr>"

definition sample_wallet :: wallet where
  "sample_wallet = \<lparr>w_publicKey = Some (PublicKey (js ''id'')),
     w_signTransaction = \<lambda>l t. Inr (t\<lparr>tx_signatures := [(PublicKey (js ''id''), Some [7])]\<rparr>)\<rparr>"

definition sample_vote :: vote_params where
  "sample_vote = \<lparr>vp_proposalId = js ''prop'', vp_forVotesBp = inum 7000, vp_againstVotesBp = inum 2000,
     vp_abstainVotesBp = inum 1000, vp_wallet = Some sample_wallet, vp_consensusResult = Some (PublicKey [5])\<rparr>"

definition sample_override :: vote_override_params where
  "sample_override = \<lparr>op_proposalId = js ''prop'', op_forVotesBp = inum 7000, op_againstVotesBp = inum 2000,
     op_abstainVotesBp = inum 1000, op_stakeAccount = js ''stake'', op_wallet = Some sample_wallet,
     op_consensusResult = Some (PublicKey [5])\<rparr>"

definition sample_chain :: blockchain_params where
  "sample_chain = \<lparr>bp_network = js ''mainnet'', bp_endpoint = js ''https://rpc'', bp_ncnApiUrl = None\<rparr>"

lemma sample_fields:
  "new_PublicKey (sample_env b) = (\<lambda>s. Inr (PublicKey s))" "toBase58 (sample_env b) = pk_bytes"
  "findProgramAddressSync (sample_env b) = (\<lambda>seeds p. Inr (PublicKey (concat seeds @ pk_bytes p)))"
  "bn_of_number (sample_env b) = (\<lambda>x. Inr (case x of Num r \<Rightarrow> \<lfloor>r\<rfloor> | _ \<Rightarrow> 0))"
  "bn_of_string (sample_env b) = (\<lambda>s. Inr (int (dec_val s)))" "bn_toNumber (sample_env b) = (\<lambda>i. Inr (inum i))"
  "new_Connection (sample_env b) = (\<lambda>u. Inr ())" "build_instruction (sample_env b) = (\<lambda>i. Inr ())"
  "verifySignatures (sample_env b) = (\<lambda>t. True)" "serialize (sample_env b) = (\<lambda>t. Inr [])"
  "ans_proposal (sample_env b) = (\<lambda>l e p. Inr sample_account)"
  "ans_account_exists (sample_env b) = (\<lambda>l e p. Inr b)"
  "ans_vote_accounts (sample_env b) = (\<lambda>l e. Inr [\<lparr>va_nodePubkey = js ''id'', va_votePubkey = js ''va'',
        va_activatedStake = inum 1, va_commission = inum 0, va_lastVote = inum 0\<rparr>])"
  "ans_blockhash (sample_env b) = (\<lambda>l e. Inr (js ''hash''))" "ans_send (sample_env b) = (\<lambda>l e t. Inr (js ''sig''))"
  "ans_confirm (sample_env b) = (\<lambda>l e s. Inr None)"
  by (simp_all add: sample_env_def http_env_def)

lemmas sample_defs = sample_fields sample_wallet_def sample_vote_def sample_override_def
  sample_chain_def sample_account_def sample_meta_proof_def sample_stake_proof_def

lemma sample_bps: "validateVoteBasisPoints (inum 7000) (inum 2000) (inum 1000) = Inr ()"
  by (simp add: validateVoteBasisPoints_def js_int js_arith)

lemma sample_proofs:
  "getVoteAccountProof (sample_env b) a n s u l =
     (Inr sample_meta_proof, l @ [HttpGet (proof_url (api_base u) (js ''vote_account'') a n s)])"
  "getStakeAccountProof (sample_env b) a n s u l =
     (Inr sample_stake_proof, l @ [HttpGet (proof_url (api_base u) (js ''stake_account'') a n s)])"
  unfolding getVoteAccountProof_def getStakeAccountProof_def
  by (rule fetch_definite; simp add: fetchNcnJsonOnce_def ncn_body_def sample_env_def http_env_def answer_200_def
      response_ok_def parseNcnJson_def proof_options_def)+

lemmas sample_eval = io_defs sample_proofs createProgramWithWallet_def createGovV1ProgramWithWallet_def
  create_program_def resolveProposalSnapshotSlot_def find_vote_account_def deriveVotePda_def
  deriveVoteOverrideCachePda_def deriveVoteOverridePda_def getMetaMerkleProofPda_def
  vote_instruction_def vote_init_instructions_def submit_transaction_def signTransactionForWallet_def
  check_signed_def build_ix_def new_transaction_def with_wallet_def override_proofs_def
  resolveSnapshotVoteAccount_def assertOverrideProofLineage_def override_instruction_def
  convertMerkleProofStrings_def convertStakeMerkleLeafDataToIdlType_def

lemma is_positive_inum: "inum a \<le> Num 0 \<longleftrightarrow> a \<le> 0"
  by (simp add: inum_lits)

lemma sample_vote_run: "\<exists>res l'. vote_flow kind (sample_env True) sample_vote sample_chain [] = (Inr res, l')"
  by (cases kind)
     (simp_all add: vote_flow_def vote_prepare_def sample_eval sample_defs sample_bps Let_def is_positive_inum)

lemma sample_override_run:
  "\<exists>res l'. override_flow kind (sample_env True) sample_override sample_chain [] = (Inr res, l')"
  by (cases kind)
     (simp_all add: override_flow_def override_prepare_def sample_eval sample_defs sample_bps Let_def is_positive_inum)

section \<open>Properties\<close>

text \<open>C3. A vote that succeeds was cast exactly once: the basis points summed to 10000, the wallet was
  asked to sign the vote instruction for the connected account (after at most one instruction that
  creates the merkle proof), the transaction it returned is the only thing submitted, and it is the
  last event.\<close>

theorem vote_succeeds_with_one_submission:
  assumes "kind = CastKind \<and> castVote env p bp l = (Inr res, l') \<or>
           kind = ModifyKind \<and> modifyVote env p bp l = (Inr res, l')"
  shows "\<exists>w signer consensus ctx init ix evs hash t.
    vp_wallet p = Some w \<and> w_publicKey w = Some signer \<and> vp_consensusResult p = Some consensus \<and>
    vote_instruction kind env p signer consensus ctx = Inr ix \<and> length init \<le> 1 \<and>
    l' = l @ evs @ [SignRequest (new_transaction (init @ [ix]) signer hash),
                    SendRaw (prog_endpoint (vc_program ctx)) t] \<and>
    submissions evs = [] \<and> signed_ok env signer (SendRaw (prog_endpoint (vc_program ctx)) t) \<and>
    validateVoteBasisPoints (vp_forVotesBp p) (vp_againstVotesBp p) (vp_abstainVotesBp p) = Inr () \<and>
    res_success res"
proof -
  have "vote_flow kind env p bp l = (Inr res, l')" using assms by (auto simp: castVote_def modifyVote_def)
  then show ?thesis by (rule vote_flow_success)
qed

theorem vote_succeeds_with_one_submission_witness:
  "\<exists>evs ixs signer hash ep t. snd (castVote (sample_env True) sample_vote sample_chain []) =
     evs @ [SignRequest (new_transaction ixs signer hash), SendRaw ep t] \<and> submissions evs = []"
proof -
  obtain res l' where run: "castVote (sample_env True) sample_vote sample_chain [] = (Inr res, l')"
    using sample_vote_run [of CastKind] by (auto simp: castVote_def)
  have "CastKind = CastKind \<and> castVote (sample_env True) sample_vote sample_chain [] = (Inr res, l') \<or>
      CastKind = ModifyKind \<and> modifyVote (sample_env True) sample_vote sample_chain [] = (Inr res, l')"
    using run by simp
  from vote_succeeds_with_one_submission [OF this] show ?thesis unfolding run snd_conv append_Nil by blast
qed



text \<open>C5. Merkle proofs are requested at the slot of the proposal that is voted on: once the proposal
  account is read, every request to the verifier made by the four builders, retries included, asks
  for its snapshot slot.\<close>

theorem proofs_at_proposal_slot:
  assumes "vp_wallet p = Some w" "op_wallet q = Some w" "w_publicKey w = Some signer"
    and "vp_consensusResult p = Some consensus" "op_consensusResult q = Some consensus"
    and "validateVoteBasisPoints (vp_forVotesBp p) (vp_againstVotesBp p) (vp_abstainVotesBp p) = Inr ()"
    and "validateVoteBasisPoints (op_forVotesBp q) (op_againstVotesBp q) (op_abstainVotesBp q) = Inr ()"
    and "new_PublicKey env (vp_proposalId p) = Inr proposal" "op_proposalId q = vp_proposalId p"
    and "createProgramWithWallet env w (Some (bp_endpoint bp)) = Inr prog"
    and "ans_proposal env l (prog_endpoint prog) proposal = Inr account"
    and "resolveProposalSnapshotSlot env (pr_snapshotSlot account) = Inr slot"
    and "m \<in> {castVote env p bp, modifyVote env p bp, castVoteOverride env q bp, modifyVoteOverride env q bp}"
  shows "\<exists>evs. snd (m l) = l @ evs \<and>
    (\<forall>u. HttpGet u \<in> set evs \<longrightarrow> endsWith u (js ''&slot='' @ number_to_string slot))"
proof -
  have "\<exists>evs. snd (m l) = l @ evs \<and> list_all (slot_ok slot) evs"
    using assms(13) vote_flow_slot [OF assms(1,3,4,6,8,10-12)]
      override_flow_slot [OF assms(2,3,5,7) assms(8) [folded assms(9)] assms(10-12)]
    by (auto simp: castVote_def modifyVote_def castVoteOverride_def modifyVoteOverride_def)
  then show ?thesis by (fastforce simp: list_all_iff)
qed

theorem proofs_at_proposal_slot_witness:
  "\<exists>evs. snd (castVoteOverride (sample_env True) sample_override sample_chain []) = evs \<and>
    (\<forall>u. HttpGet u \<in> set evs \<longrightarrow> endsWith u (js ''&slot='' @ number_to_string (inum 340000000)))"
proof -
  let ?env = "sample_env True" and ?pr = "\<lparr>prog_endpoint = js ''https://rpc'', prog_id = PublicKey [1]\<rparr>"
  have c: "createProgramWithWallet ?env sample_wallet (Some (bp_endpoint sample_chain)) = Inr ?pr"
    by (simp add: createProgramWithWallet_def create_program_def sample_chain_def sample_env_def http_env_def)
  have s: "resolveProposalSnapshotSlot ?env (pr_snapshotSlot sample_account) = Inr (inum 340000000)"
    by (simp add: resolveProposalSnapshotSlot_def sample_fields sample_account_def is_positive_inum)
  have v: "validateVoteBasisPoints (vp_forVotesBp sample_vote) (vp_againstVotesBp sample_vote) (vp_abstainVotesBp sample_vote) = Inr ()"
    "validateVoteBasisPoints (op_forVotesBp sample_override) (op_againstVotesBp sample_override) (op_abstainVotesBp sample_override) = Inr ()"
    by (simp_all add: sample_vote_def sample_override_def sample_bps)
  have "\<exists>evs. snd (castVoteOverride ?env sample_override sample_chain []) = [] @ evs \<and>
      (\<forall>u. HttpGet u \<in> set evs \<longrightarrow> endsWith u (js ''&slot='' @ number_to_string (inum 340000000)))"
    by (rule proofs_at_proposal_slot [OF _ _ _ _ _ v _ _ c _ s, where proposal = "PublicKey (js ''prop'')"])
       (simp_all add: sample_vote_def sample_override_def sample_wallet_def sample_fields)
  then show ?thesis by simp
qed

text \<open>C6. Nothing is sent anywhere before the checks pass: with no connected wallet, no consensus
  result, or basis points that do not sum to 10000, each voting builder fails at once and leaves the
  log as it was.\<close>

theorem votes_rejected_before_any_event:
  assumes "vp_wallet p = None \<or> (\<exists>w. vp_wallet p = Some w \<and> w_publicKey w = None) \<or> vp_consensusResult p = None \<or>
      (\<exists>e. validateVoteBasisPoints (vp_forVotesBp p) (vp_againstVotesBp p) (vp_abstainVotesBp p) = Inl e)"
    and "op_wallet q = None \<or> (\<exists>w. op_wallet q = Some w \<and> w_publicKey w = None) \<or> op_consensusResult q = None \<or>
      (\<exists>e. validateVoteBasisPoints (op_forVotesBp q) (op_againstVotesBp q) (op_abstainVotesBp q) = Inl e)"
    and "m \<in> {castVote env p bp, modifyVote env p bp, castVoteOverride env q bp, modifyVoteOverride env q bp}"
  shows "\<exists>e. m l = (Inl e, l)"
proof -
  have "\<exists>e. vote_flow kind env p bp l = (Inl e, l)" for kind
    using assms(1)
    by (auto simp: vote_flow_def with_wallet_def vote_prepare_def io_throw_def io_bind_def io_lift_def
        split: option.splits)
  moreover have "\<exists>e. override_flow kind env q bp l = (Inl e, l)" for kind
    using assms(2)
    by (auto simp: override_flow_def with_wallet_def override_prepare_def io_throw_def io_bind_def io_lift_def
        split: option.splits)
  ultimately show ?thesis
    using assms(3) by (auto simp: castVote_def modifyVote_def castVoteOverride_def modifyVoteOverride_def)
qed

theorem votes_rejected_before_any_event_witness:
  "\<exists>e. castVote (sample_env True) (sample_vote\<lparr>vp_wallet := None\<rparr>) sample_chain [] = (Inl e, [])"
  by (rule votes_rejected_before_any_event [of "sample_vote\<lparr>vp_wallet := None\<rparr>" "sample_override\<lparr>op_wallet := None\<rparr>" _ "sample_env True" sample_chain])
     (simp_all)

end
