(* ===== verification/Regex.thy ===== *)
theory Regex
  imports Js_String
begin

text \<open>
  A backtracking matcher for the regular expressions of the source.  A match is computed as the
  ordered list of its successes, so that greedy and lazy quantifiers and the choice of the first
  alternative behave as in the language.  Groups inside quantifiers do not occur in the source, so
  captures are never reset.
\<close>

text \<open>The position in the subject: the consumed part in reverse, the rest, and the captures.\<close>

record re_state =
  re_before :: jsstr
  re_rest :: jsstr
  re_groups :: "(nat \<times> jsstr) list"

datatype re =
    Eps
  | Chr "nat \<Rightarrow> bool"
  | Cat re re
  | Alt re re
  | Rep re nat "nat option" bool
  | Grp nat re
  | Bol bool
  | Eol bool
  | WordB

definition is_line_end :: "nat \<Rightarrow> bool" where
  "is_line_end c \<longleftrightarrow> c = 10 \<or> c = 13 \<or> c = 8232 \<or> c = 8233"

definition is_word :: "nat \<Rightarrow> bool" where
  "is_word c \<longleftrightarrow> is_alnum c \<or> c = 95"

definition head_is :: "(nat \<Rightarrow> bool) \<Rightarrow> jsstr \<Rightarrow> bool" where
  "head_is P s = (case s of [] \<Rightarrow> False | c # t \<Rightarrow> P c)"

definition step_chr :: "(nat \<Rightarrow> bool) \<Rightarrow> re_state \<Rightarrow> re_state list" where
  "step_chr P st =
     (case re_rest st of [] \<Rightarrow> []
      | c # t \<Rightarrow> if P c then [st\<lparr>re_before := c # re_before st, re_rest := t\<rparr>] else [])"

primrec times :: "nat \<Rightarrow> (re_state \<Rightarrow> re_state list) \<Rightarrow> re_state \<Rightarrow> re_state list" where
  "times 0 f st = [st]"
| "times (Suc n) f st = concat (map (times n f) (f st))"

text \<open>Up to \<open>k\<close> further iterations; an iteration that consumes nothing ends the repetition.\<close>

primrec upto_times :: "nat \<Rightarrow> bool \<Rightarrow> (re_state \<Rightarrow> re_state list) \<Rightarrow> re_state \<Rightarrow> re_state list" where
  "upto_times 0 greedy f st = [st]"
| "upto_times (Suc k) greedy f st =
     (let more = concat (map (upto_times k greedy f)
                   (filter (\<lambda>st'. length (re_rest st') < length (re_rest st)) (f st)))
      in if greedy then more @ [st] else st # more)"

definition repeat_re ::
  "nat \<Rightarrow> nat option \<Rightarrow> bool \<Rightarrow> (re_state \<Rightarrow> re_state list) \<Rightarrow> re_state \<Rightarrow> re_state list" where
  "repeat_re lo hi greedy f st =
     (let k = (case hi of Some h \<Rightarrow> h - lo | None \<Rightarrow> length (re_rest st))
      in concat (map (upto_times k greedy f) (times lo f st)))"

primrec re_match :: "re \<Rightarrow> re_state \<Rightarrow> re_state list" where
  "re_match Eps st = [st]"
| "re_match (Chr P) st = step_chr P st"
| "re_match (Cat a b) st = concat (map (re_match b) (re_match a st))"
| "re_match (Alt a b) st = re_match a st @ re_match b st"
| "re_match (Rep r lo hi greedy) st = repeat_re lo hi greedy (re_match r) st"
| "re_match (Grp n r) st =
     map (\<lambda>st'. st'\<lparr>re_groups := (n, rev (take (length (re_before st') - length (re_before st)) (re_before st')))
                                 # re_groups st'\<rparr>) (re_match r st)"
| "re_match (Bol multi) st =
     (if re_before st = [] \<or> (multi \<and> is_line_end (hd (re_before st))) then [st] else [])"
| "re_match (Eol multi) st =
     (if re_rest st = [] \<or> (multi \<and> is_line_end (hd (re_rest st))) then [st] else [])"
| "re_match WordB st =
     (if head_is is_word (re_before st) \<noteq> head_is is_word (re_rest st) then [st] else [])"

text \<open>\<open>String.prototype.match\<close> without the flag \<open>g\<close>: the leftmost position with a success.\<close>

fun re_search_from :: "re \<Rightarrow> jsstr \<Rightarrow> jsstr \<Rightarrow> (re_state \<times> nat) option" where
  "re_search_from r bef s =
     (case re_match r \<lparr>re_before = bef, re_rest = s, re_groups = []\<rparr> of
        st # _ \<Rightarrow> Some (st, length bef)
      | [] \<Rightarrow> (case s of [] \<Rightarrow> None | c # t \<Rightarrow> re_search_from r (c # bef) t))"

declare re_search_from.simps [simp del]

definition re_exec :: "re \<Rightarrow> jsstr \<Rightarrow> (re_state \<times> nat) option" where
  "re_exec r s = re_search_from r [] s"

definition re_test :: "re \<Rightarrow> jsstr \<Rightarrow> bool" where
  "re_test r s \<longleftrightarrow> re_exec r s \<noteq> None"

definition re_group :: "re_state \<times> nat \<Rightarrow> nat \<Rightarrow> jsstr" where
  "re_group m n = (case map_of (re_groups (fst m)) n of Some s \<Rightarrow> s | None \<Rightarrow> [])"

text \<open>The whole match, and what follows it.\<close>

definition re_matched :: "re_state \<times> nat \<Rightarrow> jsstr" where
  "re_matched m = drop (snd m) (rev (re_before (fst m)))"

section \<open>Building expressions\<close>

definition ci :: "char \<Rightarrow> re" where
  "ci c = Chr (\<lambda>x. ascii_fold [x] = ascii_fold [code c])"

definition lit :: "char \<Rightarrow> re" where
  "lit c = Chr (\<lambda>x. x = code c)"

primrec seq_re :: "re list \<Rightarrow> re" where
  "seq_re [] = Eps"
| "seq_re (r # rs) = Cat r (seq_re rs)"

definition word_ci :: "string \<Rightarrow> re" where
  "word_ci s = seq_re (map ci s)"

definition word_lit :: "string \<Rightarrow> re" where
  "word_lit s = seq_re (map lit s)"

definition star :: "re \<Rightarrow> re" where "star r = Rep r 0 None True"
definition lazy_star :: "re \<Rightarrow> re" where "lazy_star r = Rep r 0 None False"
definition plus_re :: "re \<Rightarrow> re" where "plus_re r = Rep r 1 None True"
definition opt_re :: "re \<Rightarrow> re" where "opt_re r = Rep r 0 (Some 1) True"
definition digit :: re where "digit = Chr is_digit"
definition any_char :: re where "any_char = Chr (\<lambda>c. \<not> is_line_end c)"

section \<open>Laws\<close>

text \<open>\<open>extends st st' w\<close>: from \<open>st\<close> the match consumed \<open>w\<close> and kept the earlier captures.\<close>

definition extends :: "re_state \<Rightarrow> re_state \<Rightarrow> jsstr \<Rightarrow> bool" where
  "extends st st' w \<longleftrightarrow> re_rest st = w @ re_rest st' \<and> re_before st' = rev w @ re_before st \<and>
     (\<exists>gs. re_groups st' = gs @ re_groups st)"

lemma extends_refl [simp]: "extends st st []"
  by (simp add: extends_def)

lemma extends_trans: "extends a b u \<Longrightarrow> extends b c v \<Longrightarrow> extends a c (u @ v)"
  by (auto simp: extends_def)

definition sound :: "(re_state \<Rightarrow> re_state list) \<Rightarrow> bool" where
  "sound f \<longleftrightarrow> (\<forall>st. \<forall>st'\<in>set (f st). \<exists>w. extends st st' w)"

lemma sound_times: "sound f \<Longrightarrow> sound (times n f)"
proof (induction n)
  case (Suc n)
  then show ?case by (fastforce simp: sound_def intro: extends_trans)
qed (auto simp: sound_def intro: extends_refl)

lemma sound_upto: "sound f \<Longrightarrow> sound (upto_times k g f)"
proof (induction k)
  case (Suc k)
  then show ?case by (fastforce simp: sound_def Let_def intro: extends_trans extends_refl)
qed (auto simp: sound_def intro: extends_refl)

lemma sound_repeat: "sound f \<Longrightarrow> sound (repeat_re lo hi g f)"
  using sound_times [of f lo] sound_upto [of f _ g]
  by (fastforce simp: sound_def repeat_re_def Let_def intro: extends_trans)

lemma step_chr_iff: "st' \<in> set (step_chr P st) \<longleftrightarrow>
    (\<exists>c t. re_rest st = c # t \<and> P c \<and> st' = st\<lparr>re_before := c # re_before st, re_rest := t\<rparr>)"
  by (cases "re_rest st") (auto simp: step_chr_def)

lemma re_match_sound: "sound (re_match r)"
proof (induction r)
  case (Cat a b)
  then show ?case by (fastforce simp: sound_def intro: extends_trans)
next
  case (Rep r lo hi g)
  then show ?case using sound_repeat by (simp add: sound_def)
next
  case (Grp n r)
  show ?case
    unfolding sound_def
  proof safe
    fix st st' assume "st' \<in> set (re_match (Grp n r) st)"
    then obtain m g where m: "m \<in> set (re_match r st)" "st' = m\<lparr>re_groups := (n, g) # re_groups m\<rparr>" by auto
    then obtain w where "extends st m w" using Grp by (auto simp: sound_def)
    then show "\<exists>w. extends st st' w" using m(2) by (intro exI [of _ w]) (auto simp: extends_def)
  qed
qed (auto simp: sound_def step_chr_def extends_def split: list.splits if_splits)

text \<open>A match splits the subject.\<close>

lemma re_match_split:
  assumes "st' \<in> set (re_match r st)"
  shows "rev (re_before st') @ re_rest st' = rev (re_before st) @ re_rest st"
  using assms re_match_sound [of r] by (fastforce simp: sound_def extends_def)

lemma re_search_split:
  "re_search_from r bef s = Some (st, n) \<Longrightarrow> rev (re_before st) @ re_rest st = rev bef @ s"
proof (induction s arbitrary: bef)
  case Nil
  let ?st = "\<lparr>re_before = bef, re_rest = [], re_groups = []\<rparr>"
  from Nil have "st \<in> set (re_match r ?st)"
    by (subst (asm) re_search_from.simps) (auto split: list.splits)
  from re_match_split [OF this] show ?case by simp
next
  case (Cons c s)
  show ?case
  proof (cases "re_match r \<lparr>re_before = bef, re_rest = c # s, re_groups = []\<rparr>")
    case Nil
    then have "re_search_from r (c # bef) s = Some (st, n)"
      using Cons.prems by (subst (asm) re_search_from.simps) simp
    from Cons.IH [OF this] show ?thesis by simp
  next
    case (Cons x xs)
    then have "x = st" using Cons.prems by (subst (asm) re_search_from.simps) simp
    then show ?thesis using re_match_split [of st r "\<lparr>re_before = bef, re_rest = c # s, re_groups = []\<rparr>"] Cons
      by simp
  qed
qed

lemma re_exec_split: "re_exec r s = Some (st, n) \<Longrightarrow> s = rev (re_before st) @ re_rest st"
  using re_search_split [of r "[]" s st n] by (simp add: re_exec_def)

text \<open>Repetitions of one character class consume a run of it of admissible length.\<close>

lemma times_chr: "st' \<in> set (times n (step_chr P) st) \<Longrightarrow>
    \<exists>w. extends st st' w \<and> re_groups st' = re_groups st \<and> list_all P w \<and> length w = n"
proof (induction n arbitrary: st)
  case (Suc n)
  then obtain c t where c: "re_rest st = c # t" "P c"
    "st' \<in> set (times n (step_chr P) (st\<lparr>re_before := c # re_before st, re_rest := t\<rparr>))"
    by (auto simp: step_chr_iff)
  from Suc.IH [OF this(3)] c(1,2) show ?case
    by (auto simp: extends_def)
qed (auto intro!: exI [of _ "[]"])

lemma upto_chr: "st' \<in> set (upto_times k g (step_chr P) st) \<Longrightarrow>
    \<exists>w. extends st st' w \<and> re_groups st' = re_groups st \<and> list_all P w \<and> length w \<le> k"
proof (induction k arbitrary: st)
  case (Suc k)
  show ?case
  proof (cases "st' = st")
    case False
    with Suc.prems obtain c t where c: "re_rest st = c # t" "P c"
      "st' \<in> set (upto_times k g (step_chr P) (st\<lparr>re_before := c # re_before st, re_rest := t\<rparr>))"
      by (auto simp: step_chr_iff Let_def split: if_splits)
    from Suc.IH [OF this(3)] c(1,2) show ?thesis
      by (auto simp: extends_def)
  qed (auto intro!: exI [of _ "[]"])
qed (auto intro!: exI [of _ "[]"])

lemma rep_chr:
  assumes "st' \<in> set (re_match (Rep (Chr P) lo (Some hi) g) st)" "lo \<le> hi"
  shows "\<exists>w. extends st st' w \<and> re_groups st' = re_groups st \<and> list_all P w \<and> lo \<le> length w \<and> length w \<le> hi"
proof -
  have e: "re_match (Chr P) = step_chr P" by (simp add: fun_eq_iff)
  obtain m where m: "m \<in> set (times lo (step_chr P) st)" "st' \<in> set (upto_times (hi - lo) g (step_chr P) m)"
    using assms(1) by (auto simp: repeat_re_def Let_def e)
  obtain u v where "extends st m u" "re_groups m = re_groups st" "list_all P u" "length u = lo"
    "extends m st' v" "re_groups st' = re_groups m" "list_all P v" "length v \<le> hi - lo"
    using times_chr [OF m(1)] upto_chr [OF m(2)] by blast
  then show ?thesis
    using assms(2) extends_trans [of st m u st' v] by (intro exI [of _ "u @ v"]) auto
qed

lemma re_search_anchored: "bef \<noteq> [] \<Longrightarrow> re_search_from (Cat (Bol False) r) bef s = None"
proof (induction s arbitrary: bef)
  case (Cons c s)
  then show ?case by (subst re_search_from.simps) simp
qed (subst re_search_from.simps, simp)

lemma re_exec_anchored:
  "re_exec (Cat (Bol False) r) s =
     (case re_match r \<lparr>re_before = [], re_rest = s, re_groups = []\<rparr> of st # _ \<Rightarrow> Some (st, 0) | [] \<Rightarrow> None)"
  unfolding re_exec_def
  by (subst re_search_from.simps) (auto simp: re_search_anchored split: list.splits)

text \<open>Expressions without groups leave the captures alone.\<close>

primrec groupless :: "re \<Rightarrow> bool" where
  "groupless Eps = True"
| "groupless (Chr P) = True"
| "groupless (Cat a b) = (groupless a \<and> groupless b)"
| "groupless (Alt a b) = (groupless a \<and> groupless b)"
| "groupless (Rep r lo hi g) = groupless r"
| "groupless (Grp n r) = False"
| "groupless (Bol m) = True"
| "groupless (Eol m) = True"
| "groupless WordB = True"

definition keeps_groups :: "(re_state \<Rightarrow> re_state list) \<Rightarrow> bool" where
  "keeps_groups f \<longleftrightarrow> (\<forall>st. \<forall>st'\<in>set (f st). re_groups st' = re_groups st)"

lemma keepsI: "(\<And>st st'. st' \<in> set (f st) \<Longrightarrow> re_groups st' = re_groups st) \<Longrightarrow> keeps_groups f"
  by (simp add: keeps_groups_def)

lemma keepsD: "keeps_groups f \<Longrightarrow> st' \<in> set (f st) \<Longrightarrow> re_groups st' = re_groups st"
  unfolding keeps_groups_def by blast

text \<open>Running one action after another.\<close>

lemma keeps_then:
  assumes "keeps_groups f" "\<And>m. keeps_groups (g m)" "st' \<in> set (concat (map (\<lambda>m. g m m) (filter P (f st))))"
  shows "re_groups st' = re_groups st"
proof -
  obtain m where "m \<in> set (f st)" "st' \<in> set (g m m)" using assms(3) by auto
  with keepsD [OF assms(1)] keepsD [OF assms(2)] show ?thesis by metis
qed

lemma keeps_times: "keeps_groups f \<Longrightarrow> keeps_groups (times n f)"
proof (induction n)
  case (Suc n)
  show ?case
  proof (rule keepsI)
    fix st st' assume "st' \<in> set (times (Suc n) f st)"
    then have "st' \<in> set (concat (map (\<lambda>m. times n f m) (filter (\<lambda>_. True) (f st))))" by simp
    then show "re_groups st' = re_groups st"
      by (rule keeps_then [where g = "\<lambda>m. times n f", OF Suc.prems Suc.IH [OF Suc.prems]])
  qed
qed (simp add: keeps_groups_def)

lemma keeps_upto: "keeps_groups f \<Longrightarrow> keeps_groups (upto_times k g f)"
proof (induction k)
  case (Suc k)
  show ?case
  proof (rule keepsI)
    fix st st' assume "st' \<in> set (upto_times (Suc k) g f st)"
    then have "st' = st \<or> st' \<in> set (concat (map (\<lambda>m. upto_times k g f m)
        (filter (\<lambda>m. length (re_rest m) < length (re_rest st)) (f st))))"
      by (auto simp: Let_def split: if_splits)
    then show "re_groups st' = re_groups st"
      using keeps_then [where g = "\<lambda>m. upto_times k g f", OF Suc.prems Suc.IH [OF Suc.prems]] by blast
  qed
qed (simp add: keeps_groups_def)

lemma keeps_repeat:
  assumes "keeps_groups f"
  shows "keeps_groups (repeat_re lo hi g f)"
proof (rule keepsI)
  fix st st' assume "st' \<in> set (repeat_re lo hi g f st)"
  then obtain k where "st' \<in> set (concat (map (\<lambda>m. upto_times k g f m) (filter (\<lambda>_. True) (times lo f st))))"
    by (simp add: repeat_re_def Let_def)
  then show "re_groups st' = re_groups st"
    by (rule keeps_then [where g = "\<lambda>m. upto_times k g f", OF keeps_times [OF assms] keeps_upto [OF assms]])
qed

lemma re_match_keeps: "groupless r \<Longrightarrow> keeps_groups (re_match r)"
proof (induction r)
  case (Cat a b)
  then have k: "keeps_groups (re_match a)" "keeps_groups (re_match b)" by auto
  show ?case
    by (rule keepsI, rule keeps_then [where g = "\<lambda>m. re_match b" and P = "\<lambda>_. True", OF k]) simp
next
  case (Alt a b)
  then show ?case by (intro keepsI) (auto dest: keepsD)
next
  case (Rep r lo hi g)
  then show ?case using keeps_repeat [of "re_match r" lo hi g] by (simp add: keeps_groups_def)
qed (auto intro!: keepsI simp: step_chr_iff split: if_splits)

lemma re_match_groups: "groupless r \<Longrightarrow> st' \<in> set (re_match r st) \<Longrightarrow> re_groups st' = re_groups st"
  using re_match_keeps keepsD by blast

lemma re_match_Cat: "st' \<in> set (re_match (Cat a b) st) \<longleftrightarrow> (\<exists>m\<in>set (re_match a st). st' \<in> set (re_match b m))"
  by simp

lemma groupless_seq [simp]: "groupless (seq_re rs) \<longleftrightarrow> list_all groupless rs"
  by (induction rs) auto

lemma groupless_builders [simp]:
  "groupless (ci c)" "groupless (lit c)" "groupless (word_ci s)" "groupless (word_lit s)"
  "groupless (star r) = groupless r" "groupless (lazy_star r) = groupless r" "groupless (plus_re r) = groupless r"
  "groupless (opt_re r) = groupless r" "groupless digit" "groupless any_char"
  by (auto simp: ci_def lit_def word_ci_def word_lit_def star_def lazy_star_def plus_re_def opt_re_def
      digit_def any_char_def list_all_iff)

text \<open>A group around a run of one class captures a run of admissible length.\<close>

lemma grp_chr:
  assumes "st' \<in> set (re_match (Grp n (Rep (Chr P) lo (Some hi) g)) st)" "lo \<le> hi"
  shows "\<exists>w. extends st st' w \<and> re_groups st' = (n, w) # re_groups st \<and> list_all P w \<and>
    lo \<le> length w \<and> length w \<le> hi"
proof -
  obtain a where a: "a \<in> set (re_match (Rep (Chr P) lo (Some hi) g) st)"
    "st' = a\<lparr>re_groups := (n, rev (take (length (re_before a) - length (re_before st)) (re_before a))) # re_groups a\<rparr>"
    using assms(1) by auto
  obtain w where w: "extends st a w" "re_groups a = re_groups st" "list_all P w" "lo \<le> length w" "length w \<le> hi"
    using rep_chr [OF a(1) assms(2)] by blast
  then have "rev (take (length (re_before a) - length (re_before st)) (re_before a)) = w"
    by (simp add: extends_def)
  with w a(2) show ?thesis by (intro exI [of _ w]) (auto simp: extends_def)
qed

end
