(* ===== verification/Js_Uri.thy ===== *)
theory Js_Uri
  imports Js_Io
begin

text \<open>
  \<open>encodeURIComponent\<close> and \<open>decodeURIComponent\<close> on UTF-16 strings, with the UTF-8 coding they use and
  the \<open>URIError\<close> they raise, and the parts of a parsed URL the source reads.  The URL parser itself
  is a parameter of the definitions that use it.
\<close>

record url_parts =
  url_protocol :: jsstr
  url_hostname :: jsstr
  url_pathname :: jsstr
  url_search_ref :: "jsstr option"

definition uri_error :: js_error where
  "uri_error = LibError (js ''URIError'') (js ''URI malformed'')"

section \<open>Encoding\<close>

definition utf8_bytes :: "nat \<Rightarrow> nat list" where
  "utf8_bytes cp =
     (if cp < 128 then [cp]
      else if cp < 2048 then [192 + cp div 64, 128 + cp mod 64]
      else if cp < 65536 then [224 + cp div 4096, 128 + cp div 64 mod 64, 128 + cp mod 64]
      else [240 + cp div 262144, 128 + cp div 4096 mod 64, 128 + cp div 64 mod 64, 128 + cp mod 64])"

definition hex_digit :: "nat \<Rightarrow> nat" where
  "hex_digit d = (if d < 10 then 48 + d else 55 + d)"

definition pct :: "nat \<Rightarrow> jsstr" where
  "pct b = [37, hex_digit (b div 16), hex_digit (b mod 16)]"

definition unreserved :: "nat \<Rightarrow> bool" where
  "unreserved c \<longleftrightarrow> is_alnum c \<or> c \<in> {45, 95, 46, 33, 126, 42, 39, 40, 41}"

definition high_surrogate :: "nat \<Rightarrow> bool" where "high_surrogate c \<longleftrightarrow> 55296 \<le> c \<and> c < 56320"
definition low_surrogate :: "nat \<Rightarrow> bool" where "low_surrogate c \<longleftrightarrow> 56320 \<le> c \<and> c < 57344"

fun encodeURIComponent :: "jsstr \<Rightarrow> js_error + jsstr" where
  "encodeURIComponent [] = Inr []"
| "encodeURIComponent (c # s) =
     (if unreserved c then res_bind (encodeURIComponent s) (\<lambda>t. Inr (c # t))
      else if low_surrogate c then Inl uri_error
      else if high_surrogate c then
        (case s of
           [] \<Rightarrow> Inl uri_error
         | d # t \<Rightarrow>
             if low_surrogate d
             then res_bind (encodeURIComponent t) (\<lambda>u.
                    Inr (concat (map pct (utf8_bytes (65536 + (c - 55296) * 1024 + (d - 56320)))) @ u))
             else Inl uri_error)
      else res_bind (encodeURIComponent s) (\<lambda>t. Inr (concat (map pct (utf8_bytes c)) @ t)))"

section \<open>Decoding\<close>

fun pct_byte :: "jsstr \<Rightarrow> (nat \<times> jsstr) option" where
  "pct_byte (p # a # b # s) =
     (if p = 37 then
        (case (radix_digit a, radix_digit b) of (Some x, Some y) \<Rightarrow> Some (16 * x + y, s) | _ \<Rightarrow> None)
      else None)"
| "pct_byte _ = None"

primrec read_continuation :: "nat \<Rightarrow> nat \<Rightarrow> jsstr \<Rightarrow> (nat \<times> jsstr) option" where
  "read_continuation 0 acc s = Some (acc, s)"
| "read_continuation (Suc n) acc s =
     (case pct_byte s of
        None \<Rightarrow> None
      | Some (b, r) \<Rightarrow> if 128 \<le> b \<and> b < 192 then read_continuation n (acc * 64 + (b - 128)) r else None)"

text \<open>One code point from its percent-encoded UTF-8 form; overlong forms, surrogates and values past
  the last code point are malformed.\<close>

definition read_code_point :: "jsstr \<Rightarrow> (nat \<times> jsstr) option" where
  "read_code_point s =
     (case pct_byte s of
        None \<Rightarrow> None
      | Some (b, r) \<Rightarrow>
          if b < 128 then Some (b, r)
          else if 192 \<le> b \<and> b < 224 then
            (case read_continuation 1 (b - 192) r of
               Some (cp, t) \<Rightarrow> if 128 \<le> cp then Some (cp, t) else None | None \<Rightarrow> None)
          else if 224 \<le> b \<and> b < 240 then
            (case read_continuation 2 (b - 224) r of
               Some (cp, t) \<Rightarrow> if 2048 \<le> cp \<and> \<not> (55296 \<le> cp \<and> cp < 57344) then Some (cp, t) else None
             | None \<Rightarrow> None)
          else if 240 \<le> b \<and> b < 248 then
            (case read_continuation 3 (b - 240) r of
               Some (cp, t) \<Rightarrow> if 65536 \<le> cp \<and> cp < 1114112 then Some (cp, t) else None | None \<Rightarrow> None)
          else None)"

definition utf16_units :: "nat \<Rightarrow> jsstr" where
  "utf16_units cp = (if cp < 65536 then [cp] else [55296 + (cp - 65536) div 1024, 56320 + (cp - 65536) mod 1024])"

lemma pct_byte_length: "pct_byte s = Some (b, r) \<Longrightarrow> length r < length s"
  by (induction s rule: pct_byte.induct) (auto split: if_splits option.splits)

lemma read_continuation_length: "read_continuation n acc s = Some (b, r) \<Longrightarrow> length r \<le> length s"
  by (induction n arbitrary: acc s) (auto split: option.splits if_splits dest!: pct_byte_length, fastforce)

lemma read_code_point_length: "read_code_point s = Some (cp, r) \<Longrightarrow> length r < length s"
  by (auto simp: read_code_point_def simp del: read_continuation.simps
      split: option.splits if_splits dest!: pct_byte_length read_continuation_length)

function decodeURIComponent :: "jsstr \<Rightarrow> js_error + jsstr" where
  "decodeURIComponent s =
     (case s of [] \<Rightarrow> Inr []
      | c # t \<Rightarrow>
          if c \<noteq> 37 then res_bind (decodeURIComponent t) (\<lambda>u. Inr (c # u))
          else (case read_code_point s of
                  None \<Rightarrow> Inl uri_error
                | Some (cp, r) \<Rightarrow> res_bind (decodeURIComponent r) (\<lambda>u. Inr (utf16_units cp @ u))))"
  by pat_completeness auto
termination
  by (relation "measure length") (auto dest: read_code_point_length)

declare decodeURIComponent.simps [simp del]

section \<open>Round trip\<close>

lemma radix_hex: "d < 16 \<Longrightarrow> radix_digit (hex_digit d) = Some d"
  by (auto simp: radix_digit_def hex_digit_def is_digit_def)

lemma pct_byte_pct: "b < 256 \<Longrightarrow> pct_byte (pct b @ s) = Some (b, s)"
  by (simp add: pct_def radix_hex)

lemma unreserved_not_pct: "unreserved c \<Longrightarrow> c \<noteq> 37"
  by (auto simp: unreserved_def is_alnum_def is_digit_def is_upper_def is_lower_def)

lemma decode_plain: "c \<noteq> 37 \<Longrightarrow> decodeURIComponent (c # t) = res_bind (decodeURIComponent t) (\<lambda>u. Inr (c # u))"
  by (subst decodeURIComponent.simps) simp

lemma decode_code_point:
  "read_code_point (37 # s) = Some (cp, r) \<Longrightarrow>
   decodeURIComponent (37 # s) = res_bind (decodeURIComponent r) (\<lambda>u. Inr (utf16_units cp @ u))"
  by (subst decodeURIComponent.simps) simp

text \<open>The bytes of a code point outside the surrogates are read back as that code point.\<close>

lemma read_code_point_utf8:
  assumes "cp < 1114112" "\<not> (55296 \<le> cp \<and> cp < 57344)"
  shows "read_code_point (concat (map pct (utf8_bytes cp)) @ s) = Some (cp, s)"
proof -
  have d64: "cp div 4096 = cp div 64 div 64" "cp div 262144 = cp div 64 div 64 div 64"
    by (simp_all flip: div_mult2_eq)
  consider "cp < 128" | "128 \<le> cp" "cp < 2048" | "2048 \<le> cp" "cp < 65536" | "65536 \<le> cp" by linarith
  then show ?thesis
  proof cases
    case 1
    then show ?thesis by (simp add: utf8_bytes_def read_code_point_def pct_byte_pct)
  next
    case 2
    then have "cp div 64 < 32" by simp
    then show ?thesis using 2
      by (simp add: utf8_bytes_def read_code_point_def pct_byte_pct numeral_eq_Suc [of num.One] split: option.splits)
  next
    case 3
    then have b: "cp div 4096 < 16" by simp
    have "(cp div 4096 * 64 + cp div 64 mod 64) * 64 + cp mod 64 = cp"
      unfolding d64(1) by simp
    then show ?thesis using 3 b assms
      by (simp add: utf8_bytes_def read_code_point_def pct_byte_pct numeral_2_eq_2)
  next
    case 4
    then have b: "cp div 262144 < 8" using assms(1) by simp
    have "((cp div 262144 * 64 + cp div 4096 mod 64) * 64 + cp div 64 mod 64) * 64 + cp mod 64 = cp"
      unfolding d64 by simp
    then show ?thesis using 4 b assms
      by (simp add: utf8_bytes_def read_code_point_def pct_byte_pct numeral_3_eq_3)
  qed
qed

lemma utf8_pct_hd: "\<exists>t. concat (map pct (utf8_bytes cp)) = 37 # t"
  by (simp add: utf8_bytes_def pct_def)

lemma decode_utf8:
  assumes "cp < 1114112" "\<not> (55296 \<le> cp \<and> cp < 57344)"
  shows "decodeURIComponent (concat (map pct (utf8_bytes cp)) @ s) =
         res_bind (decodeURIComponent s) (\<lambda>u. Inr (utf16_units cp @ u))"
proof -
  obtain t where t: "concat (map pct (utf8_bytes cp)) = 37 # t" using utf8_pct_hd by blast
  show ?thesis
    using read_code_point_utf8 [OF assms, of s] unfolding t append_Cons by (rule decode_code_point)
qed

text \<open>Strings without lone surrogates.\<close>

fun well_formed :: "jsstr \<Rightarrow> bool" where
  "well_formed [] = True"
| "well_formed (c # s) =
     (c < 65536 \<and> \<not> low_surrogate c \<and>
      (if high_surrogate c then (case s of [] \<Rightarrow> False | d # t \<Rightarrow> low_surrogate d \<and> well_formed t)
       else well_formed s))"

lemma surrogate_pair:
  assumes "high_surrogate c" "low_surrogate d"
  shows "utf16_units (65536 + (c - 55296) * 1024 + (d - 56320)) = [c, d]"
    "65536 + (c - 55296) * 1024 + (d - 56320) < 1114112"
    "\<not> (55296 \<le> 65536 + (c - 55296) * 1024 + (d - 56320) \<and> 65536 + (c - 55296) * 1024 + (d - 56320) < 57344)"
proof -
  obtain c' d' where "c = 55296 + c'" "c' < 1024" "d = 56320 + d'" "d' < 1024"
    using assms unfolding high_surrogate_def low_surrogate_def
    by (intro that [of "c - 55296" "d - 56320"]) auto
  then show "utf16_units (65536 + (c - 55296) * 1024 + (d - 56320)) = [c, d]"
    "65536 + (c - 55296) * 1024 + (d - 56320) < 1114112"
    "\<not> (55296 \<le> 65536 + (c - 55296) * 1024 + (d - 56320) \<and> 65536 + (c - 55296) * 1024 + (d - 56320) < 57344)"
    by (auto simp: utf16_units_def)
qed

lemma not_unreserved_surrogate: "high_surrogate c \<Longrightarrow> \<not> unreserved c"
  by (auto simp: high_surrogate_def unreserved_def is_alnum_def is_digit_def is_upper_def is_lower_def)

lemma encode_decode: "well_formed s \<Longrightarrow> \<exists>e. encodeURIComponent s = Inr e \<and> decodeURIComponent e = Inr s"
proof (induction s rule: encodeURIComponent.induct)
  case 1
  then show ?case by (simp add: decodeURIComponent.simps)
next
  case (2 c s)
  consider "unreserved c" | "high_surrogate c" | "\<not> unreserved c" "\<not> high_surrogate c" by blast
  then show ?case
  proof cases
    case 1
    then have "\<not> high_surrogate c" using not_unreserved_surrogate by blast
    with 2 1 obtain e where "encodeURIComponent s = Inr e" "decodeURIComponent e = Inr s" by auto
    with 1 show ?thesis by (simp add: decode_plain unreserved_not_pct)
  next
    case hi: 2
    then obtain d t where s: "s = d # t" "low_surrogate d" "well_formed t" "\<not> low_surrogate c"
      using "2.prems" by (auto split: list.splits)
    then obtain e where e: "encodeURIComponent t = Inr e" "decodeURIComponent e = Inr t"
      using "2.IH"(2) hi not_unreserved_surrogate by blast
    show ?thesis
      using hi s e not_unreserved_surrogate [OF hi] decode_utf8 [OF surrogate_pair(2,3) [OF hi s(2)], of e]
        surrogate_pair(1) [OF hi s(2)] by simp
  next
    case 3
    then obtain e where e: "encodeURIComponent s = Inr e" "decodeURIComponent e = Inr s" "\<not> low_surrogate c" "c < 65536"
      using 2 by auto
    have "\<not> (55296 \<le> c \<and> c < 57344)" using 3(2) e(3) by (auto simp: high_surrogate_def low_surrogate_def)
    then show ?thesis using 3 e decode_utf8 [of c e] by (simp add: utf16_units_def)
  qed
qed

text \<open>Path segments survive the trip through a URL: for every string without lone surrogates,
  \<open>encodeURIComponent\<close> succeeds and \<open>decodeURIComponent\<close> gives the string back.\<close>

theorem uri_component_roundtrip:
  assumes "well_formed s"
  shows "res_bind (encodeURIComponent s) decodeURIComponent = Inr s"
  using encode_decode [OF assms] by auto

theorem uri_component_roundtrip_witness:
  "res_bind (encodeURIComponent [47, 55357, 56832]) decodeURIComponent = Inr [47, 55357, 56832]"
  by (rule uri_component_roundtrip) (simp add: high_surrogate_def low_surrogate_def)

end
