(* ===== verification/Proposal_Url.thy ===== *)
theory Proposal_Url
  imports Regex Js_Uri
begin

text \<open>
  Classification of the GitHub URLs stored with a proposal
  (\<open>frontend/src/lib/github/proposalUrl.ts\<close>).  \<open>parse_url\<close> stands for the \<open>URL\<close> constructor of the
  platform (\<open>None\<close> when it throws).
\<close>

section \<open>Data\<close>

datatype number_kind = Simd | Sgp

fun kind_name :: "number_kind \<Rightarrow> jsstr" where
  "kind_name Simd = js ''simd''"
| "kind_name Sgp = js ''sgp''"

fun kind_upper :: "number_kind \<Rightarrow> jsstr" where
  "kind_upper Simd = js ''SIMD''"
| "kind_upper Sgp = js ''SGP''"

record repo_ref =
  repo_owner :: jsstr
  repo_name :: jsstr

record proposal_ref =
  ref_number :: jsstr
  ref_kind :: number_kind
  ref_label :: jsstr

datatype unsupported_code = UEmpty | UNotAUrl | UNotHttps | UNotGithub | UTree | UUnrecognized

record blob =
  blob_repo :: repo_ref
  blob_gitRef :: jsstr
  blob_path :: jsstr
  blob_fileName :: jsstr
  blob_ref :: "proposal_ref option"

datatype parsed_url =
    Blob blob
  | Pull repo_ref number
  | Unsupported unsupported_code jsstr

record file_rule =
  rule_kind :: number_kind
  rule_pattern :: re

record repo_config =
  proposalDir :: "jsstr option"
  fileRules :: "file_rule list"
  defaultKind :: number_kind

section \<open>Repositories and file names\<close>

text \<open>\<open>/^(\d{1,5})(?:[-_.].*)?\.md$/i\<close> after its optional \<open>sgp-\<close>.\<close>

definition number_tail :: re where
  "number_tail = seq_re [Grp 1 (Rep digit 1 (Some 5) True),
     opt_re (Cat (Chr (\<lambda>c. c = 45 \<or> c = 95 \<or> c = 46)) (star any_char)),
     lit CHR ''.'', ci CHR ''m'', ci CHR ''d'', Eol False]"

definition SIMD_RULE :: file_rule where
  "SIMD_RULE = \<lparr>rule_kind = Simd, rule_pattern = Cat (Bol False) number_tail\<rparr>"

definition SGP_RULE :: file_rule where
  "SGP_RULE = \<lparr>rule_kind = Sgp, rule_pattern = Cat (Bol False) (Cat (word_ci ''sgp-'') number_tail)\<rparr>"

definition SIMD_REPO :: jsstr where
  "SIMD_REPO = js ''solana-foundation/solana-improvement-documents''"

definition SGP_REPO :: jsstr where
  "SGP_REPO = js ''solana-foundation/solana-governance-proposals''"

definition REPO_CONFIGS :: "(jsstr \<times> repo_config) list" where
  "REPO_CONFIGS =
     [(SIMD_REPO, \<lparr>proposalDir = Some (js ''proposals''), fileRules = [SIMD_RULE], defaultKind = Simd\<rparr>),
      (SGP_REPO, \<lparr>proposalDir = Some (js ''proposals''), fileRules = [SGP_RULE], defaultKind = Sgp\<rparr>)]"

definition DEFAULT_REPO_CONFIG :: repo_config where
  "DEFAULT_REPO_CONFIG = \<lparr>proposalDir = None, fileRules = [SGP_RULE, SIMD_RULE], defaultKind = Simd\<rparr>"

definition repoKey :: "repo_ref \<Rightarrow> jsstr" where
  "repoKey r = toLowerCase (repo_owner r) @ js ''/'' @ toLowerCase (repo_name r)"

definition isKnownProposalRepo :: "repo_ref \<Rightarrow> bool" where
  "isKnownProposalRepo r \<longleftrightarrow> map_of REPO_CONFIGS (repoKey r) \<noteq> None"

definition resolveRepoConfig :: "repo_ref \<Rightarrow> repo_config" where
  "resolveRepoConfig r = (case map_of REPO_CONFIGS (repoKey r) of Some c \<Rightarrow> c | None \<Rightarrow> DEFAULT_REPO_CONFIG)"

definition makeProposalRef :: "jsstr \<Rightarrow> number_kind \<Rightarrow> proposal_ref" where
  "makeProposalRef number kind =
     \<lparr>ref_number = number, ref_kind = kind, ref_label = kind_upper kind @ js ''-'' @ number\<rparr>"

fun ref_from_rules :: "jsstr \<Rightarrow> file_rule list \<Rightarrow> proposal_ref option" where
  "ref_from_rules fileName [] = None"
| "ref_from_rules fileName (rule # rules) =
     (case re_exec (rule_pattern rule) fileName of
        Some m \<Rightarrow> Some (makeProposalRef (re_group m 1) (rule_kind rule))
      | None \<Rightarrow> ref_from_rules fileName rules)"

definition proposalRefFromFileName :: "jsstr \<Rightarrow> repo_config \<Rightarrow> proposal_ref option" where
  "proposalRefFromFileName fileName config = ref_from_rules fileName (fileRules config)"

definition rawContentUrl :: "repo_ref \<Rightarrow> jsstr \<Rightarrow> jsstr \<Rightarrow> js_error + jsstr" where
  "rawContentUrl repo gitRef path =
     res_bind (res_map encodeURIComponent (split_on 47 path)) (\<lambda>parts.
     res_bind (encodeURIComponent (repo_owner repo)) (\<lambda>owner.
     res_bind (encodeURIComponent (repo_name repo)) (\<lambda>name.
     res_bind (encodeURIComponent gitRef) (\<lambda>r.
       Inr (js ''https://raw.githubusercontent.com/'' @ owner @ [47] @ name @ [47] @ r @ [47]
            @ join [47] parts)))))"

section \<open>Classification\<close>

definition blobResult :: "repo_ref \<Rightarrow> jsstr \<Rightarrow> jsstr list \<Rightarrow> parsed_url" where
  "blobResult repo gitRef pathParts =
     (let fileName = (if pathParts = [] then [] else last pathParts)
      in Blob \<lparr>blob_repo = repo, blob_gitRef = gitRef, blob_path = join [47] pathParts,
               blob_fileName = fileName,
               blob_ref = proposalRefFromFileName fileName (resolveRepoConfig repo)\<rparr>)"

definition decodeSegment :: "jsstr \<Rightarrow> jsstr" where
  "decodeSegment s = (case decodeURIComponent s of Inr t \<Rightarrow> t | Inl e \<Rightarrow> s)"

definition strip_www :: "jsstr \<Rightarrow> jsstr" where
  "strip_www h = (if startsWith h (js ''www.'') then drop 4 h else h)"

definition classify_github :: "jsstr \<Rightarrow> jsstr \<Rightarrow> jsstr option \<Rightarrow> jsstr list \<Rightarrow> parsed_url" where
  "classify_github owner name kind rest =
     (let repo = \<lparr>repo_owner = owner, repo_name = name\<rparr> in
      if kind = Some (js ''blob'') \<or> kind = Some (js ''raw'') then
        (if length rest < 2 then Unsupported UUnrecognized (js ''URL does not name a file'')
         else blobResult repo (hd rest) (tl rest))
      else if kind = Some (js ''tree'') then
        Unsupported UTree (js ''URL points at a directory listing, not a file'')
      else if kind = Some (js ''pull'') \<or> kind = Some (js ''pulls'') then
        (let pullNumber = (case rest of [] \<Rightarrow> NaN | x # _ \<Rightarrow> string_to_number x)
         in if \<not> is_integer_num pullNumber \<or> pullNumber \<le> Num 0
            then Unsupported UUnrecognized (js ''Pull request URL has no number'')
            else Pull repo pullNumber)
      else Unsupported UUnrecognized
             (case kind of
                Some k \<Rightarrow> if k \<noteq> [] then js ''Unrecognized GitHub URL type: /'' @ k @ js ''/''
                          else js ''URL points at a repository root, not a file''
              | None \<Rightarrow> js ''URL points at a repository root, not a file''))"

definition parseProposalUrl :: "(jsstr \<Rightarrow> url_parts option) \<Rightarrow> jsstr \<Rightarrow> parsed_url" where
  "parseProposalUrl parse_url rawUrl =
     (let trimmed = trim rawUrl in
      if trimmed = [] then Unsupported UEmpty (js ''No URL provided'')
      else case parse_url trimmed of
        None \<Rightarrow> Unsupported UNotAUrl (js ''Not a valid URL: '' @ trimmed)
      | Some url \<Rightarrow>
          if url_protocol url \<noteq> js ''https:'' then Unsupported UNotHttps (js ''URL must use https'')
          else
            let host = strip_www (toLowerCase (url_hostname url));
                segments = map decodeSegment (filter (\<lambda>s. s \<noteq> []) (split_on 47 (url_pathname url)))
            in if host = js ''raw.githubusercontent.com'' then
                 (case segments of
                    owner # name # gitRef # p # ps \<Rightarrow>
                      blobResult \<lparr>repo_owner = owner, repo_name = name\<rparr> gitRef (p # ps)
                  | _ \<Rightarrow> Unsupported UUnrecognized (js ''Not a raw file URL''))
               else if host \<noteq> js ''github.com'' then
                 Unsupported UNotGithub (js ''Not a github.com URL: '' @ url_hostname url)
               else
                 (case segments of
                    [owner, name] \<Rightarrow> classify_github owner name None []
                  | owner # name # kind # rest \<Rightarrow> classify_github owner name (Some kind) rest
                  | _ \<Rightarrow> Unsupported UUnrecognized (js ''URL does not name a repository'')))"

definition getProposalRefFromUrl :: "(jsstr \<Rightarrow> url_parts option) \<Rightarrow> jsstr \<Rightarrow> proposal_ref option" where
  "getProposalRefFromUrl parse_url url =
     (case parseProposalUrl parse_url url of Blob b \<Rightarrow> blob_ref b | _ \<Rightarrow> None)"

section \<open>Properties\<close>

text \<open>The number captured from a file name is one to five decimal digits.\<close>

definition valid_ref :: "proposal_ref \<Rightarrow> bool" where
  "valid_ref r \<longleftrightarrow> list_all is_digit (ref_number r) \<and> 1 \<le> length (ref_number r) \<and> length (ref_number r) \<le> 5 \<and>
     ref_label r = kind_upper (ref_kind r) @ js ''-'' @ ref_number r"

lemma number_tail_group:
  assumes "st' \<in> set (re_match number_tail st)"
  shows "\<exists>w. map_of (re_groups st') 1 = Some w \<and> list_all is_digit w \<and> 1 \<le> length w \<and> length w \<le> 5"
proof -
  let ?rest = "seq_re [opt_re (Cat (Chr (\<lambda>c. c = 45 \<or> c = 95 \<or> c = 46)) (star any_char)),
     lit CHR ''.'', ci CHR ''m'', ci CHR ''d'', Eol False]"
  have e: "number_tail = Cat (Grp 1 (Rep (Chr is_digit) 1 (Some 5) True)) ?rest"
    by (simp add: number_tail_def digit_def)
  obtain a where a: "a \<in> set (re_match (Grp 1 (Rep (Chr is_digit) 1 (Some 5) True)) st)"
    "st' \<in> set (re_match ?rest a)"
    using assms unfolding e re_match_Cat by blast
  have "groupless ?rest" by simp
  from re_match_groups [OF this a(2)] grp_chr [OF a(1)] show ?thesis by auto
qed

lemma rule_group:
  assumes "rule \<in> {SIMD_RULE, SGP_RULE}" "re_exec (rule_pattern rule) name = Some m"
  shows "list_all is_digit (re_group m 1) \<and> 1 \<le> length (re_group m 1) \<and> length (re_group m 1) \<le> 5"
proof -
  obtain r where r: "rule_pattern rule = Cat (Bol False) r" "r = number_tail \<or> r = Cat (word_ci ''sgp-'') number_tail"
    using assms(1) by (auto simp: SIMD_RULE_def SGP_RULE_def)
  obtain st where st: "m = (st, 0)" "st \<in> set (re_match r \<lparr>re_before = [], re_rest = name, re_groups = []\<rparr>)"
    using assms(2) unfolding r(1) re_exec_anchored by (auto split: list.splits)
  then obtain st0 where "st \<in> set (re_match number_tail st0)" using r(2) by auto
  from number_tail_group [OF this] show ?thesis by (auto simp: re_group_def st(1))
qed

lemma ref_from_rules_valid:
  "set rules \<subseteq> {SIMD_RULE, SGP_RULE} \<Longrightarrow> ref_from_rules name rules = Some r \<Longrightarrow>
   valid_ref r \<and> ref_kind r \<in> rule_kind ` set rules"
proof (induction rules)
  case (Cons rule rules)
  show ?case
  proof (cases "re_exec (rule_pattern rule) name")
    case None
    then show ?thesis using Cons by auto
  next
    case (Some m)
    have "rule \<in> {SIMD_RULE, SGP_RULE}" using Cons.prems(1) by simp
    from rule_group [OF this Some] Cons.prems(2) Some show ?thesis
      by (auto simp: makeProposalRef_def valid_ref_def)
  qed
qed simp

lemma config_rules: "set (fileRules (resolveRepoConfig repo)) \<subseteq> {SIMD_RULE, SGP_RULE}"
  by (auto simp: resolveRepoConfig_def REPO_CONFIGS_def DEFAULT_REPO_CONFIG_def split: option.splits if_splits)

lemma file_ref_valid:
  "proposalRefFromFileName name (resolveRepoConfig repo) = Some r \<Longrightarrow> valid_ref r"
  using ref_from_rules_valid [OF config_rules] by (auto simp: proposalRefFromFileName_def)

text \<open>Every result of the classifier that names a file is consistent with its path.\<close>

definition blob_ok :: "blob \<Rightarrow> bool" where
  "blob_ok b \<longleftrightarrow> (\<exists>parts. parts \<noteq> [] \<and> blob_path b = join [47] parts \<and> blob_fileName b = last parts) \<and>
     blob_ref b = proposalRefFromFileName (blob_fileName b) (resolveRepoConfig (blob_repo b)) \<and>
     (\<forall>r. blob_ref b = Some r \<longrightarrow> valid_ref r)"

lemma blobResult_ok: "parts \<noteq> [] \<Longrightarrow> \<exists>b. blobResult repo gitRef parts = Blob b \<and> blob_ok b"
  by (auto simp: blobResult_def blob_ok_def Let_def dest: file_ref_valid)

lemma classify_ok:
  "(case classify_github owner name kind rest of
      Blob b \<Rightarrow> blob_ok b
    | Pull repo n \<Rightarrow> is_integer_num n \<and> \<not> n \<le> Num 0
    | Unsupported c r \<Rightarrow> True)"
proof -
  have "2 \<le> length rest \<Longrightarrow> tl rest \<noteq> []" by (cases rest) auto
  then have b: "2 \<le> length rest \<Longrightarrow> \<exists>b. blobResult repo (hd rest) (tl rest) = Blob b \<and> blob_ok b" for repo
    using blobResult_ok by blast
  show ?thesis
    unfolding classify_github_def Let_def using b [of "\<lparr>repo_owner = owner, repo_name = name\<rparr>"]
    by (auto split: option.splits)
qed

lemma parse_ok:
  "(case parseProposalUrl parse_url url of
      Blob b \<Rightarrow> blob_ok b
    | Pull repo n \<Rightarrow> is_integer_num n \<and> \<not> n \<le> Num 0
    | Unsupported c r \<Rightarrow> True)"
proof -
  have "\<exists>b. blobResult repo g (p # ps) = Blob b \<and> blob_ok b" for repo g p ps
    by (rule blobResult_ok) simp
  then show ?thesis
    unfolding parseProposalUrl_def Let_def
    using classify_ok
    by (auto split: option.splits list.splits) (metis (no_types, lifting) parsed_url.simps(10))+
qed

text \<open>C35. The classifier answers for every input (it is total, whatever the URL parser returns), and
  its answers are consistent: a file result names the last component of its path and carries the
  number its repository's rules give, always one to five digits with the matching label; a pull
  request result carries a positive integer.\<close>

theorem parseProposalUrl_consistent:
  "(\<exists>b. parseProposalUrl parse_url url = Blob b \<and> blob_ok b) \<or>
   (\<exists>repo n. parseProposalUrl parse_url url = Pull repo n \<and> is_integer_num n \<and> Num 0 < n) \<or>
   (\<exists>c r. parseProposalUrl parse_url url = Unsupported c r)"
proof -
  have "is_integer_num n \<Longrightarrow> \<not> n \<le> Num 0 \<Longrightarrow> Num 0 < n" for n by (cases n) auto
  then show ?thesis using parse_ok [of parse_url url] by (cases "parseProposalUrl parse_url url") auto
qed

end
