(* ===== verification/Validate_Url.thy ===== *)
theory Validate_Url
  imports Proposal_Url
begin

text \<open>
  Validation of a proposal URL before it is written on chain
  (\<open>frontend/src/lib/github/validateProposalUrl.ts\<close>), and the check of the on-chain program it
  mirrors (\<open>is_valid_github_link\<close> of \<open>svmgov/program/programs/svmgov_program/src/utils.rs\<close>).
\<close>

section \<open>Data\<close>

datatype url_error_code =
    EEmpty | ENotAUrl | ENotHttps | ENotGithub | ENotAllowedRepo | EPullRequest | ETree
  | ENotMarkdown | EQueryOrFragment | ETooLong | ERejectedOnChain | EUnsupported

datatype url_warning_code = WMutableRef | WUnrecognizedFilename

record url_validation =
  v_ok :: bool
  v_errors :: "(url_error_code \<times> jsstr) list"
  v_warnings :: "(url_warning_code \<times> jsstr) list"
  v_parsed :: parsed_url
  v_normalized :: jsstr

definition MAX_DESCRIPTION_BYTES :: nat where
  "MAX_DESCRIPTION_BYTES = 500"

definition COMMIT_SHA :: re where
  "COMMIT_SHA = seq_re [Bol False,
     Rep (Chr (\<lambda>c. is_digit c \<or> (97 \<le> c \<and> c \<le> 102) \<or> (65 \<le> c \<and> c \<le> 70))) 40 (Some 40) True, Eol False]"

definition ON_CHAIN_PREFIX :: jsstr where
  "ON_CHAIN_PREFIX = js ''https://github.com/''"

definition on_chain_char :: "nat \<Rightarrow> bool" where
  "on_chain_char c \<longleftrightarrow> is_alnum c \<or> c = 45 \<or> c = 95 \<or> c = 46 \<or> c = 47"

definition ON_CHAIN_MIN_SEGMENTS :: nat where "ON_CHAIN_MIN_SEGMENTS = 2"
definition ON_CHAIN_MAX_SEGMENTS :: nat where "ON_CHAIN_MAX_SEGMENTS = 10"

text \<open>The dash in the messages is U+2014.\<close>

definition PULL_REQUEST_MESSAGE :: jsstr where
  "PULL_REQUEST_MESSAGE = join [10]
     [js ''Link to the proposal markdown file, not to a pull request.'', [],
      js ''Open the PR's '' @ [34] @ js ''Files changed'' @ [34]
        @ js '' tab, click the proposal .md file, and copy its URL '' @ [8212] @ js '' it looks like'',
      js ''https://github.com/<owner>/<repo>/blob/<commit-sha>/proposals/sgp-0001-....md'', [],
      js ''Prefer the commit SHA over a branch name: the description is stored on chain and cannot be'',
      js ''edited, so a branch link breaks once the branch moves or is deleted.'']"

section \<open>Operations\<close>

definition strip_trailing_slash :: "jsstr \<Rightarrow> jsstr" where
  "strip_trailing_slash s = (if s \<noteq> [] \<and> last s = 47 then butlast s else s)"

definition describeOnChainViolation :: "jsstr \<Rightarrow> jsstr option" where
  "describeOnChainViolation url =
     (let path = strip_trailing_slash (drop (length ON_CHAIN_PREFIX) url);
          segments = split_on 47 path
      in if list_ex (\<lambda>s. s = []) segments then
           Some (js ''The link contains an empty path segment, which the on-chain program rejects.'')
         else if list_ex (\<lambda>s. s = js ''..'') segments then
           Some (js ''The link contains a '' @ [34] @ js ''..'' @ [34]
                 @ js '' path-traversal segment, which the on-chain program rejects.'')
         else if length segments < ON_CHAIN_MIN_SEGMENTS \<or> length segments > ON_CHAIN_MAX_SEGMENTS then
           Some (js ''The link has '' @ dec (length segments)
                 @ js '' path segments; the on-chain program accepts '' @ dec ON_CHAIN_MIN_SEGMENTS
                 @ js ''-'' @ dec ON_CHAIN_MAX_SEGMENTS @ js ''.'')
         else case List.find (\<lambda>c. \<not> on_chain_char c) path of
                Some bad \<Rightarrow>
                  Some (js ''The link contains '' @ [34, bad, 34]
                    @ js '', which the on-chain program rejects; only ASCII letters, digits, '' @ [34, 45, 34]
                    @ js '', '' @ [34, 95, 34] @ js '' and '' @ [34, 46, 34] @ js '' are allowed in the path.'')
              | None \<Rightarrow> None)"

fun unsupported_error :: "unsupported_code \<Rightarrow> url_error_code \<times> jsstr" where
  "unsupported_error UEmpty = (EEmpty, js ''A GitHub link is required.'')"
| "unsupported_error UNotAUrl = (ENotAUrl, js ''This is not a valid URL.'')"
| "unsupported_error UNotHttps = (ENotHttps, js ''The link must start with https://.'')"
| "unsupported_error UNotGithub = (ENotGithub, js ''The link must point at github.com.'')"
| "unsupported_error UTree =
     (ETree, js ''This links to a directory. Link to the proposal markdown file itself.'')"
| "unsupported_error UUnrecognized =
     (EUnsupported, js ''Link to a file on GitHub, e.g. https://github.com/<owner>/<repo>/blob/<ref>/proposals/sgp-0001-....md'')"

definition md_suffix :: re where
  "md_suffix = seq_re [lit CHR ''.'', ci CHR ''m'', ci CHR ''d'', Eol False]"

definition blob_errors :: "jsstr \<Rightarrow> blob \<Rightarrow> (url_error_code \<times> jsstr) list" where
  "blob_errors trimmed b =
     (if \<not> re_test md_suffix (blob_fileName b)
      then [(ENotMarkdown, js ''The link must point at a .md file.'')] else [])
     @ (if list_ex (\<lambda>c. c = 63 \<or> c = 35) trimmed
        then [(EQueryOrFragment, js ''Remove the query string or #fragment '' @ [8212]
               @ js '' the on-chain program rejects them.'')] else [])
     @ (if MAX_DESCRIPTION_BYTES < utf8_length trimmed
        then [(ETooLong, js ''The link must be at most '' @ dec MAX_DESCRIPTION_BYTES @ js '' bytes.'')] else [])
     @ (case describeOnChainViolation trimmed of
          Some msg \<Rightarrow> [(ERejectedOnChain, msg)] | None \<Rightarrow> [])
     @ (if repo_owner (blob_repo b) @ js ''/'' @ repo_name (blob_repo b) \<noteq> SGP_REPO
        then [(ENotAllowedRepo, js ''The link must point to https://github.com/'' @ SGP_REPO @ js ''.'')] else [])"

definition blob_warnings :: "blob \<Rightarrow> (url_warning_code \<times> jsstr) list" where
  "blob_warnings b =
     (if \<not> re_test COMMIT_SHA (blob_gitRef b)
      then [(WMutableRef, [34] @ blob_gitRef b @ [34]
             @ js '' is a branch or tag. The description cannot be changed once on chain, so a full commit SHA is safer.'')]
      else [])
     @ (if blob_ref b = None
        then [(WUnrecognizedFilename, [34] @ blob_fileName b @ [34]
               @ js '' does not look like a proposal filename (expected sgp-0001-title.md or 0001-title.md), so no proposal number will be shown.'')]
        else [])"

definition validateProposalUrl :: "(jsstr \<Rightarrow> url_parts option) \<Rightarrow> jsstr \<Rightarrow> url_validation" where
  "validateProposalUrl parse_url url =
     (let trimmed = trim url;
          parsed = parseProposalUrl parse_url trimmed;
          fail = (\<lambda>e. \<lparr>v_ok = False, v_errors = [e], v_warnings = [], v_parsed = parsed, v_normalized = trimmed\<rparr>)
      in case parsed of
           Pull repo n \<Rightarrow> fail (EPullRequest, PULL_REQUEST_MESSAGE)
         | Unsupported ucode reason \<Rightarrow> fail (unsupported_error ucode)
         | Blob b \<Rightarrow>
             if \<not> startsWith trimmed ON_CHAIN_PREFIX then
               fail (ENotGithub, js ''The link must start with '' @ ON_CHAIN_PREFIX @ js '' '' @ [8212] @ js '' no ''
                       @ [34] @ js ''www.'' @ [34] @ js '', and not raw.githubusercontent.com.'')
             else
               \<lparr>v_ok = (blob_errors trimmed b = []), v_errors = blob_errors trimmed b,
                v_warnings = blob_warnings b, v_parsed = parsed, v_normalized = trimmed\<rparr>)"

definition assertValidProposalUrl :: "(jsstr \<Rightarrow> url_parts option) \<Rightarrow> jsstr \<Rightarrow> js_error + jsstr" where
  "assertValidProposalUrl parse_url url =
     (let v = validateProposalUrl parse_url url
      in if \<not> v_ok v then Inl (JsError (snd (hd (v_errors v)))) else Inr (v_normalized v))"

section \<open>The on-chain check\<close>

text \<open>The scan over the path: the number of complete segments and whether one is open; \<open>None\<close> when
  the program returns \<open>false\<close> inside the loop or after a forbidden character.\<close>

fun scan_path :: "nat \<Rightarrow> bool \<Rightarrow> jsstr \<Rightarrow> (nat \<times> bool) option" where
  "scan_path n open_seg [] = Some (n, open_seg)"
| "scan_path n open_seg (c # s) =
     (if c = 47 then (if \<not> open_seg \<or> 10 < n + 1 then None else scan_path (n + 1) False s)
      else if is_alnum c \<or> c = 45 \<or> c = 95 \<or> c = 46 then scan_path n True s
      else None)"

definition is_valid_github_link :: "jsstr \<Rightarrow> bool" where
  "is_valid_github_link link \<longleftrightarrow>
     startsWith link ON_CHAIN_PREFIX \<and>
     (let p = drop (length ON_CHAIN_PREFIX) link;
          path = (if endsWith p [47] then butlast p else p)
      in p \<noteq> [47] \<and> path \<noteq> [] \<and> hd path \<noteq> 47 \<and> startsWith path (SGP_REPO @ [47]) \<and>
         \<not> str_includes path (js ''/../'') \<and> \<not> endsWith path (js ''/..'') \<and>
         (case scan_path 0 False path of
            None \<Rightarrow> False
          | Some (n, open_seg) \<Rightarrow> (let k = (if open_seg then n + 1 else n) in 2 \<le> k \<and> k \<le> 10)))"

section \<open>What acceptance means\<close>

text \<open>The path of an accepted link, cut into its segments.\<close>

definition link_path :: "jsstr \<Rightarrow> jsstr" where
  "link_path url = strip_trailing_slash (drop (length ON_CHAIN_PREFIX) url)"

definition link_ok :: "jsstr \<Rightarrow> bool" where
  "link_ok url \<longleftrightarrow>
     (let segs = split_on 47 (link_path url)
      in (\<forall>s\<in>set segs. s \<noteq> [] \<and> s \<noteq> js ''..'' \<and> list_all on_chain_char s) \<and> 2 \<le> length segs \<and> length segs \<le> 10)"

lemma find_None_all: "List.find P xs = None \<longleftrightarrow> list_all (\<lambda>x. \<not> P x) xs"
  by (auto simp: find_None_iff list_all_iff)

lemma no_violation_iff: "describeOnChainViolation url = None \<Longrightarrow> link_ok url"
  unfolding describeOnChainViolation_def link_ok_def link_path_def Let_def
    ON_CHAIN_MIN_SEGMENTS_def ON_CHAIN_MAX_SEGMENTS_def
  by (auto simp: list_ex_iff find_None_all list_all_iff split: if_splits option.splits dest: split_on_chars)

lemma validate_okD:
  assumes "v_ok (validateProposalUrl parse_url url)"
  obtains b where "parseProposalUrl parse_url (trim url) = Blob b" "startsWith (trim url) ON_CHAIN_PREFIX"
    "link_ok (trim url)" "utf8_length (trim url) \<le> 500" "63 \<notin> set (trim url)" "35 \<notin> set (trim url)"
    "re_test md_suffix (blob_fileName b)"
    "repo_owner (blob_repo b) @ js ''/'' @ repo_name (blob_repo b) = SGP_REPO"
proof -
  obtain b where b: "parseProposalUrl parse_url (trim url) = Blob b" "startsWith (trim url) ON_CHAIN_PREFIX"
    "blob_errors (trim url) b = []"
    using assms unfolding validateProposalUrl_def Let_def by (auto split: parsed_url.splits if_splits)
  from b(3) have "re_test md_suffix (blob_fileName b)" "\<not> list_ex (\<lambda>c. c = 63 \<or> c = 35) (trim url)"
    "utf8_length (trim url) \<le> 500" "describeOnChainViolation (trim url) = None"
    "repo_owner (blob_repo b) @ js ''/'' @ repo_name (blob_repo b) = SGP_REPO"
    unfolding blob_errors_def MAX_DESCRIPTION_BYTES_def by (auto split: if_splits option.splits)
  then show ?thesis using b(1,2) no_violation_iff by (intro that) (auto simp: list_ex_iff)
qed

lemma split_on_mid: "c \<notin> set m \<Longrightarrow> m \<in> set (tl (split_on c (a @ c # m @ c # b)))"
proof (induction a)
  case (Cons x a)
  then show ?case by (cases "split_on c (a @ c # m @ c # b)") auto
qed (simp add: split_on_app)

lemma split_on_end: "c \<notin> set m \<Longrightarrow> m \<in> set (tl (split_on c (a @ c # m)))"
proof (induction a)
  case (Cons x a)
  then show ?case by (cases "split_on c (a @ c # m)") auto
qed (simp add: split_on_single)

lemma set_tl: "x \<in> set (tl xs) \<Longrightarrow> x \<in> set xs"
  by (cases xs) auto

lemma scan_segment:
  "list_all (\<lambda>c. on_chain_char c \<and> c \<noteq> 47) seg \<Longrightarrow> seg \<noteq> [] \<Longrightarrow> scan_path n o' (seg @ rest) = scan_path n True rest"
proof (induction seg arbitrary: o')
  case (Cons c seg)
  then show ?case by (cases seg) (auto simp: on_chain_char_def)
qed simp

lemma scan_join:
  assumes "segs \<noteq> []" "\<forall>s\<in>set segs. s \<noteq> [] \<and> list_all (\<lambda>c. on_chain_char c \<and> c \<noteq> 47) s"
    and "n + length segs \<le> 11"
  shows "scan_path n False (join [47] segs) = Some (n + length segs - 1, True)"
  using assms
proof (induction segs arbitrary: n rule: induct_list012)
  case (2 x)
  then show ?case using scan_segment [of x n False "[]"] by simp
next
  case (3 x y zs)
  have "scan_path n False (x @ 47 # join [47] (y # zs)) = scan_path (n + 1) False (join [47] (y # zs))"
    using scan_segment [of x n False "47 # join [47] (y # zs)"] 3 by simp
  then show ?case using "3.IH"(2) [of "n + 1"] 3(4,5) by simp
qed simp

text \<open>A link whose path is well formed and starts with the repository passes the program's check.\<close>

lemma link_ok_on_chain:
  assumes "startsWith url ON_CHAIN_PREFIX" "link_ok url" "startsWith (link_path url) (SGP_REPO @ [47])"
  shows "is_valid_github_link url"
proof -
  let ?p = "drop (length ON_CHAIN_PREFIX) url" and ?path = "link_path url"
  let ?segs = "split_on 47 ?path"
  have segs: "\<forall>s\<in>set ?segs. s \<noteq> [] \<and> s \<noteq> js ''..'' \<and> list_all on_chain_char s" "2 \<le> length ?segs" "length ?segs \<le> 10"
    using assms(2) by (auto simp: link_ok_def Let_def)
  have path: "?path = (if endsWith ?p [47] then butlast ?p else ?p)"
    by (cases ?p rule: rev_cases) (auto simp: link_path_def strip_trailing_slash_def endsWith_iff)
  have "\<forall>s\<in>set ?segs. s \<noteq> [] \<and> list_all (\<lambda>c. on_chain_char c \<and> c \<noteq> 47) s"
    using segs(1) split_on_no_sep [of _ 47 ?path] by (fastforce simp: list_all_iff)
  then have scan: "scan_path 0 False ?path = Some (length ?segs - 1, True)"
    using scan_join [of ?segs 0] segs(2,3) by simp
  have ne: "?path \<noteq> []" using segs(1) by auto
  have "?p \<noteq> [47]" using ne path by (auto simp: endsWith_iff)
  moreover have "hd ?path \<noteq> 47" using ne segs(1) by (cases ?path) auto
  moreover have "\<not> str_includes ?path (js ''/../'')"
  proof
    assume "str_includes ?path (js ''/../'')"
    then obtain a b where "?path = a @ 47 # js ''..'' @ 47 # b"
      unfolding str_includes_iff by (auto simp: js_def)
    then have "js ''..'' \<in> set ?segs" using split_on_mid [of 47 "js ''..''" a b] by (simp add: js_def set_tl)
    then show False using segs(1) by blast
  qed
  moreover have "\<not> endsWith ?path (js ''/..'')"
  proof
    assume "endsWith ?path (js ''/..'')"
    then obtain a where "?path = a @ 47 # js ''..''" by (auto simp: endsWith_iff js_def)
    then have "js ''..'' \<in> set ?segs" using split_on_end [of 47 "js ''..''" a] by (simp add: js_def set_tl)
    then show False using segs(1) by blast
  qed
  ultimately show ?thesis
    using assms(1,3) ne scan segs(2,3) unfolding is_valid_github_link_def Let_def path [symmetric] by simp
qed

section \<open>Frontend and program agree\<close>

text \<open>
  What is assumed of the URL parser: on a github.com link whose path consists of plain segments
  (the characters the program allows, no empty, \<open>.\<close> or \<open>..\<close> segment) it reports the scheme, the host
  and the path as written.
\<close>

definition plain_segments :: "jsstr list \<Rightarrow> bool" where
  "plain_segments segs \<longleftrightarrow> segs \<noteq> [] \<and>
     (\<forall>s\<in>set segs. s \<noteq> [] \<and> s \<noteq> js ''.'' \<and> s \<noteq> js ''..'' \<and> list_all (\<lambda>c. on_chain_char c \<and> c \<noteq> 47) s)"

definition url_parser_ok :: "(jsstr \<Rightarrow> url_parts option) \<Rightarrow> bool" where
  "url_parser_ok parse_url \<longleftrightarrow>
     (\<forall>segs tail. plain_segments segs \<and> (tail = [] \<or> tail = [47]) \<longrightarrow>
        (\<exists>u. parse_url (ON_CHAIN_PREFIX @ join [47] segs @ tail) = Some u \<and>
             url_protocol u = js ''https:'' \<and> url_hostname u = js ''github.com'' \<and>
             url_pathname u = 47 # join [47] segs @ tail))"

lemma split_on_snoc: "split_on c (s @ [c]) = split_on c s @ [[]]"
proof (induction s)
  case (Cons x s)
  then show ?case by (cases "split_on c s") auto
qed simp

lemma decode_no_pct: "37 \<notin> set s \<Longrightarrow> decodeURIComponent s = Inr s"
proof (induction s)
  case Nil
  then show ?case by (simp add: decodeURIComponent.simps)
next
  case (Cons c s)
  then show ?case using decode_plain [of c s] by auto
qed

lemma decodeSegment_plain: "list_all (\<lambda>c. on_chain_char c \<and> c \<noteq> 47) s \<Longrightarrow> decodeSegment s = s"
proof -
  assume "list_all (\<lambda>c. on_chain_char c \<and> c \<noteq> 47) s"
  then have "37 \<notin> set s"
    by (auto simp: list_all_iff on_chain_char_def is_alnum_def is_digit_def is_upper_def is_lower_def)
  then show ?thesis by (simp add: decodeSegment_def decode_no_pct)
qed

lemma path_segments:
  assumes "plain_segments segs" "tail = [] \<or> tail = [47]"
  shows "map decodeSegment (filter (\<lambda>s. s \<noteq> []) (split_on 47 (47 # join [47] segs @ tail))) = segs"
proof -
  have seg: "s \<in> set segs \<Longrightarrow> s \<noteq> [] \<and> 47 \<notin> set s \<and> decodeSegment s = s" for s
    using assms(1) decodeSegment_plain by (auto simp: plain_segments_def list_all_iff)
  have "split_on 47 (join [47] segs) = segs"
    using assms(1) seg by (intro split_join) (auto simp: plain_segments_def)
  then have "filter (\<lambda>s. s \<noteq> []) (split_on 47 (47 # join [47] segs @ tail)) = segs"
    using assms(2) seg by (auto simp: split_on_snoc filter_id_conv)
  then show ?thesis using seg by (simp add: map_idI)
qed

lemma github_host: "strip_www (toLowerCase (js ''github.com'')) = js ''github.com''"
  "js ''github.com'' \<noteq> js ''raw.githubusercontent.com''"
  by (simp_all add: strip_www_def toLowerCase_def lower_unit_def js_def is_upper_def)

lemma classify_Blob:
  "classify_github owner name kind rest = Blob b \<Longrightarrow>
   kind \<noteq> None \<and> blob_repo b = \<lparr>repo_owner = owner, repo_name = name\<rparr>"
  by (auto simp: classify_github_def Let_def blobResult_def split: if_splits option.splits)

definition parse_segments :: "jsstr list \<Rightarrow> parsed_url" where
  "parse_segments segs = (case segs of
        [owner, name] \<Rightarrow> classify_github owner name None []
      | owner # name # kind # rest \<Rightarrow> classify_github owner name (Some kind) rest
      | _ \<Rightarrow> Unsupported UUnrecognized (js ''URL does not name a repository''))"

lemma parse_github_path:
  assumes "parse_url t = Some u" "url_protocol u = js ''https:''" "url_hostname u = js ''github.com''"
    "url_pathname u = 47 # join [47] segs @ tail" "plain_segments segs" "tail = [] \<or> tail = [47]"
    "trim t = t" "t \<noteq> []"
  shows "parseProposalUrl parse_url t = parse_segments segs"
  unfolding parseProposalUrl_def Let_def assms(7) parse_segments_def
  by (simp add: assms github_host path_segments [OF assms(5,6)] del: join.simps split_on_simps)

lemma parsed_repo_in_path:
  assumes "url_parser_ok parse_url" "plain_segments segs" "tail = [] \<or> tail = [47]"
    and "parseProposalUrl parse_url (ON_CHAIN_PREFIX @ join [47] segs @ tail) = Blob b"
    and "trim (ON_CHAIN_PREFIX @ join [47] segs @ tail) = ON_CHAIN_PREFIX @ join [47] segs @ tail"
  shows "\<exists>rest. rest \<noteq> [] \<and> segs = repo_owner (blob_repo b) # repo_name (blob_repo b) # rest"
proof -
  let ?t = "ON_CHAIN_PREFIX @ join [47] segs @ tail"
  obtain u where u: "parse_url ?t = Some u" "url_protocol u = js ''https:''" "url_hostname u = js ''github.com''"
    "url_pathname u = 47 # join [47] segs @ tail"
    using assms(1-3) unfolding url_parser_ok_def by blast
  have "?t \<noteq> []" by (simp add: ON_CHAIN_PREFIX_def js_def)
  then have "parse_segments segs = Blob b"
    using parse_github_path [of parse_url ?t u segs tail] u assms by simp
  then show ?thesis by (auto simp: parse_segments_def split: list.splits dest: classify_Blob)
qed

lemma strip_slash_tail: "\<exists>tail. p = strip_trailing_slash p @ tail \<and> (tail = [] \<or> tail = [47])"
proof (cases "p \<noteq> [] \<and> last p = 47")
  case True
  then show ?thesis using append_butlast_last_id [of p]
    by (intro exI [of _ "[47]"]) (simp add: strip_trailing_slash_def)
next
  case False
  then show ?thesis by (intro exI [of _ "[]"]) (auto simp: strip_trailing_slash_def)
qed

lemma accepted_on_chain:
  assumes "url_parser_ok parse_url" "v_ok (validateProposalUrl parse_url url)"
    and "js ''.'' \<notin> set (split_on 47 (link_path (trim url)))"
  shows "is_valid_github_link (trim url) \<and> utf8_length (trim url) \<le> 500 \<and>
         63 \<notin> set (trim url) \<and> 35 \<notin> set (trim url) \<and>
         assertValidProposalUrl parse_url url = Inr (trim url)"
proof -
  obtain b where b: "parseProposalUrl parse_url (trim url) = Blob b" "startsWith (trim url) ON_CHAIN_PREFIX"
    "link_ok (trim url)" "utf8_length (trim url) \<le> 500" "63 \<notin> set (trim url)" "35 \<notin> set (trim url)"
    and repo: "repo_owner (blob_repo b) @ js ''/'' @ repo_name (blob_repo b) = SGP_REPO"
    using validate_okD [OF assms(2)] by metis
  let ?path = "link_path (trim url)"
  let ?segs = "split_on 47 ?path"
  obtain p where p: "trim url = ON_CHAIN_PREFIX @ p" using b(2) by (auto simp: startsWith_iff)
  obtain tail where tail: "p = ?path @ tail" "tail = [] \<or> tail = [47]"
    using strip_slash_tail [of p] by (auto simp: link_path_def p)
  have t: "trim url = ON_CHAIN_PREFIX @ join [47] ?segs @ tail" using p tail(1) by simp
  have plain: "plain_segments ?segs"
    unfolding plain_segments_def
  proof (intro conjI ballI)
    fix s assume s: "s \<in> set ?segs"
    then show "s \<noteq> []" "s \<noteq> js ''..''" "s \<noteq> js ''.''"
      using b(3) assms(3) by (auto simp: link_ok_def Let_def)
    show "list_all (\<lambda>c. on_chain_char c \<and> c \<noteq> 47) s"
      using b(3) s split_on_no_sep [OF s] by (auto simp: link_ok_def Let_def list_all_iff)
  qed simp
  obtain rest where rest: "rest \<noteq> []" "?segs = repo_owner (blob_repo b) # repo_name (blob_repo b) # rest"
    using parsed_repo_in_path [OF assms(1) plain tail(2)] b(1) unfolding t [symmetric] by auto
  have "?path = join [47] ?segs" by simp
  also have "\<dots> = SGP_REPO @ [47] @ join [47] rest"
    unfolding rest(2) using rest(1) repo by (simp add: join_Cons js_def)
  finally have "startsWith ?path (SGP_REPO @ [47])" by (auto simp: startsWith_iff)
  then have "is_valid_github_link (trim url)" by (rule link_ok_on_chain [OF b(2,3)])
  moreover have "assertValidProposalUrl parse_url url = Inr (trim url)"
    using assms(2) by (auto simp: assertValidProposalUrl_def validateProposalUrl_def Let_def
        split: parsed_url.splits if_splits)
  ultimately show ?thesis using b(4-6) by blast
qed

text \<open>C34. What the frontend accepts, the program accepts: under the stated behaviour of the URL
  parser, a link that passes validation and has no \<open>.\<close> path segment is accepted by the on-chain
  check in the form that is submitted (the trimmed link), which is at most 500 bytes, has no query
  or fragment, and is what \<open>assertValidProposalUrl\<close> returns.\<close>

theorem accepted_links_pass_on_chain:
  assumes "url_parser_ok parse_url" "v_ok (validateProposalUrl parse_url url)"
    and "js ''.'' \<notin> set (split_on 47 (link_path (trim url)))"
  shows "is_valid_github_link (trim url) \<and> utf8_length (trim url) \<le> 500 \<and>
         63 \<notin> set (trim url) \<and> 35 \<notin> set (trim url) \<and>
         assertValidProposalUrl parse_url url = Inr (trim url)"
  using accepted_on_chain [OF assms] .

text \<open>A parser for github.com links that, as the URL standard says, drops \<open>.\<close> segments.\<close>

definition github_parser :: "jsstr \<Rightarrow> url_parts option" where
  "github_parser s =
     (if startsWith s ON_CHAIN_PREFIX then
        Some \<lparr>url_protocol = js ''https:'', url_hostname = js ''github.com'',
          url_pathname = 47 # join [47] (filter (\<lambda>x. x \<noteq> js ''.'') (split_on 47 (drop (length ON_CHAIN_PREFIX) s))),
          url_search_ref = None\<rparr>
      else None)"

lemma github_parser_ok: "url_parser_ok github_parser"
  unfolding url_parser_ok_def
proof (intro allI impI)
  fix segs and tail :: jsstr assume a: "plain_segments segs \<and> (tail = [] \<or> tail = [47])"
  have seg: "s \<in> set segs \<Longrightarrow> 47 \<notin> set s \<and> s \<noteq> js ''.''" for s
    using a by (auto simp: plain_segments_def list_all_iff)
  then have "split_on 47 (join [47] segs) = segs"
    using a by (intro split_join) (auto simp: plain_segments_def)
  then have "filter (\<lambda>x. x \<noteq> js ''.'') (split_on 47 (join [47] segs @ tail)) = segs @ (if tail = [] then [] else [[]])"
    using a seg by (auto simp: split_on_snoc filter_id_conv)
  moreover have "join [47] (segs @ (if tail = [] then [] else [[]])) = join [47] segs @ tail"
    using a by (induction segs rule: induct_list012) (auto simp: plain_segments_def)
  ultimately show "\<exists>u. github_parser (ON_CHAIN_PREFIX @ join [47] segs @ tail) = Some u \<and>
      url_protocol u = js ''https:'' \<and> url_hostname u = js ''github.com'' \<and>
      url_pathname u = 47 # join [47] segs @ tail"
    by (simp add: github_parser_def startsWith_iff del: js_eq_iff)
qed

definition sample_segments :: "jsstr list" where
  "sample_segments = [js ''solana-foundation'', js ''solana-governance-proposals'', js ''blob'', js ''main'', js ''a.md'']"

definition sample_link :: jsstr where
  "sample_link = ON_CHAIN_PREFIX @ join [47] sample_segments"

definition dotted_link :: jsstr where
  "dotted_link = ON_CHAIN_PREFIX @ join [47] (js ''.'' # sample_segments)"

definition sample_blob :: blob where
  "sample_blob = \<lparr>blob_repo = \<lparr>repo_owner = js ''solana-foundation'', repo_name = js ''solana-governance-proposals''\<rparr>,
     blob_gitRef = js ''main'', blob_path = js ''a.md'', blob_fileName = js ''a.md'', blob_ref = None\<rparr>"

lemma sample_segments_plain: "plain_segments sample_segments"
  by (simp add: plain_segments_def sample_segments_def js_def on_chain_char_def is_alnum_def is_digit_def
      is_upper_def is_lower_def)

lemmas link_eval = ON_CHAIN_PREFIX_def sample_segments_def js_def

lemma sample_trim: "trim sample_link = sample_link" "trim dotted_link = dotted_link"
  by (rule trim_id, simp add: sample_link_def dotted_link_def link_eval is_space_def)+

lemma sample_split:
  "split_on 47 (join [47] sample_segments) = sample_segments"
  "split_on 47 (join [47] (js ''.'' # sample_segments)) = js ''.'' # sample_segments"
  by (rule split_join; auto simp: sample_segments_def js_def)+

lemma sample_filter:
  "filter (\<lambda>x. x \<noteq> js ''.'') sample_segments = sample_segments"
  by (simp add: sample_segments_def js_def)

lemma sample_name_unmatched:
  "re_exec (rule_pattern SIMD_RULE) (js ''a.md'') = None" "re_exec (rule_pattern SGP_RULE) (js ''a.md'') = None"
  by (simp add: js_def, code_simp)+

lemma no_rule_ref:
  "set rules \<subseteq> {SIMD_RULE, SGP_RULE} \<Longrightarrow> ref_from_rules (js ''a.md'') rules = None"
  by (induction rules) (auto simp: sample_name_unmatched)

lemma sample_parse:
  assumes "t \<in> {sample_link, dotted_link}"
  shows "parseProposalUrl github_parser t = Blob sample_blob"
proof -
  have "github_parser t = Some \<lparr>url_protocol = js ''https:'', url_hostname = js ''github.com'',
          url_pathname = 47 # join [47] sample_segments @ [], url_search_ref = None\<rparr>"
    using assms by (auto simp: github_parser_def sample_link_def dotted_link_def startsWith_iff sample_split
        sample_filter simp del: join.simps split_on_simps)
  moreover have "parse_segments sample_segments = Blob sample_blob"
    by (simp add: parse_segments_def sample_segments_def sample_blob_def classify_github_def blobResult_def
        proposalRefFromFileName_def no_rule_ref [OF config_rules] Let_def)
  moreover have "trim t = t" "t \<noteq> []"
    using assms sample_trim by (auto simp: sample_link_def dotted_link_def link_eval)
  ultimately show ?thesis
    using parse_github_path [of github_parser t _ sample_segments "[]"] sample_segments_plain by simp
qed

lemma sample_no_errors:
  assumes "t \<in> {sample_link, dotted_link}"
  shows "blob_errors t sample_blob = []"
proof -
  have path: "drop (length ON_CHAIN_PREFIX) t \<in> {join [47] sample_segments, join [47] (js ''.'' # sample_segments)}"
    using assms by (auto simp: sample_link_def dotted_link_def simp del: join.simps)
  have strip: "strip_trailing_slash (join [47] sample_segments) = join [47] sample_segments"
    "strip_trailing_slash (join [47] (js ''.'' # sample_segments)) = join [47] (js ''.'' # sample_segments)"
    by (simp_all add: strip_trailing_slash_def link_eval)
  have chars: "List.find (\<lambda>c. \<not> on_chain_char c) (join [47] sample_segments) = None"
    "List.find (\<lambda>c. \<not> on_chain_char c) (join [47] (js ''.'' # sample_segments)) = None"
    by (simp_all add: find_None_all link_eval on_chain_char_def is_alnum_def is_digit_def is_upper_def is_lower_def)
  have "describeOnChainViolation t = None"
    using path strip chars
    by (auto simp: describeOnChainViolation_def Let_def sample_split ON_CHAIN_MIN_SEGMENTS_def ON_CHAIN_MAX_SEGMENTS_def
        simp del: join.simps split_on_simps) (simp_all add: sample_segments_def js_def)
  moreover have "re_test md_suffix (js ''a.md'')" by code_simp
  moreover have "\<forall>c\<in>set t. c < 128" "length t \<le> 500" "\<not> list_ex (\<lambda>c. c = 63 \<or> c = 35) t"
    using assms by (auto simp: sample_link_def dotted_link_def link_eval)
  ultimately show ?thesis
    by (simp add: blob_errors_def sample_blob_def MAX_DESCRIPTION_BYTES_def utf8_length_ascii)
      (simp add: SGP_REPO_def js_def)
qed

lemma sample_valid: "t \<in> {sample_link, dotted_link} \<Longrightarrow> v_ok (validateProposalUrl github_parser t)"
  using sample_parse [of t] sample_no_errors [of t] sample_trim
  by (auto simp: validateProposalUrl_def Let_def startsWith_iff sample_link_def dotted_link_def)

lemma sample_path: "link_path sample_link = join [47] sample_segments"
  by (simp add: link_path_def strip_trailing_slash_def sample_link_def) (simp add: link_eval)

theorem accepted_links_pass_on_chain_witness:
  "is_valid_github_link (trim sample_link) \<and> assertValidProposalUrl github_parser sample_link = Inr sample_link"
  using accepted_links_pass_on_chain [of github_parser sample_link] github_parser_ok sample_valid [of sample_link]
  by (simp add: sample_trim sample_path sample_split) (simp add: sample_segments_def js_def)

text \<open>The restriction to links without a \<open>.\<close> segment is needed: with a parser that follows the URL
  standard, a link with a \<open>.\<close> segment before the repository is accepted by the frontend and refused by
  the program.\<close>

theorem dot_segment_gap:
  "url_parser_ok github_parser \<and> v_ok (validateProposalUrl github_parser dotted_link) \<and>
   assertValidProposalUrl github_parser dotted_link = Inr dotted_link \<and> \<not> is_valid_github_link dotted_link"
proof -
  have "v_ok (validateProposalUrl github_parser dotted_link)" by (rule sample_valid) simp
  moreover from this have "assertValidProposalUrl github_parser dotted_link = Inr dotted_link"
    by (auto simp: assertValidProposalUrl_def validateProposalUrl_def Let_def sample_trim
        split: parsed_url.splits if_splits)
  moreover have "\<not> is_valid_github_link dotted_link"
    by (simp add: is_valid_github_link_def Let_def dotted_link_def SGP_REPO_def link_eval startsWith_iff endsWith_iff)
  ultimately show ?thesis using github_parser_ok by simp
qed

end
