(* ===== verification/Proposal_Instructions.thy ===== *)
theory Proposal_Instructions
  imports Vote_Instructions Validate_Url
begin

text \<open>
  The transaction builders that create, support and finalize a proposal: \<open>createProposal\<close>,
  \<open>supportProposal\<close>, \<open>finalizeProposal\<close> and \<open>addMerkleRoot\<close> of \<open>frontend/src/chain/instructions/\<close>.
\<close>

section \<open>createProposal\<close>

definition MAX_SAFE_INTEGER :: number where
  "MAX_SAFE_INTEGER = Num 9007199254740991"

text \<open>\<open>Math.random\<close> is drawn when the seed is needed; it is no interaction with the outside.\<close>

definition proposal_seed :: "chain_env \<Rightarrow> number option \<Rightarrow> (event, int) io" where
  "proposal_seed env seed =
     (\<lambda>l. io_lift (bn_of_number env
            (case seed of Some s \<Rightarrow> s | None \<Rightarrow> math_floor (math_random env l * MAX_SAFE_INTEGER))) l)"

definition create_instruction ::
  "chain_env \<Rightarrow> program \<Rightarrow> pubkey \<Rightarrow> pubkey \<Rightarrow> int \<Rightarrow> jsstr \<Rightarrow> jsstr \<Rightarrow> js_error + instruction" where
  "create_instruction env prog signer spl seed title description =
     res_bind (deriveProposalAccount env seed spl) (\<lambda>proposalPda.
     res_bind (deriveProposalIndexPda env (prog_id prog)) (\<lambda>index.
     res_bind (deriveGlobalConfigPda env (prog_id prog)) (\<lambda>config.
       build_ix env
         (ProgramIx (prog_id prog) (CreateProposalIx seed title description)
            [(''signer'', signer), (''proposal'', proposalPda), (''splVoteAccount'', spl),
             (''systemProgram'', system_program_id env), (''proposalIndex'', index),
             (''globalConfig'', config)]))))"

definition createProposal ::
  "chain_env \<Rightarrow> (jsstr \<Rightarrow> url_parts option) \<Rightarrow> create_proposal_params \<Rightarrow> blockchain_params \<Rightarrow>
   (event, transaction_result) io" where
  "createProposal env parse_url p bp =
     with_wallet (cp_wallet p) (\<lambda>w signer.
     io_bind (io_lift (assertValidProposalUrl parse_url (cp_description p))) (\<lambda>description.
     io_bind (proposal_seed env (cp_seed p)) (\<lambda>seed.
     io_bind (io_lift (createProgramWithWallet env w (Some (bp_endpoint bp)))) (\<lambda>prog.
     io_bind (io_call (GetVoteAccounts (prog_endpoint prog))
                (\<lambda>l. ans_vote_accounts env l (prog_endpoint prog))) (\<lambda>accounts.
     io_bind (io_lift (find_vote_account env signer accounts)) (\<lambda>va.
     io_bind (io_lift (new_PublicKey env (va_votePubkey va))) (\<lambda>spl.
     io_bind (io_lift (create_instruction env prog signer spl seed (cp_title p) description)) (\<lambda>ix.
     io_bind (submit_transaction env w signer (prog_endpoint prog) [ix]) (\<lambda>sig.
       io_return (success_result sig))))))))))"

section \<open>supportProposal\<close>

text \<open>The supporter count, or the program's cap when it cannot be read.\<close>

definition read_supporters :: "chain_env \<Rightarrow> jsstr \<Rightarrow> pubkey \<Rightarrow> (event, number) io" where
  "read_supporters env ep proposal =
     io_try (io_bind (io_call (FetchProposal ep proposal) (\<lambda>l. ans_proposal env l ep proposal))
               (\<lambda>account. io_return (pr_numSupporters account)))
       (\<lambda>e. io_return MAX_SUPPORTERS)"

definition support_snapshot_slot :: "(number \<Rightarrow> number) \<Rightarrow> epoch_info \<Rightarrow> support_config \<Rightarrow> number" where
  "support_snapshot_slot getFirstSlotInEpoch info c =
     getFirstSlotInEpoch (ei_epoch info + sc_discussionEpochs c + sc_snapshotEpochExtension c)
     + sc_snapshotSlotOffset c"

definition ballotBoxPda :: "chain_env \<Rightarrow> number \<Rightarrow> js_error + pubkey" where
  "ballotBoxPda env snapshotSlot =
     res_bind (bn_of_number env snapshotSlot) (\<lambda>n.
     res_bind (bn_le8 env n) (\<lambda>b.
       findProgramAddressSync env [js ''BallotBox'', b] (snapshot_program_id env)))"

definition programConfigPda :: "chain_env \<Rightarrow> js_error + pubkey" where
  "programConfigPda env = findProgramAddressSync env [js ''ProgramConfig''] (snapshot_program_id env)"

definition support_instruction ::
  "chain_env \<Rightarrow> program \<Rightarrow> pubkey \<Rightarrow> pubkey \<Rightarrow> pubkey \<Rightarrow> pubkey \<Rightarrow> pubkey \<Rightarrow> pubkey \<Rightarrow> js_error + instruction" where
  "support_instruction env prog signer proposal supportPda spl ballotBox programConfig =
     res_bind (deriveGlobalConfigPda env (prog_id prog)) (\<lambda>config.
       build_ix env
         (ProgramIx (prog_id prog) SupportProposalIx
            [(''signer'', signer), (''proposal'', proposal), (''support'', supportPda),
             (''splVoteAccount'', spl), (''systemProgram'', system_program_id env),
             (''ballotBox'', ballotBox), (''ballotProgram'', snapshot_program_id env),
             (''programConfig'', programConfig), (''globalConfig'', config)]))"

definition supportProposal ::
  "chain_env \<Rightarrow> support_params \<Rightarrow> blockchain_params \<Rightarrow> number option \<Rightarrow> chain_vote_account option \<Rightarrow>
   support_config \<Rightarrow> (event, transaction_result) io" where
  "supportProposal env p bp slot validatorVoteAccount config =
     with_wallet (su_wallet p) (\<lambda>w signer.
     io_bind (io_guard (slot \<noteq> None) (JsError (js ''Slot is not defined''))) (\<lambda>_.
     io_bind (io_lift (createProgramWithWallet env w (Some (bp_endpoint bp)))) (\<lambda>prog.
     (case validatorVoteAccount of
        None \<Rightarrow> io_throw (JsError (js ''No SPL vote account found for validator identity '' @ toBase58 env signer))
      | Some va \<Rightarrow>
     io_bind (io_lift (new_PublicKey env (su_proposalId p))) (\<lambda>proposal.
     io_bind (io_lift (new_PublicKey env (cv_voteAccount va))) (\<lambda>spl.
     io_bind (read_supporters env (prog_endpoint prog) proposal) (\<lambda>numSupporters.
     io_bind (io_lift (deriveSupportPda env proposal spl (prog_id prog))) (\<lambda>supportPda.
     io_bind (io_call (GetEpochInfo (prog_endpoint prog)) (\<lambda>l. ans_epoch_info env l (prog_endpoint prog))) (\<lambda>info.
     io_bind (io_call (GetEpochSchedule (prog_endpoint prog)) (\<lambda>l. ans_first_slot env l (prog_endpoint prog))) (\<lambda>firstSlot.
     io_bind (io_lift (ballotBoxPda env (support_snapshot_slot firstSlot info config))) (\<lambda>ballotBox.
     io_bind (io_lift (programConfigPda env)) (\<lambda>programConfig.
     io_bind (io_lift (support_instruction env prog signer proposal supportPda spl ballotBox programConfig)) (\<lambda>ix.
     io_bind (submit_transaction env w signer (prog_endpoint prog)
                [ComputeUnitLimitIx (supportComputeUnitLimit numSupporters), ix]) (\<lambda>sig.
       io_return (success_result sig)))))))))))))))"

section \<open>finalizeProposal and addMerkleRoot\<close>

definition failure_result :: "js_error \<Rightarrow> transaction_result" where
  "failure_result e = \<lparr>res_signature = [], res_success = False, res_error = Some (err_message e)\<rparr>"

type_synonym finalize_params = support_params

definition finalizeProposal ::
  "chain_env \<Rightarrow> finalize_params \<Rightarrow> blockchain_params \<Rightarrow> (event, transaction_result) io" where
  "finalizeProposal env p bp =
     io_try
       (with_wallet (su_wallet p) (\<lambda>w signer.
        io_bind (io_lift (new_PublicKey env (su_proposalId p))) (\<lambda>proposal.
        io_bind (io_lift (createProgramWithWallet env w (Some (bp_endpoint bp)))) (\<lambda>prog.
        let ix = ProgramIx (prog_id prog) FinalizeProposalIx [(''signer'', signer), (''proposal'', proposal)] in
        io_bind (io_call (AnchorRpc (prog_endpoint prog) ix) (\<lambda>l. ans_anchor_rpc env l (prog_endpoint prog) ix)) (\<lambda>tx.
          io_return (success_result tx))))))
       (\<lambda>e. io_return (failure_result e))"

definition addMerkleRoot :: "wallet option \<Rightarrow> (event, transaction_result) io" where
  "addMerkleRoot w =
     io_try (with_wallet w (\<lambda>_ _. io_throw (JsError (js ''Not implemented''))))
       (\<lambda>e. io_return (failure_result e))"

section \<open>Signing and submissions\<close>

lemma signed_seed: "signed.safe env s (proposal_seed e sd)"
  by (auto simp: signed.safe_def emits_def proposal_seed_def io_lift_def)

lemma quiet_seed: "quiet.safe (proposal_seed e sd)"
  by (auto simp: quiet.safe_def emits_def proposal_seed_def io_lift_def)

lemma signed_createProposal:
  "cp_wallet p = Some w \<Longrightarrow> w_publicKey w = Some signer \<Longrightarrow> signed.safe env signer (createProposal env pu p bp)"
  unfolding createProposal_def
  by (erule (1) signed_with_wallet) (rule signed_seed signed_intros signed_submit_transaction | simp)+

lemma signed_read_supporters: "signed.safe env s (read_supporters e ep q)"
  unfolding read_supporters_def by (rule signed.safe_try signed_intros | simp)+

lemma quiet_read_supporters: "quiet.safe (read_supporters e ep q)"
  unfolding read_supporters_def by (rule quiet.safe_try quiet_intros | simp)+

lemma signed_supportProposal:
  "su_wallet p = Some w \<Longrightarrow> w_publicKey w = Some signer \<Longrightarrow>
   signed.safe env signer (supportProposal env p bp slot va c)"
  unfolding supportProposal_def
  by (erule (1) signed_with_wallet)
     (rule signed_read_supporters signed.safe_bind_guard signed_intros signed_submit_transaction | simp)+

section \<open>Successful runs\<close>

lemma createProposal_success:
  assumes "createProposal env parse_url p bp l = (Inr res, l')"
  shows "\<exists>w signer prog accounts va spl seed ix hash t.
    cp_wallet p = Some w \<and> w_publicKey w = Some signer \<and> v_ok (validateProposalUrl parse_url (cp_description p)) \<and>
    createProgramWithWallet env w (Some (bp_endpoint bp)) = Inr prog \<and>
    ans_vote_accounts env l (prog_endpoint prog) = Inr accounts \<and> find_vote_account env signer accounts = Inr va \<and>
    new_PublicKey env (va_votePubkey va) = Inr spl \<and>
    create_instruction env prog signer spl seed (cp_title p) (trim (cp_description p)) = Inr ix \<and>
    l' = l @ [GetVoteAccounts (prog_endpoint prog), GetLatestBlockhash (prog_endpoint prog),
              SignRequest (new_transaction [ix] signer hash), SendRaw (prog_endpoint prog) t] \<and>
    signed_ok env signer (SendRaw (prog_endpoint prog) t) \<and> res_success res"
proof -
  from assms obtain w signer description seed prog accounts va spl ix sig where
    w: "cp_wallet p = Some w" "w_publicKey w = Some signer" and
    d: "assertValidProposalUrl parse_url (cp_description p) = Inr description" and
    a: "createProgramWithWallet env w (Some (bp_endpoint bp)) = Inr prog"
      "ans_vote_accounts env l (prog_endpoint prog) = Inr accounts" "find_vote_account env signer accounts = Inr va"
      "new_PublicKey env (va_votePubkey va) = Inr spl" and
    ix: "create_instruction env prog signer spl seed (cp_title p) description = Inr ix" and
    sub: "submit_transaction env w signer (prog_endpoint prog) [ix] (l @ [GetVoteAccounts (prog_endpoint prog)]) = (Inr sig, l')" and
    res: "res = success_result sig"
    unfolding createProposal_def with_wallet_success proposal_seed_def by (auto simp: io_success)
  have v: "v_ok (validateProposalUrl parse_url (cp_description p))" "description = trim (cp_description p)"
    using d by (auto simp: assertValidProposalUrl_def validateProposalUrl_def Let_def split: parsed_url.splits if_splits)
  obtain hash t where "l' = l @ [GetVoteAccounts (prog_endpoint prog), GetLatestBlockhash (prog_endpoint prog),
      SignRequest (new_transaction [ix] signer hash), SendRaw (prog_endpoint prog) t]"
    "signed_ok env signer (SendRaw (prog_endpoint prog) t)"
    using submit_success [OF sub] by auto
  then show ?thesis using w a ix v res by (simp only: success_result_def transaction_result.simps) blast
qed

lemma read_supporters_run:
  "read_supporters env ep q l =
     (Inr (case ans_proposal env l ep q of Inr a \<Rightarrow> pr_numSupporters a | Inl e \<Rightarrow> MAX_SUPPORTERS), l @ [FetchProposal ep q])"
  by (simp add: read_supporters_def io_defs split: sum.splits)

lemma supportProposal_success:
  assumes "supportProposal env p bp slot va config l = (Inr res, l')"
  shows "\<exists>w signer prog proposal info firstSlot supportPda spl ballotBox programConfig ix hash t.
    su_wallet p = Some w \<and> w_publicKey w = Some signer \<and> slot \<noteq> None \<and>
    createProgramWithWallet env w (Some (bp_endpoint bp)) = Inr prog \<and> new_PublicKey env (su_proposalId p) = Inr proposal \<and>
    (let ep = prog_endpoint prog;
         n = (case ans_proposal env l ep proposal of Inr a \<Rightarrow> pr_numSupporters a | Inl e \<Rightarrow> MAX_SUPPORTERS)
     in ans_epoch_info env (l @ [FetchProposal ep proposal]) ep = Inr info \<and>
        ans_first_slot env (l @ [FetchProposal ep proposal, GetEpochInfo ep]) ep = Inr firstSlot \<and>
        ballotBoxPda env (support_snapshot_slot firstSlot info config) = Inr ballotBox \<and>
        support_instruction env prog signer proposal supportPda spl ballotBox programConfig = Inr ix \<and>
        l' = l @ [FetchProposal ep proposal, GetEpochInfo ep, GetEpochSchedule ep, GetLatestBlockhash ep,
          SignRequest (new_transaction [ComputeUnitLimitIx (supportComputeUnitLimit n), ix] signer hash), SendRaw ep t] \<and>
        signed_ok env signer (SendRaw ep t)) \<and> res_success res"
proof -
  from assms obtain w signer prog proposal spl supportPda info firstSlot ballotBox programConfig ix sig where
    w: "su_wallet p = Some w" "w_publicKey w = Some signer" "slot \<noteq> None" and
    a: "createProgramWithWallet env w (Some (bp_endpoint bp)) = Inr prog" "new_PublicKey env (su_proposalId p) = Inr proposal"
      "ans_epoch_info env (l @ [FetchProposal (prog_endpoint prog) proposal]) (prog_endpoint prog) = Inr info"
      "ans_first_slot env (l @ [FetchProposal (prog_endpoint prog) proposal, GetEpochInfo (prog_endpoint prog)])
         (prog_endpoint prog) = Inr firstSlot"
      "ballotBoxPda env (support_snapshot_slot firstSlot info config) = Inr ballotBox"
      "support_instruction env prog signer proposal supportPda spl ballotBox programConfig = Inr ix" and
    sub: "submit_transaction env w signer (prog_endpoint prog)
       [ComputeUnitLimitIx (supportComputeUnitLimit
          (case ans_proposal env l (prog_endpoint prog) proposal of Inr a \<Rightarrow> pr_numSupporters a | Inl e \<Rightarrow> MAX_SUPPORTERS)), ix]
       (l @ [FetchProposal (prog_endpoint prog) proposal, GetEpochInfo (prog_endpoint prog),
             GetEpochSchedule (prog_endpoint prog)]) = (Inr sig, l')" and
    res: "res = success_result sig"
    unfolding supportProposal_def with_wallet_success
    by (auto simp: io_success io_guard_def read_supporters_run split: option.splits if_splits)
  from submit_success [OF sub] show ?thesis
    using w a res by (simp only: success_result_def transaction_result.simps Let_def append.simps append_assoc) blast
qed

section \<open>Properties\<close>

text \<open>C12. A proposal is created only with a link that passed validation: with any other description the
  builder fails before the first external call; and when it succeeds, the wallet was asked to sign
  one instruction that carries the validated, trimmed link and the vote account the RPC node lists
  for the connected identity, and the signed transaction is the only submission.  Under the stated
  behaviour of the URL parser the link on chain passes the program's own check.\<close>

theorem createProposal_validates_link:
  "(\<not> v_ok (validateProposalUrl parse_url (cp_description p)) \<longrightarrow> (\<exists>e. createProposal env parse_url p bp l = (Inl e, l))) \<and>
   (\<forall>res l'. createProposal env parse_url p bp l = (Inr res, l') \<longrightarrow>
     (\<exists>w signer prog accounts va spl seed ix hash t.
       cp_wallet p = Some w \<and> w_publicKey w = Some signer \<and>
       ans_vote_accounts env l (prog_endpoint prog) = Inr accounts \<and> find_vote_account env signer accounts = Inr va \<and>
       new_PublicKey env (va_votePubkey va) = Inr spl \<and>
       create_instruction env prog signer spl seed (cp_title p) (trim (cp_description p)) = Inr ix \<and>
       l' = l @ [GetVoteAccounts (prog_endpoint prog), GetLatestBlockhash (prog_endpoint prog),
                 SignRequest (new_transaction [ix] signer hash), SendRaw (prog_endpoint prog) t] \<and>
       signed_ok env signer (SendRaw (prog_endpoint prog) t)) \<and>
     (url_parser_ok parse_url \<and> js ''.'' \<notin> set (split_on 47 (link_path (trim (cp_description p)))) \<longrightarrow>
       is_valid_github_link (trim (cp_description p))))"
proof (intro conjI impI allI)
  assume "\<not> v_ok (validateProposalUrl parse_url (cp_description p))"
  then show "\<exists>e. createProposal env parse_url p bp l = (Inl e, l)"
    by (auto simp: createProposal_def with_wallet_def assertValidProposalUrl_def Let_def io_defs split: option.splits)
next
  fix res l' assume run: "createProposal env parse_url p bp l = (Inr res, l')"
  note s = createProposal_success [OF run]
  show "\<exists>w signer prog accounts va spl seed ix hash t.
       cp_wallet p = Some w \<and> w_publicKey w = Some signer \<and>
       ans_vote_accounts env l (prog_endpoint prog) = Inr accounts \<and> find_vote_account env signer accounts = Inr va \<and>
       new_PublicKey env (va_votePubkey va) = Inr spl \<and>
       create_instruction env prog signer spl seed (cp_title p) (trim (cp_description p)) = Inr ix \<and>
       l' = l @ [GetVoteAccounts (prog_endpoint prog), GetLatestBlockhash (prog_endpoint prog),
                 SignRequest (new_transaction [ix] signer hash), SendRaw (prog_endpoint prog) t] \<and>
       signed_ok env signer (SendRaw (prog_endpoint prog) t)"
    using s by blast
  show "is_valid_github_link (trim (cp_description p))"
    if "url_parser_ok parse_url \<and> js ''.'' \<notin> set (split_on 47 (link_path (trim (cp_description p))))"
    using s that accepted_on_chain [of parse_url "cp_description p"] by blast
qed

text \<open>C13. Support requests the right ballot box and budget: a successful support reads the proposal,
  the epoch and the schedule, asks the wallet to sign a compute limit for the supporter count that
  was read (the program's cap when the read failed) followed by the support instruction, whose
  ballot box belongs to the slot at the configured offset in the epoch after discussion and
  snapshot extension; the signed transaction is the only submission and the last event.\<close>

theorem support_budget_and_ballot_box:
  assumes "supportProposal env p bp slot va config l = (Inr res, l')"
  shows "\<exists>w signer prog proposal info firstSlot supportPda spl ballotBox programConfig ix hash t.
    su_wallet p = Some w \<and> w_publicKey w = Some signer \<and> slot \<noteq> None \<and>
    createProgramWithWallet env w (Some (bp_endpoint bp)) = Inr prog \<and> new_PublicKey env (su_proposalId p) = Inr proposal \<and>
    (let ep = prog_endpoint prog;
         n = (case ans_proposal env l ep proposal of Inr a \<Rightarrow> pr_numSupporters a | Inl e \<Rightarrow> MAX_SUPPORTERS)
     in ans_epoch_info env (l @ [FetchProposal ep proposal]) ep = Inr info \<and>
        ans_first_slot env (l @ [FetchProposal ep proposal, GetEpochInfo ep]) ep = Inr firstSlot \<and>
        ballotBoxPda env (support_snapshot_slot firstSlot info config) = Inr ballotBox \<and>
        support_instruction env prog signer proposal supportPda spl ballotBox programConfig = Inr ix \<and>
        l' = l @ [FetchProposal ep proposal, GetEpochInfo ep, GetEpochSchedule ep, GetLatestBlockhash ep,
          SignRequest (new_transaction [ComputeUnitLimitIx (supportComputeUnitLimit n), ix] signer hash), SendRaw ep t] \<and>
        signed_ok env signer (SendRaw ep t)) \<and> res_success res"
  using supportProposal_success [OF assms] .

lemma finalize_run:
  "(\<exists>ep ix. finalizeProposal env p bp l =
      (Inr (case ans_anchor_rpc env l ep ix of Inr sig \<Rightarrow> success_result sig | Inl e \<Rightarrow> failure_result e),
       l @ [AnchorRpc ep ix])) \<or>
   (\<exists>e. finalizeProposal env p bp l = (Inr (failure_result e), l))"
proof -
  have call: "io_try (io_bind (io_call (AnchorRpc ep ix) (\<lambda>l. ans_anchor_rpc env l ep ix)) (\<lambda>tx. io_return (success_result tx)))
      (\<lambda>e. io_return (failure_result e)) l =
      (Inr (case ans_anchor_rpc env l ep ix of Inr sig \<Rightarrow> success_result sig | Inl e \<Rightarrow> failure_result e),
       l @ [AnchorRpc ep ix])" for ep ix
    by (simp add: io_defs split: sum.splits)
  consider "\<forall>w. su_wallet p = Some w \<longrightarrow> w_publicKey w = None"
    | w signer e where "su_wallet p = Some w" "w_publicKey w = Some signer" "new_PublicKey env (su_proposalId p) = Inl e"
    | w signer proposal e where "su_wallet p = Some w" "w_publicKey w = Some signer"
        "new_PublicKey env (su_proposalId p) = Inr proposal" "createProgramWithWallet env w (Some (bp_endpoint bp)) = Inl e"
    | w signer proposal prog where "su_wallet p = Some w" "w_publicKey w = Some signer"
        "new_PublicKey env (su_proposalId p) = Inr proposal" "createProgramWithWallet env w (Some (bp_endpoint bp)) = Inr prog"
    by (metis not_None_eq sum.exhaust)
  then show ?thesis
  proof cases
    case 1
    then have "finalizeProposal env p bp l = (Inr (failure_result wallet_not_connected), l)"
      by (simp add: finalizeProposal_def with_wallet_def io_return_def split: option.splits)
    then show ?thesis by blast
  next
    case (2 w signer e)
    then have "finalizeProposal env p bp l = (Inr (failure_result e), l)"
      by (simp add: finalizeProposal_def with_wallet_def io_defs)
    then show ?thesis by blast
  next
    case (3 w signer proposal e)
    then have "finalizeProposal env p bp l = (Inr (failure_result e), l)"
      by (simp add: finalizeProposal_def with_wallet_def io_defs)
    then show ?thesis by blast
  next
    case (4 w signer proposal prog)
    then show ?thesis by (simp add: finalizeProposal_def with_wallet_def Let_def call)
  qed
qed

text \<open>Finalizing never throws: it reports success exactly when Anchor's single call was answered with
  a signature, and otherwise a failure with the message of the error; when it failed before the call
  the log is unchanged.  Adding a merkle root always reports failure and never touches the chain.\<close>

theorem finalize_reports_outcome:
  "((\<exists>ep ix sig. ans_anchor_rpc env l ep ix = Inr sig \<and>
      finalizeProposal env p bp l = (Inr (success_result sig), l @ [AnchorRpc ep ix])) \<or>
    (\<exists>ep ix e. ans_anchor_rpc env l ep ix = Inl e \<and>
      finalizeProposal env p bp l = (Inr (failure_result e), l @ [AnchorRpc ep ix])) \<or>
    (\<exists>e. finalizeProposal env p bp l = (Inr (failure_result e), l))) \<and>
   (\<exists>e. addMerkleRoot w l = (Inr (failure_result e), l))"
proof
  show "\<exists>e. addMerkleRoot w l = (Inr (failure_result e), l)"
    by (auto simp: addMerkleRoot_def with_wallet_def io_defs split: option.splits)
qed (use finalize_run [of env p bp l] in \<open>force split: sum.splits\<close>)

section \<open>Runs in the sample world\<close>

definition sample_create :: create_proposal_params where
  "sample_create = \<lparr>cp_title = js ''t'', cp_description = sample_link, cp_seed = Some (inum 5),
     cp_wallet = Some sample_wallet\<rparr>"

definition sample_support_params :: support_params where
  "sample_support_params = \<lparr>su_proposalId = js ''prop'', su_wallet = Some sample_wallet\<rparr>"

definition sample_vote_account :: chain_vote_account where
  "sample_vote_account = \<lparr>cv_activeStake = inum 1, cv_voteAccount = js ''va'', cv_nodePubkey = js ''id''\<rparr>"

definition sample_config :: support_config where
  "sample_config = \<lparr>sc_discussionEpochs = inum 4, sc_snapshotEpochExtension = inum 1, sc_snapshotSlotOffset = inum 1000\<rparr>"

lemma sample_more_fields:
  "bn_le8 (sample_env b) = (\<lambda>i. Inr [nat i])" "ans_first_slot (sample_env b) = (\<lambda>l e. Inr (\<lambda>x. x))"
  "ans_epoch_info (sample_env b) = (\<lambda>l e. Inr \<lparr>ei_absoluteSlot = inum 1000, ei_slotIndex = inum 0, ei_epoch = inum 2,
        ei_slotsInEpoch = inum 500\<rparr>)"
  by (simp_all add: sample_env_def http_env_def)

lemma sample_assert: "assertValidProposalUrl github_parser sample_link = Inr sample_link"
  using sample_valid [of sample_link]
  by (auto simp: assertValidProposalUrl_def validateProposalUrl_def Let_def sample_trim split: parsed_url.splits if_splits)

lemma sample_create_run: "\<exists>res l'. createProposal (sample_env True) github_parser sample_create sample_chain [] = (Inr res, l')"
  by (simp add: createProposal_def sample_create_def sample_eval sample_defs sample_assert proposal_seed_def
      create_instruction_def deriveProposalAccount_def deriveProposalIndexPda_def deriveGlobalConfigPda_def sample_more_fields)

lemma sample_support_run:
  "\<exists>res l'. supportProposal (sample_env True) sample_support_params sample_chain (Some (inum 0)) (Some sample_vote_account) sample_config [] = (Inr res, l')"
  by (simp add: supportProposal_def sample_support_params_def sample_eval sample_defs io_guard_def read_supporters_def
      ballotBoxPda_def programConfigPda_def support_instruction_def deriveGlobalConfigPda_def deriveSupportPda_def
      sample_more_fields sample_vote_account_def)

theorem createProposal_validates_link_witness:
  "\<exists>l'. snd (createProposal (sample_env True) github_parser sample_create sample_chain []) = l' \<and>
     submissions l' \<noteq> [] \<and> is_valid_github_link (trim sample_link)"
proof -
  obtain res l' where run: "createProposal (sample_env True) github_parser sample_create sample_chain [] = (Inr res, l')"
    using sample_create_run by blast
  have d: "cp_description sample_create = sample_link" by (simp add: sample_create_def)
  have "js ''.'' \<notin> set (split_on 47 (link_path (trim sample_link)))"
    by (simp add: sample_trim sample_path sample_split) (simp add: sample_segments_def js_def)
  then show ?thesis
    using createProposal_validates_link [of github_parser sample_create "sample_env True" sample_chain "[]"] run github_parser_ok
    unfolding d by auto
qed

theorem support_budget_and_ballot_box_witness:
  "\<exists>l'. snd (supportProposal (sample_env True) sample_support_params sample_chain (Some (inum 0)) (Some sample_vote_account)
       sample_config []) = l' \<and> submissions l' \<noteq> []"
proof -
  obtain res l' where run: "supportProposal (sample_env True) sample_support_params sample_chain (Some (inum 0))
      (Some sample_vote_account) sample_config [] = (Inr res, l')"
    using sample_support_run by blast
  from support_budget_and_ballot_box [OF run] show ?thesis unfolding run by (auto simp: Let_def)
qed

end
