(* ===== verification/Pick_File.thy ===== *)
theory Pick_File
  imports Proposal_Url "HOL-Library.Multiset" "HOL-Library.List_Lexorder"
begin

text \<open>
  Choosing the proposal document among the files of a pull request
  (\<open>frontend/src/lib/github/pickProposalFile.ts\<close>).  Strings are compared by their UTF-16 units, the
  lexicographic order on lists.
\<close>

section \<open>Data and operations\<close>

record pull_file =
  pf_filename :: jsstr
  pf_status :: jsstr
  pf_contents_url :: jsstr

record picked_file =
  pk_path :: jsstr
  pk_headSha :: jsstr
  pk_ref :: proposal_ref

datatype pick_result =
    PickOk picked_file
  | PickNone
  | PickAmbiguous "jsstr list"

definition headShaFromContentsUrl :: "(jsstr \<Rightarrow> url_parts option) \<Rightarrow> jsstr \<Rightarrow> jsstr option" where
  "headShaFromContentsUrl parse_url contentsUrl =
     (case parse_url contentsUrl of None \<Rightarrow> None | Some u \<Rightarrow> url_search_ref u)"

definition basename :: "jsstr \<Rightarrow> jsstr" where
  "basename path = last (split_on 47 path)"

definition dirname :: "jsstr \<Rightarrow> jsstr" where
  "dirname path = (case lastIndexOf path 47 of None \<Rightarrow> [] | Some i \<Rightarrow> take i path)"

definition candidate :: "(jsstr \<Rightarrow> url_parts option) \<Rightarrow> repo_config \<Rightarrow> pull_file \<Rightarrow> picked_file option" where
  "candidate parse_url config file =
     (case proposalRefFromFileName (basename (pf_filename file)) config of
        None \<Rightarrow> None
      | Some r \<Rightarrow>
          if proposalDir config \<noteq> None \<and> Some (dirname (pf_filename file)) \<noteq> proposalDir config then None
          else case headShaFromContentsUrl parse_url (pf_contents_url file) of
                 None \<Rightarrow> None
               | Some sha \<Rightarrow> if sha = [] then None
                             else Some \<lparr>pk_path = pf_filename file, pk_headSha = sha, pk_ref = r\<rparr>)"

definition pickProposalFile ::
  "(jsstr \<Rightarrow> url_parts option) \<Rightarrow> pull_file list \<Rightarrow> repo_config \<Rightarrow> pick_result" where
  "pickProposalFile parse_url files config =
     (let candidates = List.map_filter
            (\<lambda>file. case candidate parse_url config file of None \<Rightarrow> None | Some c \<Rightarrow> Some (file, c))
            (filter (\<lambda>file. pf_status file \<noteq> js ''removed'') files);
          added = filter (\<lambda>(file, c). pf_status file = js ''added'') candidates;
          contenders = (if added \<noteq> [] then added else candidates)
      in if candidates = [] then PickNone
         else if 1 < length contenders then PickAmbiguous (sort (map (\<lambda>(file, c). pk_path c) contenders))
         else PickOk (snd (hd contenders)))"

section \<open>Properties\<close>

text \<open>The files that can be the document, and those that compete for it.\<close>

definition eligible :: "(jsstr \<Rightarrow> url_parts option) \<Rightarrow> repo_config \<Rightarrow> pull_file \<Rightarrow> bool" where
  "eligible parse_url config file \<longleftrightarrow>
     pf_status file \<noteq> js ''removed'' \<and> candidate parse_url config file \<noteq> None"

definition contenders :: "(jsstr \<Rightarrow> url_parts option) \<Rightarrow> repo_config \<Rightarrow> pull_file list \<Rightarrow> pull_file list" where
  "contenders parse_url config files =
     (let added = filter (\<lambda>f. eligible parse_url config f \<and> pf_status f = js ''added'') files
      in if added \<noteq> [] then added else filter (eligible parse_url config) files)"

definition picked :: "(jsstr \<Rightarrow> url_parts option) \<Rightarrow> repo_config \<Rightarrow> pull_file \<Rightarrow> picked_file" where
  "picked parse_url config file = the (candidate parse_url config file)"

lemma candidate_path: "candidate parse_url config f = Some c \<Longrightarrow> pk_path c = pf_filename f"
  by (auto simp: candidate_def split: option.splits if_splits)

lemma candidates_eq:
  "List.map_filter (\<lambda>file. case candidate parse_url config file of None \<Rightarrow> None | Some c \<Rightarrow> Some (file, c))
     (filter (\<lambda>file. pf_status file \<noteq> js ''removed'') files) =
   map (\<lambda>f. (f, picked parse_url config f)) (filter (eligible parse_url config) files)"
  by (induction files) (auto simp: map_filter_simps eligible_def picked_def split: option.splits)

lemma contenders_eligible: "set (contenders parse_url config files) \<subseteq> {f \<in> set files. eligible parse_url config f}"
  by (auto simp: contenders_def Let_def)

lemma contenders_Nil: "contenders parse_url config files = [] \<longleftrightarrow> filter (eligible parse_url config) files = []"
  by (auto simp: contenders_def Let_def filter_empty_conv)

lemma pick_eq:
  "pickProposalFile parse_url files config =
     (let cs = contenders parse_url config files
      in if cs = [] then PickNone
         else if 1 < length cs then PickAmbiguous (sort (map pf_filename cs))
         else PickOk (picked parse_url config (hd cs)))"
proof -
  let ?pair = "\<lambda>f. (f, picked parse_url config f)" and ?cs = "contenders parse_url config files"
  have added: "filter (\<lambda>(file, c). pf_status file = js ''added'') (map ?pair (filter (eligible parse_url config) files)) =
    map ?pair (filter (\<lambda>f. eligible parse_url config f \<and> pf_status f = js ''added'') files)"
    by (simp add: filter_map comp_def conj_commute)
  have cs: "(if filter (\<lambda>f. eligible parse_url config f \<and> pf_status f = js ''added'') files \<noteq> []
      then map ?pair (filter (\<lambda>f. eligible parse_url config f \<and> pf_status f = js ''added'') files)
      else map ?pair (filter (eligible parse_url config) files)) = map ?pair ?cs"
    by (simp add: contenders_def Let_def)
  have "map (\<lambda>f. pk_path (picked parse_url config f)) ?cs = map pf_filename ?cs"
    using contenders_eligible [of parse_url config files]
    by (auto simp: eligible_def picked_def candidate_path)
  moreover have "?cs \<noteq> [] \<Longrightarrow> snd (hd (map ?pair ?cs)) = picked parse_url config (hd ?cs)" by (simp add: hd_map)
  ultimately show ?thesis
    unfolding pickProposalFile_def candidates_eq added Let_def map_is_Nil_conv cs
    by (simp add: contenders_Nil comp_def cong: map_cong)
qed

lemma contenders_perm:
  "mset fs = mset gs \<Longrightarrow> mset (contenders parse_url config fs) = mset (contenders parse_url config gs)"
proof -
  assume eq: "mset fs = mset gs"
  then have "(filter P fs = []) \<longleftrightarrow> (filter P gs = [])" for P
    using mset_eq_setD [OF eq] by (auto simp: filter_empty_conv)
  then show ?thesis using eq by (auto simp: contenders_def Let_def)
qed

text \<open>The choice is decided by the changed files alone: it does not depend on the order in which the
  service lists them; a document is picked exactly when one eligible file stands alone (the only
  added one, or the only one when none was added), and otherwise every path that competes is
  reported.  A picked file was not removed, lies in the proposal directory, has a number and the
  head commit of the pull request.\<close>

theorem pickProposalFile_decides:
  assumes "mset files = mset files'"
  shows "pickProposalFile parse_url files config = pickProposalFile parse_url files' config \<and>
    (case pickProposalFile parse_url files config of
       PickNone \<Rightarrow> filter (eligible parse_url config) files = []
     | PickOk p \<Rightarrow> \<exists>f\<in>set files. contenders parse_url config files = [f] \<and> eligible parse_url config f \<and>
         candidate parse_url config f = Some p \<and> pk_path p = pf_filename f \<and>
         (proposalDir config = None \<or> proposalDir config = Some (dirname (pf_filename f))) \<and>
         proposalRefFromFileName (basename (pf_filename f)) config = Some (pk_ref p) \<and>
         headShaFromContentsUrl parse_url (pf_contents_url f) = Some (pk_headSha p)
     | PickAmbiguous paths \<Rightarrow> 2 \<le> length paths \<and> sorted paths \<and>
         mset paths = image_mset pf_filename (mset (contenders parse_url config files)))"
proof
  note perm = contenders_perm [OF assms, of parse_url config]
  have "sort (map pf_filename (contenders parse_url config files)) = sort (map pf_filename (contenders parse_url config files'))"
    using perm by (intro properties_for_sort) simp_all
  moreover have "hd (contenders parse_url config files) = hd (contenders parse_url config files')"
    if "length (contenders parse_url config files) = 1"
    using that perm by (auto simp: length_Suc_conv mset_single_iff_right)
  ultimately show "pickProposalFile parse_url files config = pickProposalFile parse_url files' config"
    using mset_eq_length [OF perm] unfolding pick_eq Let_def
    by (cases "contenders parse_url config files"; cases "contenders parse_url config files'") auto
  show "case pickProposalFile parse_url files config of
       PickNone \<Rightarrow> filter (eligible parse_url config) files = []
     | PickOk p \<Rightarrow> \<exists>f\<in>set files. contenders parse_url config files = [f] \<and> eligible parse_url config f \<and>
         candidate parse_url config f = Some p \<and> pk_path p = pf_filename f \<and>
         (proposalDir config = None \<or> proposalDir config = Some (dirname (pf_filename f))) \<and>
         proposalRefFromFileName (basename (pf_filename f)) config = Some (pk_ref p) \<and>
         headShaFromContentsUrl parse_url (pf_contents_url f) = Some (pk_headSha p)
     | PickAmbiguous paths \<Rightarrow> 2 \<le> length paths \<and> sorted paths \<and>
         mset paths = image_mset pf_filename (mset (contenders parse_url config files))"
  proof (cases "contenders parse_url config files" rule: remdups_adj.cases)
    case 1
    then show ?thesis using contenders_Nil [of parse_url config files] by (simp add: pick_eq)
  next
    case (2 f)
    then show ?thesis using contenders_eligible [of parse_url config files]
      by (auto simp: pick_eq eligible_def picked_def candidate_def split: option.splits if_splits)
  next
    case (3 f g gs)
    then show ?thesis by (simp add: pick_eq Let_def del: sort_key_simps)
  qed
qed

definition sample_file :: "string \<Rightarrow> string \<Rightarrow> pull_file" where
  "sample_file name status = \<lparr>pf_filename = js name, pf_status = js status, pf_contents_url = []\<rparr>"

definition sample_url :: "jsstr \<Rightarrow> url_parts option" where
  "sample_url u = Some \<lparr>url_protocol = [], url_hostname = [], url_pathname = [], url_search_ref = Some (js ''abc'')\<rparr>"

theorem pickProposalFile_decides_witness:
  "pickProposalFile sample_url [sample_file ''b.md'' ''added'', sample_file ''a.md'' ''modified''] DEFAULT_REPO_CONFIG =
   pickProposalFile sample_url [sample_file ''a.md'' ''modified'', sample_file ''b.md'' ''added''] DEFAULT_REPO_CONFIG"
  using pickProposalFile_decides [of "[sample_file ''b.md'' ''added'', sample_file ''a.md'' ''modified'']"
      "[sample_file ''a.md'' ''modified'', sample_file ''b.md'' ''added'']" sample_url DEFAULT_REPO_CONFIG]
  by (simp add: add_mset_commute)

end
