(* ===== verification/Proposal_Document.thy ===== *)
theory Proposal_Document
  imports Proposal_Url
begin

text \<open>
  The text of a proposal: its heading (\<open>frontend/src/lib/github/proposalHeading.ts\<close>), and the number
  and summary read from its markdown (\<open>frontend/src/lib/github/proposalMarkdown.ts\<close>).
\<close>

section \<open>Headings\<close>

definition space_chr :: re where "space_chr = Chr is_space"

definition TITLE_PREFIX :: re where
  "TITLE_PREFIX = seq_re [Bol False, opt_re (lit CHR ''#''), star space_chr,
     Grp 1 (Alt (word_ci ''simd'') (word_ci ''sgp'')), star (Chr (\<lambda>c. is_space c \<or> c = 45)),
     star (lit CHR ''0''), Grp 2 (Rep digit 1 (Some 5) True), WordB]"

definition titleNamesProposal :: "jsstr \<Rightarrow> proposal_ref \<Rightarrow> bool" where
  "titleNamesProposal title r =
     (case re_exec TITLE_PREFIX (trimStart title) of
        None \<Rightarrow> False
      | Some m \<Rightarrow> toLowerCase (re_group m 1) = kind_name (ref_kind r) \<and>
                  seq (string_to_number (re_group m 2)) (string_to_number (ref_number r)))"

definition formatProposalHeading :: "proposal_ref option \<Rightarrow> jsstr \<Rightarrow> jsstr" where
  "formatProposalHeading r title =
     (case r of None \<Rightarrow> title
      | Some r \<Rightarrow> if titleNamesProposal title r then title else ref_label r @ js '': '' @ title)"

section \<open>Markdown\<close>

definition blank :: re where "blank = Chr (\<lambda>c. c = 32 \<or> c = 9)"
definition quote_opt :: re where "quote_opt = opt_re (Chr (\<lambda>c. c = 39 \<or> c = 34))"
definition newline :: re where "newline = Cat (opt_re (Chr (\<lambda>c. c = 13))) (Chr (\<lambda>c. c = 10))"

definition FRONTMATTER :: re where
  "FRONTMATTER = seq_re [Bol False, word_lit ''---'', newline, Grp 1 (lazy_star (Chr (\<lambda>c. True))),
     newline, word_lit ''---'']"

definition NUMBER_LINE :: re where
  "NUMBER_LINE = seq_re [Bol True, star blank, Grp 1 (Alt (word_ci ''simd'') (word_ci ''sgp'')), star blank,
     lit CHR '':'', star blank, quote_opt, Grp 2 (plus_re digit), quote_opt, star blank, Eol True]"

definition hashes :: re where "hashes = Rep (lit CHR ''#'') 1 (Some 6) True"

definition SUMMARY_HEADING :: re where
  "SUMMARY_HEADING = seq_re [Bol False, hashes, star blank, word_ci ''summary'', star blank,
     opt_re (lit CHR '':''), star blank, Eol False]"

definition ANY_HEADING :: re where
  "ANY_HEADING = seq_re [Bol False, hashes, blank]"

definition FALLBACK_SUMMARY_MAX_LENGTH :: nat where
  "FALLBACK_SUMMARY_MAX_LENGTH = 600"

text \<open>\<open>replace(/^(?:\r?\n)+/, "")\<close> and \<open>split(/\r?\n/)\<close>.\<close>

fun drop_newlines :: "jsstr \<Rightarrow> jsstr" where
  "drop_newlines [] = []"
| "drop_newlines [c] = (if c = 10 then [] else [c])"
| "drop_newlines (c # d # s) =
     (if c = 10 then drop_newlines (d # s) else if c = 13 \<and> d = 10 then drop_newlines s else c # d # s)"

definition strip_cr :: "jsstr \<Rightarrow> jsstr" where
  "strip_cr s = (if s \<noteq> [] \<and> last s = 13 then butlast s else s)"

definition split_lines :: "jsstr \<Rightarrow> jsstr list" where
  "split_lines s = (let ls = split_on 10 s in map strip_cr (butlast ls) @ [last ls])"

definition splitFrontmatter :: "jsstr \<Rightarrow> jsstr option \<times> jsstr" where
  "splitFrontmatter s =
     (case re_exec FRONTMATTER s of
        None \<Rightarrow> (None, s)
      | Some m \<Rightarrow> (Some (re_group m 1), drop_newlines (drop (length (re_matched m)) s)))"

fun paragraph_lines :: "jsstr list \<Rightarrow> jsstr list \<Rightarrow> jsstr list" where
  "paragraph_lines acc [] = acc"
| "paragraph_lines acc (line # ls) =
     (if re_test ANY_HEADING line \<or> trim line = []
      then (if acc \<noteq> [] then acc else paragraph_lines acc ls)
      else paragraph_lines (acc @ [line]) ls)"

definition firstParagraph :: "jsstr list \<Rightarrow> jsstr" where
  "firstParagraph ls =
     (let s = trim (join [10] (paragraph_lines [] ls))
      in if FALLBACK_SUMMARY_MAX_LENGTH < length s
         then trimEnd (take FALLBACK_SUMMARY_MAX_LENGTH s) @ [8230] else s)"

definition extractSummary :: "jsstr \<Rightarrow> jsstr" where
  "extractSummary body =
     (let ls = split_lines body in
      case find_index (re_test SUMMARY_HEADING) ls of
        None \<Rightarrow> firstParagraph ls
      | Some i \<Rightarrow>
          let rest = drop (Suc i) ls;
              section = trim (join [10]
                (case find_index (re_test ANY_HEADING) rest of None \<Rightarrow> rest | Some k \<Rightarrow> take k rest))
          in if section \<noteq> [] then section else firstParagraph ls)"

definition kind_of_name :: "jsstr \<Rightarrow> number_kind" where
  "kind_of_name s = (if s = js ''simd'' then Simd else Sgp)"

definition parseProposalMarkdown :: "jsstr \<Rightarrow> proposal_ref option \<Rightarrow> proposal_ref option \<times> jsstr" where
  "parseProposalMarkdown s fallbackRef =
     (let (frontmatter, body) = splitFrontmatter s;
          r = (case frontmatter of
                 None \<Rightarrow> fallbackRef
               | Some f \<Rightarrow>
                   if f = [] then fallbackRef
                   else case re_exec NUMBER_LINE f of
                          None \<Rightarrow> fallbackRef
                        | Some m \<Rightarrow> Some (makeProposalRef (re_group m 2) (kind_of_name (toLowerCase (re_group m 1)))))
      in (r, extractSummary body))"

section \<open>Exact runs of one character class\<close>

text \<open>The state after consuming \<open>w\<close>; what a repetition of one class can reach.\<close>

definition advance :: "jsstr \<Rightarrow> re_state \<Rightarrow> re_state" where
  "advance w st = st\<lparr>re_before := rev w @ re_before st, re_rest := drop (length w) (re_rest st)\<rparr>"

lemma advance_Nil [simp]: "advance [] st = st"
  by (simp add: advance_def)

lemma upto_chr_complete:
  "re_rest st = w @ t \<Longrightarrow> list_all P w \<Longrightarrow> length w \<le> k \<Longrightarrow> advance w st \<in> set (upto_times k g (step_chr P) st)"
proof (induction w arbitrary: st k)
  case Nil
  then show ?case by (cases k) (auto simp: Let_def)
next
  case (Cons c w)
  then obtain k' where k: "k = Suc k'" by (cases k) auto
  let ?st = "st\<lparr>re_before := c # re_before st, re_rest := w @ t\<rparr>"
  have "advance w ?st \<in> set (upto_times k' g (step_chr P) ?st)" using Cons k by (intro Cons.IH) auto
  moreover have "advance w ?st = advance (c # w) st" using Cons.prems(1) by (simp add: advance_def)
  moreover have "step_chr P st = [?st]" using Cons.prems by (simp add: step_chr_def)
  ultimately show ?case using Cons.prems(1) k by (auto simp: Let_def)
qed

lemma rep_chr_complete:
  assumes "re_rest st = w @ t" "list_all P w" "lo = 0 \<or> lo = 1 \<and> w \<noteq> []" "\<forall>h. hi = Some h \<longrightarrow> length w \<le> h"
  shows "advance w st \<in> set (re_match (Rep (Chr P) lo hi g) st)"
proof -
  have e: "re_match (Chr P) = step_chr P" by (simp add: fun_eq_iff)
  let ?k = "case hi of Some h \<Rightarrow> h - lo | None \<Rightarrow> length (re_rest st)"
  have k: "length w - lo \<le> ?k" using assms(1,4) by (auto split: option.splits)
  show ?thesis
  proof (cases lo)
    case 0
    show ?thesis using upto_chr_complete [OF assms(1,2), of ?k g] k unfolding 0 by (simp add: repeat_re_def Let_def e)
  next
    case (Suc n)
    then obtain c w' where w: "w = c # w'" "lo = 1" using assms(3) by (cases w) auto
    let ?st = "st\<lparr>re_before := c # re_before st, re_rest := w' @ t\<rparr>"
    have "step_chr P st = [?st]" using assms(1,2) w by (simp add: step_chr_def)
    moreover have "advance w' ?st \<in> set (upto_times ?k g (step_chr P) ?st)"
      using assms(2) w k by (intro upto_chr_complete) auto
    moreover have "advance w' ?st = advance w st" using assms(1) w by (simp add: advance_def)
    ultimately show ?thesis using w(1) unfolding w(2) One_nat_def by (simp add: repeat_re_def Let_def e)
  qed
qed

lemma grp_chr_complete:
  assumes "re_rest st = w @ t" "list_all P w" "w \<noteq> []" "length w \<le> h"
  shows "(advance w st)\<lparr>re_groups := (n, w) # re_groups st\<rparr> \<in> set (re_match (Grp n (Rep (Chr P) 1 (Some h) g)) st)"
proof -
  have "advance w st \<in> set (re_match (Rep (Chr P) 1 (Some h) g) st)"
    using assms by (intro rep_chr_complete) auto
  then show ?thesis by (auto simp: advance_def intro!: image_eqI [where x = "advance w st"])
qed

lemma rep_chr_none: "\<not> head_is P (re_rest st) \<Longrightarrow> re_match (Rep (Chr P) 0 hi g) st = [st]"
proof -
  assume "\<not> head_is P (re_rest st)"
  then have "step_chr P st = []" by (auto simp: step_chr_def head_is_def split: list.splits)
  moreover have "re_match (Chr P) = step_chr P" by (simp add: fun_eq_iff)
  ultimately have "upto_times k g (re_match (Chr P)) st = [st]" for k by (cases k) simp_all
  then show ?thesis by (simp add: repeat_re_def Let_def)
qed

lemma star_chr_one:
  assumes "re_rest st = c # t" "P c" "\<not> head_is P t"
  shows "re_match (star (Chr P)) st = [advance [c] st, st]"
proof -
  have e: "re_match (Chr P) = step_chr P" by (simp add: fun_eq_iff)
  let ?st = "st\<lparr>re_before := c # re_before st, re_rest := t\<rparr>"
  have "step_chr P ?st = []" using assms(3) by (auto simp: step_chr_def head_is_def split: list.splits)
  then have "upto_times k True (step_chr P) ?st = [?st]" for k by (cases k) simp_all
  moreover have "step_chr P st = [?st]" "advance [c] st = ?st" using assms by (simp_all add: step_chr_def advance_def)
  ultimately show ?thesis using assms(1) by (simp add: star_def repeat_re_def Let_def e)
qed

section \<open>Numbers in file names and titles\<close>

lemma digits_to_number:
  assumes "list_all is_digit s" "s \<noteq> []"
  shows "string_to_number s = to_double (of_nat (dec_val s))"
proof -
  obtain c t where s: "s = c # t" using assms(2) by (cases s) auto
  have c: "is_digit c" "c \<noteq> 43" "c \<noteq> 45" "c \<noteq> 73" using assms(1) s by (auto simp: is_digit_def)
  have tr: "trim s = s"
    using assms by (intro trim_id) (simp add: not_space_digit list_all_iff)
  have u: "parse_unsigned_decimal s = to_double (of_nat (dec_val s))"
  proof -
    have d: "takeWhile is_digit s = s" "dropWhile is_digit s = []" "s \<noteq> js ''Infinity''"
      using assms(1) c(4) s by (simp_all add: takeWhile_eq_all_conv dropWhile_eq_Nil_conv list_all_iff js_def)
    show ?thesis using assms(2) d(3) by (simp add: parse_unsigned_decimal_def parse_exponent_def Let_def d(1,2))
  qed
  have "signed parse_unsigned_decimal s = parse_unsigned_decimal s" using c s by (simp add: signed_def)
  moreover have "p \<noteq> 120 \<and> p \<noteq> 88 \<and> p \<noteq> 111 \<and> p \<noteq> 79 \<and> p \<noteq> 98 \<and> p \<noteq> 66" if "t = p # r" for p r
    using assms(1) s that by (auto simp: is_digit_def)
  ultimately show ?thesis unfolding string_to_number_def tr Let_def using s u by (cases t) auto
qed

lemma dec_val_zeros: "list_all (\<lambda>c. c = 48) z \<Longrightarrow> dec_val (z @ w) = dec_val w"
  unfolding dec_val_def by (induction z) auto

text \<open>The expression without its anchor, and its tail after the separator.\<close>

definition number_part :: re where
  "number_part = seq_re [star (lit CHR ''0''), Grp 2 (Rep digit 1 (Some 5) True), WordB]"

lemma number_part_sound:
  assumes "st' \<in> set (re_match number_part st)" "re_rest st = num @ 58 # t" "list_all is_digit num"
  shows "\<exists>z w. num = z @ w \<and> list_all (\<lambda>c. c = 48) z \<and> w \<noteq> [] \<and> re_groups st' = (2, w) # re_groups st"
proof -
  have e: "number_part = Cat (Rep (Chr (\<lambda>c. c = 48)) 0 None True) (Cat (Grp 2 (Rep (Chr is_digit) 1 (Some 5) True)) (Cat WordB Eps))"
    by (simp add: number_part_def lit_def star_def digit_def)
  obtain a b where a: "a \<in> set (re_match (Rep (Chr (\<lambda>c. c = 48)) 0 None True) st)"
    and b: "b \<in> set (re_match (Grp 2 (Rep (Chr is_digit) 1 (Some 5) True)) a)"
    and c: "st' \<in> set (re_match WordB b)"
    using assms(1) by (auto simp only: e re_match_Cat re_match.simps(1) list.set)
  have "re_match (Chr (\<lambda>c. c = 48)) = step_chr (\<lambda>c. c = 48)" by (simp add: fun_eq_iff)
  then obtain k where "a \<in> set (upto_times k True (step_chr (\<lambda>c. c = 48)) st)"
    using a by (auto simp: repeat_re_def Let_def)
  from upto_chr [OF this] obtain z where z: "extends st a z" "re_groups a = re_groups st" "list_all (\<lambda>c. c = 48) z"
    by blast
  obtain w where w: "extends a b w" "re_groups b = (2, w) # re_groups a" "list_all is_digit w" "1 \<le> length w"
    using grp_chr [OF b] by auto
  have st': "st' = b" "head_is is_word (re_before b) \<noteq> head_is is_word (re_rest b)"
    using c by (auto split: if_splits)
  have w_ne: "w \<noteq> []" using w(4) by auto
  have "is_digit (last w)" using w(3) w_ne by (simp add: list_all_iff)
  then have "head_is is_word (re_before b)"
    using w(1) w_ne by (cases w rule: rev_cases) (auto simp: extends_def head_is_def is_word_def is_alnum_def)
  then have nw: "\<not> head_is is_word (re_rest b)" using st'(2) by simp
  have split: "num @ 58 # t = (z @ w) @ re_rest b" using z(1) w(1) assms(2) by (simp add: extends_def)
  have "58 \<notin> set (z @ w)" using z(3) w(3) by (auto simp: list_all_iff is_digit_def)
  then obtain u where u: "num = (z @ w) @ u"
    using split by (auto simp: append_eq_append_conv2 append_eq_Cons_conv Cons_eq_append_conv)
  have "u = []"
  proof (cases u)
    case (Cons d r)
    then have "is_digit d" "re_rest b = d # r @ 58 # t" using u assms(3) split by auto
    then show ?thesis using nw by (simp add: head_is_def is_word_def is_alnum_def)
  qed simp
  then show ?thesis using u z w w_ne st'(1) by auto
qed

lemma number_part_matches:
  assumes "re_rest st = num @ 58 # t" "list_all is_digit num" "num \<noteq> []" "length num \<le> 5"
  shows "re_match number_part st \<noteq> []"
proof -
  have "advance [] st \<in> set (re_match (star (lit CHR ''0'')) st)"
    unfolding star_def lit_def by (rule rep_chr_complete [where t = "re_rest st"]) auto
  moreover have g: "(advance num st)\<lparr>re_groups := (2, num) # re_groups st\<rparr> \<in> set (re_match (Grp 2 (Rep digit 1 (Some 5) True)) st)"
    unfolding digit_def using assms by (intro grp_chr_complete) auto
  moreover have "re_match WordB ((advance num st)\<lparr>re_groups := (2, num) # re_groups st\<rparr>) \<noteq> []"
    using assms by (cases num rule: rev_cases)
      (auto simp: advance_def head_is_def is_word_def is_alnum_def is_digit_def is_upper_def is_lower_def)
  ultimately have "\<exists>x. x \<in> set (re_match number_part st)"
    unfolding number_part_def seq_re.simps re_match_Cat by (metis advance_Nil list.set_sel(1) re_match.simps(1) list.set_intros(1))
  then show ?thesis by auto
qed

lemma title_prefix_eq:
  "TITLE_PREFIX = Cat (Bol False) (Cat (opt_re (lit CHR ''#'')) (Cat (star space_chr)
     (Cat (Grp 1 (Alt (word_ci ''simd'') (word_ci ''sgp''))) (Cat (star (Chr (\<lambda>c. is_space c \<or> c = 45))) number_part))))"
  by (simp add: TITLE_PREFIX_def number_part_def)

lemma kind_group:
  "re_match (Grp 1 (Alt (word_ci ''simd'') (word_ci ''sgp'')))
     \<lparr>re_before = [], re_rest = kind_upper k @ t, re_groups = []\<rparr> =
   [\<lparr>re_before = rev (kind_upper k), re_rest = t, re_groups = [(1, kind_upper k)]\<rparr>]"
  by (cases k) (simp_all add: word_ci_def ci_def js_def step_chr_def ascii_fold_def is_upper_def)

lemma kind_start: "\<exists>c t. kind_upper k = c # t \<and> c = 83"
  by (cases k) (auto simp: js_def)

lemma label_matches:
  assumes "list_all is_digit num" "num \<noteq> []" "length num \<le> 5"
  shows "\<exists>m z w. re_exec TITLE_PREFIX (kind_upper k @ 45 # num @ 58 # t) = Some m \<and> re_group m 1 = kind_upper k \<and>
    re_group m 2 = w \<and> num = z @ w \<and> list_all (\<lambda>c. c = 48) z \<and> w \<noteq> []"
proof -
  let ?st0 = "\<lparr>re_before = [], re_rest = kind_upper k @ 45 # num @ 58 # t, re_groups = []\<rparr>"
  let ?st1 = "\<lparr>re_before = rev (kind_upper k), re_rest = 45 # num @ 58 # t, re_groups = [(1, kind_upper k)]\<rparr>"
  let ?st2 = "advance [45] ?st1"
  have "\<not> head_is (\<lambda>c. c = 35) (re_rest ?st0)" "\<not> head_is is_space (re_rest ?st0)"
    using kind_start [of k] by (auto simp: head_is_def is_space_def)
  then have pre: "re_match (opt_re (lit CHR ''#'')) ?st0 = [?st0]" "re_match (star space_chr) ?st0 = [?st0]"
    unfolding opt_re_def lit_def star_def space_chr_def
    using rep_chr_none [of "\<lambda>c. c = 35" ?st0 "Some 1" True] rep_chr_none [of is_space ?st0 None True]
    by (simp_all del: re_match.simps)
  have dash: "re_match (star (Chr (\<lambda>c. is_space c \<or> c = 45))) ?st1 = [?st2, ?st1]"
    using assms(1,2) by (intro star_chr_one) (auto simp: head_is_def neq_Nil_conv not_space_digit, auto simp: is_digit_def)
  have "re_match number_part ?st1 = []"
    using rep_chr_none [of "\<lambda>c. c = 48" ?st1 None True]
    by (simp add: number_part_def star_def lit_def head_is_def digit_def repeat_re_def step_chr_def is_digit_def del: re_match.simps(5))
       (simp add: repeat_re_def step_chr_def is_digit_def)
  moreover have r2: "re_rest ?st2 = num @ 58 # t" by (simp add: advance_def)
  moreover obtain x xs where x: "re_match number_part ?st2 = x # xs"
    using number_part_matches [OF r2 assms] by (cases "re_match number_part ?st2") auto
  ultimately have m: "re_exec TITLE_PREFIX (kind_upper k @ 45 # num @ 58 # t) = Some (x, 0)"
    unfolding title_prefix_eq re_exec_anchored
    by (simp add: pre kind_group dash del: re_match.simps(5-9) One_nat_def)
  obtain z w where "num = z @ w" "list_all (\<lambda>c. c = 48) z" "w \<noteq> []" "re_groups x = (2, w) # re_groups ?st2"
    using number_part_sound [of x ?st2 num t] x r2 assms(1) by auto
  then show ?thesis using m by (auto simp: re_group_def advance_def)
qed

lemma label_named:
  assumes "valid_ref r"
  shows "titleNamesProposal (ref_label r @ js '': '' @ title) r"
proof -
  let ?num = "ref_number r" and ?k = "ref_kind r"
  have v: "list_all is_digit ?num" "?num \<noteq> []" "length ?num \<le> 5"
    using assms by (auto simp: valid_ref_def)
  let ?t = "kind_upper ?k @ 45 # ?num @ 58 # 32 # title"
  have t: "ref_label r @ js '': '' @ title = ?t" using assms by (simp add: valid_ref_def js_def)
  have tr: "trimStart ?t = ?t" using kind_start [of ?k] by (auto intro!: trimStart_id simp: is_space_def)
  obtain m z w where m: "re_exec TITLE_PREFIX ?t = Some m" "re_group m 1 = kind_upper ?k" "re_group m 2 = w"
    "?num = z @ w" "list_all (\<lambda>c. c = 48) z" "w \<noteq> []"
    using label_matches [OF v] by blast
  have "string_to_number w = string_to_number ?num"
    using m(4-6) v(1,2) by (simp add: digits_to_number dec_val_zeros)
  moreover have "seq (string_to_number ?num) (string_to_number ?num)"
    using v by (simp add: digits_to_number to_double_def seq_def Let_def)
  moreover have "toLowerCase (kind_upper ?k) = kind_name ?k"
    by (cases ?k) (simp_all add: toLowerCase_def lower_unit_def js_def is_upper_def)
  ultimately show ?thesis unfolding t titleNamesProposal_def tr using m(1-3) by simp
qed

text \<open>A heading shows the number of its proposal exactly once: a title that already names it is left as
  it is, any other gets the label in front, and formatting the result again changes nothing.\<close>

theorem heading_numbered_once:
  assumes "valid_ref r"
  shows "let h = formatProposalHeading (Some r) title in
    titleNamesProposal h r \<and> formatProposalHeading (Some r) h = h \<and>
    (h = title \<or> h = ref_label r @ js '': '' @ title)"
  using label_named [OF assms, of title] by (simp add: formatProposalHeading_def Let_def)

theorem heading_numbered_once_witness:
  "formatProposalHeading (Some (makeProposalRef (js ''0003'') Sgp))
     (formatProposalHeading (Some (makeProposalRef (js ''0003'') Sgp)) (js ''Fee'')) =
   formatProposalHeading (Some (makeProposalRef (js ''0003'') Sgp)) (js ''Fee'')"
proof -
  have "valid_ref (makeProposalRef (js ''0003'') Sgp)"
    by (simp add: valid_ref_def makeProposalRef_def) (simp add: js_def is_digit_def)
  from heading_numbered_once [OF this, of "js ''Fee''"] show ?thesis by (simp add: Let_def)
qed

end
