(* ===== verification/Fetch_Document.thy ===== *)
theory Fetch_Document
  imports Pick_File Proposal_Document Validate_Url
begin

text \<open>
  Resolving a proposal's description URL into its document
  (\<open>frontend/src/lib/github/fetchProposalDocument.ts\<close>).  The environment holds the platform's URL
  parser, the clock and the answers of GitHub; an answer may depend on the requests made so far.
\<close>

section \<open>Data\<close>

record proposal_document =
  doc_ref :: "proposal_ref option"
  doc_summary :: jsstr
  doc_sourceUrl :: jsstr
  doc_fetchedAt :: int

datatype document_result = DocOk proposal_document | DocUnsupported jsstr

text \<open>\<open>gr_files\<close> is the decoded JSON body; \<open>None\<close> when it is not an array.\<close>

record gh_response =
  gr_status :: int
  gr_statusText :: jsstr
  gr_text :: "js_error + jsstr"
  gr_files :: "js_error + pull_file list option"
  gr_link :: "jsstr option"
  gr_ratelimit_remaining :: "jsstr option"
  gr_retry_after :: "jsstr option"

datatype doc_event = DocFetch jsstr

record doc_env =
  de_parse_url :: "jsstr \<Rightarrow> url_parts option"
  de_fetch :: "doc_event list \<Rightarrow> jsstr \<Rightarrow> js_error + gh_response"
  de_now :: "doc_event list \<Rightarrow> int"

definition gr_ok :: "gh_response \<Rightarrow> bool" where
  "gr_ok r \<longleftrightarrow> 200 \<le> gr_status r \<and> gr_status r \<le> 299"

definition do_fetch :: "doc_env \<Rightarrow> jsstr \<Rightarrow> (doc_event, gh_response) io" where
  "do_fetch env url = io_call (DocFetch url) (\<lambda>l. de_fetch env l url)"

section \<open>Operations\<close>

definition MAX_PULL_FILE_PAGES :: nat where
  "MAX_PULL_FILE_PAGES = 3"

definition NEXT_LINK :: re where
  "NEXT_LINK = seq_re [lit CHR ''<'', Grp 1 (plus_re (Chr (\<lambda>c. c \<noteq> 62))), lit CHR ''>'',
     star (Chr is_space), lit CHR '';'', star (Chr is_space), word_lit ''rel='', Chr (\<lambda>c. c = 34),
     word_lit ''next'', Chr (\<lambda>c. c = 34)]"

fun first_next :: "jsstr list \<Rightarrow> jsstr option" where
  "first_next [] = None"
| "first_next (part # parts) =
     (case re_exec NEXT_LINK part of Some m \<Rightarrow> Some (re_group m 1) | None \<Rightarrow> first_next parts)"

definition nextPageUrl :: "jsstr option \<Rightarrow> jsstr option" where
  "nextPageUrl linkHeader =
     (case linkHeader of None \<Rightarrow> None | Some h \<Rightarrow> if h = [] then None else first_next (split_on 44 h))"

definition errorForApiResponse :: "gh_response \<Rightarrow> number \<Rightarrow> js_error" where
  "errorForApiResponse r pullNumber =
     (let status = gr_status r in
      if status = 429 \<or> (status = 403 \<and> gr_ratelimit_remaining r = Some (js ''0'')) then
        GithubApiError (js ''GitHub API rate limit exceeded (60 requests/hour for unauthenticated clients)'') status False
      else if status = 403 \<and> gr_retry_after r \<noteq> None \<and> gr_retry_after r \<noteq> Some [] then
        GithubApiError (js ''GitHub secondary rate limit reached; retry after '' @ the (gr_retry_after r) @ js ''s'') status False
      else if status = 403 \<or> status = 404 then
        GithubApiError (js ''GitHub returned '' @ dec_int status @ js '' for pull request #'' @ number_to_string pullNumber
          @ js ''; the repository may be private or removed'') status False
      else
        GithubApiError (js ''Failed to list files for pull request #'' @ number_to_string pullNumber @ js '': ''
          @ dec_int status @ js '' '' @ gr_statusText r) status True)"

text \<open>\<open>k\<close> further pages may be read; \<open>page\<close> is the number of the next one.\<close>

fun list_pages ::
  "doc_env \<Rightarrow> number \<Rightarrow> nat \<Rightarrow> nat \<Rightarrow> pull_file list \<Rightarrow> jsstr option \<Rightarrow> (doc_event, pull_file list option) io" where
  "list_pages env pullNumber 0 page files next_url = io_return (Some files)"
| "list_pages env pullNumber (Suc k) page files next_url =
     (case next_url of
        None \<Rightarrow> io_return (Some files)
      | Some u \<Rightarrow>
          io_bind (do_fetch env u) (\<lambda>r.
            if gr_status r = 404 \<and> page = 0 then io_return None
            else if \<not> gr_ok r then io_throw (errorForApiResponse r pullNumber)
            else io_bind (io_lift (gr_files r)) (\<lambda>batch.
                   list_pages env pullNumber k (Suc page)
                     (files @ (case batch of Some fs \<Rightarrow> fs | None \<Rightarrow> [])) (nextPageUrl (gr_link r)))))"

definition files_url :: "repo_ref \<Rightarrow> number \<Rightarrow> jsstr" where
  "files_url repo pullNumber =
     js ''https://api.github.com/repos/'' @ repo_owner repo @ js ''/'' @ repo_name repo @ js ''/pulls/''
     @ number_to_string pullNumber @ js ''/files?per_page=100''"

definition listPullRequestFiles ::
  "doc_env \<Rightarrow> repo_ref \<Rightarrow> number \<Rightarrow> (doc_event, pull_file list option) io" where
  "listPullRequestFiles env repo pullNumber =
     list_pages env pullNumber MAX_PULL_FILE_PAGES 0 [] (Some (files_url repo pullNumber))"

definition fetchRawMarkdown :: "doc_env \<Rightarrow> jsstr \<Rightarrow> (doc_event, jsstr option) io" where
  "fetchRawMarkdown env sourceUrl =
     io_bind (do_fetch env sourceUrl) (\<lambda>r.
       if gr_status r = 404 then io_return None
       else if \<not> gr_ok r then
         io_throw (JsError (js ''Failed to fetch '' @ sourceUrl @ js '': '' @ dec_int (gr_status r) @ js '' '' @ gr_statusText r))
       else io_bind (io_lift (gr_text r)) (\<lambda>t. io_return (Some t)))"

definition buildDocument ::
  "doc_env \<Rightarrow> jsstr \<Rightarrow> proposal_ref option \<Rightarrow> jsstr \<Rightarrow> (doc_event, document_result) io" where
  "buildDocument env s fallbackRef sourceUrl =
     (\<lambda>l. let (r, summary) = parseProposalMarkdown s fallbackRef
          in io_return (DocOk \<lparr>doc_ref = r, doc_summary = summary, doc_sourceUrl = sourceUrl,
                               doc_fetchedAt = de_now env l\<rparr>) l)"

text \<open>The document at \<open>path\<close> of the repository at \<open>gitRef\<close>, or the reason it is missing.\<close>

definition fetch_file ::
  "doc_env \<Rightarrow> repo_ref \<Rightarrow> jsstr \<Rightarrow> jsstr \<Rightarrow> proposal_ref option \<Rightarrow> jsstr \<Rightarrow> (doc_event, document_result) io" where
  "fetch_file env repo gitRef path fallbackRef missing =
     io_bind (io_lift (rawContentUrl repo gitRef path)) (\<lambda>sourceUrl.
     io_bind (fetchRawMarkdown env sourceUrl) (\<lambda>r.
       case r of None \<Rightarrow> io_return (DocUnsupported missing)
       | Some s \<Rightarrow> buildDocument env s fallbackRef sourceUrl))"

definition pull_name :: "number \<Rightarrow> jsstr" where
  "pull_name n = js ''ull request #'' @ number_to_string n"

definition fetch_pull :: "doc_env \<Rightarrow> repo_ref \<Rightarrow> number \<Rightarrow> (doc_event, document_result) io" where
  "fetch_pull env repo n =
     io_bind (listPullRequestFiles env repo n) (\<lambda>files.
       case files of
         None \<Rightarrow> io_return (DocUnsupported (js ''P'' @ pull_name n @ js '' was not found''))
       | Some fs \<Rightarrow>
           (case pickProposalFile (de_parse_url env) fs (resolveRepoConfig repo) of
              PickNone \<Rightarrow> io_return (DocUnsupported (js ''P'' @ pull_name n @ js '' does not change a proposal document''))
            | PickAmbiguous paths \<Rightarrow>
                io_return (DocUnsupported (js ''P'' @ pull_name n @ js '' changes '' @ dec (length paths)
                  @ js '' proposal documents ('' @ join (js '', '') paths @ js ''), so the description does not identify one''))
            | PickOk file \<Rightarrow>
                fetch_file env repo (pk_headSha file) (pk_path file) (Some (pk_ref file))
                  (js ''Proposal file from p'' @ pull_name n @ js '' is no longer available'')))"

definition fetchProposalDocument :: "doc_env \<Rightarrow> jsstr \<Rightarrow> (doc_event, document_result) io" where
  "fetchProposalDocument env url =
     (case parseProposalUrl (de_parse_url env) url of
        Unsupported ucode reason \<Rightarrow> io_return (DocUnsupported reason)
      | Blob b \<Rightarrow>
          fetch_file env (blob_repo b) (blob_gitRef b) (blob_path b) (blob_ref b) (js ''File not found: '' @ url)
      | Pull repo n \<Rightarrow> fetch_pull env repo n)"

section \<open>Requests made\<close>

definition at_most :: "nat \<Rightarrow> (doc_event, 'a) io \<Rightarrow> bool" where
  "at_most n m \<longleftrightarrow> emits m (\<lambda>r evs. length evs \<le> n)"

lemma at_most_pages: "at_most k (list_pages env p k page files u)"
  unfolding at_most_def
proof (induction k arbitrary: page files u)
  case (Suc k)
  have rec: "emits (list_pages env p k (Suc page) fs u') (\<lambda>r evs. length (e # evs) \<le> Suc k)" for fs u' and e :: doc_event
    using Suc.IH by (rule emits_mono) simp
  show ?case
    unfolding list_pages.simps do_fetch_def
    by (cases u; simp; intro emits_rules; auto intro!: emits_rules rec [simplified])
qed (auto intro: emits_rules)

lemma at_most_raw: "at_most 1 (fetchRawMarkdown env u)"
  unfolding at_most_def fetchRawMarkdown_def do_fetch_def
  by (intro emits_rules; auto intro!: emits_rules)

lemma at_most_bind:
  assumes "at_most n m" "\<And>x. at_most k (f x)"
  shows "at_most (n + k) (io_bind m f)"
  unfolding at_most_def
proof (rule emits_bind [OF assms(1) [unfolded at_most_def]])
  fix x and evs :: "doc_event list" assume "length evs \<le> n"
  then show "emits (f x) (\<lambda>r evs'. length (evs @ evs') \<le> n + k)"
    using assms(2) [of x, unfolded at_most_def] by (auto elim!: emits_mono)
qed simp

lemma at_most_rules:
  "at_most 0 (io_return x)" "at_most 0 (io_throw e)" "at_most 0 (io_lift r)" "at_most 0 (buildDocument env s fb u)"
  by (auto simp: at_most_def emits_def buildDocument_def io_defs split: prod.splits)

lemma at_most_mono: "at_most n m \<Longrightarrow> n \<le> k \<Longrightarrow> at_most k m"
  unfolding at_most_def by (erule emits_mono) simp

lemma at_most_file: "at_most 1 (fetch_file env repo g p fb missing)"
  unfolding fetch_file_def
  by (rule at_most_mono [OF at_most_bind [OF at_most_rules(3) at_most_bind [OF at_most_raw, where k = 0]]])
     (auto split: option.splits intro: at_most_rules)

lemma at_most_document: "at_most 4 (fetchProposalDocument env url)"
proof -
  have "at_most 1 (io_return x :: (doc_event, document_result) io)" for x
    by (rule at_most_mono [OF at_most_rules(1)]) simp
  then have "at_most (3 + 1) (fetch_pull env repo n)" for repo n
    unfolding fetch_pull_def listPullRequestFiles_def MAX_PULL_FILE_PAGES_def
    by (intro at_most_bind at_most_pages) (auto split: option.splits pick_result.splits intro: at_most_file [simplified])
  then show ?thesis
    unfolding fetchProposalDocument_def
    by (auto split: parsed_url.splits intro: at_most_mono [OF at_most_file] at_most_mono [OF at_most_rules(1)])
qed

section \<open>Where a document comes from\<close>

definition raw_prefix :: jsstr where
  "raw_prefix = js ''https://raw.githubusercontent.com/''"

lemma rawContentUrl_prefix: "rawContentUrl repo g p = Inr u \<Longrightarrow> startsWith u raw_prefix"
  by (auto simp: rawContentUrl_def raw_prefix_def startsWith_iff res_bind_Inr_iff)

lemma fetch_file_success:
  assumes "fetch_file env repo g p fb missing l = (Inr (DocOk d), l')"
  shows "\<exists>r s. l' = l @ [DocFetch (doc_sourceUrl d)] \<and> de_fetch env l (doc_sourceUrl d) = Inr r \<and> gr_ok r \<and>
    gr_text r = Inr s \<and> (doc_ref d, doc_summary d) = parseProposalMarkdown s fb \<and>
    startsWith (doc_sourceUrl d) raw_prefix \<and> rawContentUrl repo g p = Inr (doc_sourceUrl d)"
proof -
  from assms obtain u k r s where
    u: "rawContentUrl repo g p = Inr u" "de_fetch env l u = Inr r" "gr_ok r" "gr_text r = Inr s" and
    b: "buildDocument env s fb u (l @ [DocFetch u]) = (Inr (DocOk d), l')"
    unfolding fetch_file_def fetchRawMarkdown_def do_fetch_def
    by (auto simp: io_success split: option.splits if_splits)
  from b have "l' = l @ [DocFetch u]" "doc_sourceUrl d = u" "(doc_ref d, doc_summary d) = parseProposalMarkdown s fb"
    by (auto simp: buildDocument_def io_return_def split: prod.splits)
  then show ?thesis using u rawContentUrl_prefix by auto
qed

lemma fetchProposalDocument_success:
  assumes "fetchProposalDocument env url l = (Inr (DocOk d), l')"
  shows "\<exists>repo g p fb missing k. fetch_file env repo g p fb missing k = (Inr (DocOk d), l')"
proof (cases "parseProposalUrl (de_parse_url env) url")
  case (Blob b)
  then show ?thesis using assms unfolding fetchProposalDocument_def by simp blast
next
  case (Pull repo n)
  then obtain fs k where "(case fs of None \<Rightarrow> io_return (DocUnsupported (js ''P'' @ pull_name n @ js '' was not found''))
       | Some fs \<Rightarrow>
           (case pickProposalFile (de_parse_url env) fs (resolveRepoConfig repo) of
              PickNone \<Rightarrow> io_return (DocUnsupported (js ''P'' @ pull_name n @ js '' does not change a proposal document''))
            | PickAmbiguous paths \<Rightarrow>
                io_return (DocUnsupported (js ''P'' @ pull_name n @ js '' changes '' @ dec (length paths)
                  @ js '' proposal documents ('' @ join (js '', '') paths @ js ''), so the description does not identify one''))
            | PickOk file \<Rightarrow>
                fetch_file env repo (pk_headSha file) (pk_path file) (Some (pk_ref file))
                  (js ''Proposal file from p'' @ pull_name n @ js '' is no longer available''))) k = (Inr (DocOk d), l')"
    using assms unfolding fetchProposalDocument_def fetch_pull_def by (auto simp: io_bind_Inr_iff)
  then show ?thesis
    by (cases fs; simp add: io_run_iff split: pick_result.splits) blast
next
  case (Unsupported c r)
  then show ?thesis using assms by (simp add: fetchProposalDocument_def io_run_iff)
qed

text \<open>C38. A resolved document is what its source says: the last of at most four requests went to a raw
  content URL, was answered with success, and number and summary are those of the text it returned;
  the stored source is the URL that was requested.\<close>

theorem document_from_its_source:
  assumes "fetchProposalDocument env url l = (Inr (DocOk d), l')"
  shows "length l' \<le> length l + 4 \<and>
    (\<exists>k r s fb. l' = k @ [DocFetch (doc_sourceUrl d)] \<and> de_fetch env k (doc_sourceUrl d) = Inr r \<and> gr_ok r \<and>
       gr_text r = Inr s \<and> (doc_ref d, doc_summary d) = parseProposalMarkdown s fb \<and>
       startsWith (doc_sourceUrl d) raw_prefix)"
proof
  show "length l' \<le> length l + 4"
    using emitsD [OF at_most_document [of env url, unfolded at_most_def] assms] by auto
  show "\<exists>k r s fb. l' = k @ [DocFetch (doc_sourceUrl d)] \<and> de_fetch env k (doc_sourceUrl d) = Inr r \<and> gr_ok r \<and>
       gr_text r = Inr s \<and> (doc_ref d, doc_summary d) = parseProposalMarkdown s fb \<and> startsWith (doc_sourceUrl d) raw_prefix"
    using fetchProposalDocument_success [OF assms] fetch_file_success by metis
qed

definition sample_doc_env :: doc_env where
  "sample_doc_env =
     \<lparr>de_parse_url = github_parser,
      de_fetch = \<lambda>l u. Inr \<lparr>gr_status = 200, gr_statusText = [], gr_text = Inr [], gr_files = Inr None,
        gr_link = None, gr_ratelimit_remaining = None, gr_retry_after = None\<rparr>,
      de_now = \<lambda>l. 5\<rparr>"

lemma empty_markdown: "parseProposalMarkdown [] None = (None, [])"
  by code_simp

lemma sample_raw_url: "\<exists>u. rawContentUrl (blob_repo sample_blob) (blob_gitRef sample_blob) (blob_path sample_blob) = Inr u"
proof -
  have "\<exists>e. encodeURIComponent s = Inr e" if "\<forall>c\<in>set s. c < 128" for s
  proof -
    have "well_formed s" using that by (induction s) (auto simp: high_surrogate_def low_surrogate_def)
    then show ?thesis using encode_decode by blast
  qed
  moreover have "\<forall>c\<in>set (js ''a.md'') \<union> set (js ''main'') \<union> set (js ''solana-foundation'') \<union>
      set (js ''solana-governance-proposals''). c < 128"
    by (simp add: js_def)
  ultimately obtain a b c d where "encodeURIComponent (js ''a.md'') = Inr a" "encodeURIComponent (js ''main'') = Inr b"
    "encodeURIComponent (js ''solana-foundation'') = Inr c" "encodeURIComponent (js ''solana-governance-proposals'') = Inr d"
    by (meson UnCI)
  moreover have "split_on 47 (js ''a.md'') = [js ''a.md'']" by (simp add: js_def)
  ultimately show ?thesis
    unfolding rawContentUrl_def sample_blob_def by (simp del: encodeURIComponent.simps)
qed

lemma sample_document_run:
  "\<exists>d l'. fetchProposalDocument sample_doc_env sample_link [] = (Inr (DocOk d), l')"
proof -
  obtain u where u: "rawContentUrl (blob_repo sample_blob) (blob_gitRef sample_blob) (blob_path sample_blob) = Inr u"
    using sample_raw_url by blast
  have "blob_ref sample_blob = None" by (simp add: sample_blob_def)
  then show ?thesis
    using sample_parse [of sample_link] u empty_markdown
    by (simp add: fetchProposalDocument_def fetch_file_def sample_doc_env_def fetchRawMarkdown_def do_fetch_def
        gr_ok_def buildDocument_def io_defs)
qed

theorem document_from_its_source_witness:
  "\<exists>d l'. fetchProposalDocument sample_doc_env sample_link [] = (Inr (DocOk d), l') \<and> length l' \<le> 4 \<and>
     startsWith (doc_sourceUrl d) raw_prefix"
proof -
  obtain d l' where run: "fetchProposalDocument sample_doc_env sample_link [] = (Inr (DocOk d), l')"
    using sample_document_run by blast
  from document_from_its_source [OF run] show ?thesis using run by auto
qed

end
