(* ===== verification/Doc_Cache.thy ===== *)
theory Doc_Cache
  imports Fetch_Document "HOL-Library.AList"
begin

text \<open>
  The document query and its cache in the browser's local storage
  (\<open>frontend/src/hooks/useProposalDocument.ts\<close>).  A cache is the list of its own properties in
  insertion order, which is the order of the language for keys that are not array indices; times
  are the integer milliseconds of \<open>Date.now\<close>.
\<close>

section \<open>The interface of a bounded keyed store\<close>

text \<open>
  What the query relies on: a store never answers with a value that was not put under the key, and
  never holds more than its capacity.  It may forget, and it may refuse a value.
\<close>

locale bounded_store =
  fixes get :: "'s \<Rightarrow> 'k \<Rightarrow> 'v option" and put :: "'k \<Rightarrow> 'v \<Rightarrow> 's \<Rightarrow> 's"
    and occupancy :: "'s \<Rightarrow> nat" and cap :: nat and invar :: "'s \<Rightarrow> bool"
  assumes get_put_same: "invar s \<Longrightarrow> get (put k v s) k = Some w \<Longrightarrow> w = v \<or> get s k = Some w"
    and get_put_other: "invar s \<Longrightarrow> k \<noteq> k' \<Longrightarrow> get (put k v s) k' = Some w \<Longrightarrow> get s k' = Some w"
    and put_bound: "invar s \<Longrightarrow> occupancy s \<le> cap \<Longrightarrow> occupancy (put k v s) \<le> cap"
    and invar_put: "invar s \<Longrightarrow> invar (put k v s)"
begin

definition puts :: "('k \<times> 'v) list \<Rightarrow> 's \<Rightarrow> 's" where
  "puts ws s = fold (\<lambda>(k, v). put k v) ws s"

lemma puts_invar: "invar s \<Longrightarrow> invar (puts ws s)"
  unfolding puts_def by (induction ws arbitrary: s) (auto simp: invar_put)

lemma puts_bound: "invar s \<Longrightarrow> occupancy s \<le> cap \<Longrightarrow> occupancy (puts ws s) \<le> cap"
  unfolding puts_def by (induction ws arbitrary: s) (auto simp: invar_put put_bound)

lemma puts_sound: "invar s \<Longrightarrow> get (puts ws s) k = Some w \<Longrightarrow> (k, w) \<in> set ws \<or> get s k = Some w"
  unfolding puts_def
proof (induction ws arbitrary: s)
  case (Cons x ws)
  obtain k' v where x: "x = (k', v)" by (cases x)
  have "(k, w) \<in> set ws \<or> get (put k' v s) k = Some w"
    using Cons.IH [of "put k' v s"] Cons.prems by (simp add: x invar_put)
  then show ?case
    using get_put_same [OF Cons.prems(1), of k v w] get_put_other [OF Cons.prems(1), of k' k v w] x by (cases "k = k'") auto
qed simp

end

section \<open>Data\<close>

definition CACHE_TTL :: int where "CACHE_TTL = 1000 * 60 * 60 * 24 * 7"
definition NEGATIVE_CACHE_TTL :: int where "NEGATIVE_CACHE_TTL = 1000 * 60 * 60"
definition MAX_CACHE_ENTRIES :: nat where "MAX_CACHE_ENTRIES = 100"

text \<open>\<open>CachedOther\<close> is any stored entry of another shape.\<close>

datatype cache_entry =
    CachedOk proposal_document (ce_fetchedAt: int)
  | CachedUnsupported jsstr (ce_fetchedAt: int)
  | CachedOther (ce_fetchedAt: int)

type_synonym doc_cache = "(jsstr \<times> cache_entry) list"

text \<open>The browser: whether there is a window, the stored cache (\<open>None\<close> when absent or unreadable), and
  whether the storage quota admits a new value.\<close>

record browser =
  has_window :: bool
  stored :: "doc_cache option"
  fits :: "doc_cache \<Rightarrow> bool"

section \<open>Operations\<close>

definition loadCache :: "browser \<Rightarrow> doc_cache" where
  "loadCache b = (case stored b of Some c \<Rightarrow> c | None \<Rightarrow> [])"

definition saveCache :: "doc_cache \<Rightarrow> browser \<Rightarrow> browser" where
  "saveCache c b = (if fits b c then b\<lparr>stored := Some c\<rparr> else b)"

definition cacheKey :: "jsstr \<Rightarrow> jsstr" where
  "cacheKey githubUrl = trim githubUrl"

definition evictOldest :: "doc_cache \<Rightarrow> doc_cache" where
  "evictOldest c =
     (if length c \<le> MAX_CACHE_ENTRIES then c
      else take MAX_CACHE_ENTRIES (sort_key (\<lambda>(k, e). - ce_fetchedAt e) c))"

text \<open>Assigning the property \<open>__proto__\<close> creates no own property.\<close>

definition cache_assign :: "jsstr \<Rightarrow> cache_entry \<Rightarrow> doc_cache \<Rightarrow> doc_cache" where
  "cache_assign key e c = (if key = js ''__proto__'' then c else AList.update key e c)"

definition store_entry :: "jsstr \<Rightarrow> cache_entry \<Rightarrow> browser \<Rightarrow> browser" where
  "store_entry key e b = saveCache (evictOldest (cache_assign key e (loadCache b))) b"

definition writeCache :: "jsstr \<Rightarrow> cache_entry \<Rightarrow> browser \<Rightarrow> browser" where
  "writeCache githubUrl e b = (if \<not> has_window b then b else store_entry (cacheKey githubUrl) e b)"

definition readCache :: "int \<Rightarrow> browser \<Rightarrow> jsstr \<Rightarrow> cache_entry option" where
  "readCache now b githubUrl =
     (if \<not> has_window b then None
      else case map_of (loadCache b) (cacheKey githubUrl) of
             Some (CachedOk d t) \<Rightarrow> if now - t < CACHE_TTL then Some (CachedOk d t) else None
           | Some (CachedUnsupported r t) \<Rightarrow> if now - t < NEGATIVE_CACHE_TTL then Some (CachedUnsupported r t) else None
           | _ \<Rightarrow> None)"

text \<open>The query function: it fetches, stores the outcome and returns the document or \<open>null\<close>.\<close>

definition query_document ::
  "doc_env \<Rightarrow> jsstr \<Rightarrow> browser \<Rightarrow> (doc_event, proposal_document option \<times> browser) io" where
  "query_document env githubUrl b =
     io_bind (fetchProposalDocument env githubUrl) (\<lambda>result l.
       let fetchedAt = de_now env l in
       case result of
         DocUnsupported reason \<Rightarrow> (Inr (None, writeCache githubUrl (CachedUnsupported reason fetchedAt) b), l)
       | DocOk d \<Rightarrow> (Inr (Some d, writeCache githubUrl (CachedOk d fetchedAt) b), l))"

text \<open>The options of the query.  \<open>None\<close> stands for \<open>undefined\<close>, \<open>Some None\<close> for \<open>null\<close>.\<close>

definition query_staleTime :: "proposal_document option option \<Rightarrow> int" where
  "query_staleTime data = (if data = Some None then NEGATIVE_CACHE_TTL else CACHE_TTL)"

definition query_retry :: "nat \<Rightarrow> js_error \<Rightarrow> bool" where
  "query_retry failureCount error =
     (case error of GithubApiError m s retryable \<Rightarrow> retryable \<and> failureCount < 2 | _ \<Rightarrow> failureCount < 2)"

definition query_initialData :: "cache_entry option \<Rightarrow> proposal_document option option" where
  "query_initialData cached =
     map_option (\<lambda>e. case e of CachedOk d t \<Rightarrow> Some d | _ \<Rightarrow> None) cached"

definition useProposalRef :: "proposal_document option option \<Rightarrow> proposal_ref option \<Rightarrow> proposal_ref option" where
  "useProposalRef data fallback =
     (case data of Some (Some d) \<Rightarrow> (case doc_ref d of Some r \<Rightarrow> Some r | None \<Rightarrow> fallback) | _ \<Rightarrow> fallback)"

section \<open>The cache is a bounded store\<close>

definition cache_lookup :: "browser \<Rightarrow> jsstr \<Rightarrow> cache_entry option" where
  "cache_lookup b key = map_of (loadCache b) key"

definition cache_invar :: "browser \<Rightarrow> bool" where
  "cache_invar b \<longleftrightarrow> distinct (map fst (loadCache b))"

definition cache_size :: "browser \<Rightarrow> nat" where
  "cache_size b = length (loadCache b)"

lemma evict_subset: "set (evictOldest c) \<subseteq> set c"
  by (auto simp: evictOldest_def dest: in_set_takeD)

lemma evict_length: "length (evictOldest c) \<le> MAX_CACHE_ENTRIES"
  by (simp add: evictOldest_def)

lemma evict_distinct: "distinct (map fst c) \<Longrightarrow> distinct (map fst (evictOldest c))"
proof -
  assume d: "distinct (map fst c)"
  have "mset (map fst (sort_key f c)) = mset (map fst c)" for f :: "_ \<Rightarrow> int" by simp
  then have "distinct (map fst (sort_key f c))" for f :: "_ \<Rightarrow> int"
    using d mset_eq_imp_distinct_iff by blast
  then show ?thesis using d by (simp add: evictOldest_def flip: take_map)
qed

lemma evict_lookup: "distinct (map fst c) \<Longrightarrow> map_of (evictOldest c) k = Some e \<Longrightarrow> map_of c k = Some e"
  using evict_subset [of c] evict_distinct [of c] by (auto simp: map_of_eq_Some_iff)

lemma assign_lookup:
  "map_of (cache_assign k e c) k' = (if k = k' \<and> k \<noteq> js ''__proto__'' then Some e else map_of c k')"
  by (auto simp: cache_assign_def update_conv')

lemma assign_distinct: "distinct (map fst c) \<Longrightarrow> distinct (map fst (cache_assign k e c))"
  by (simp add: cache_assign_def distinct_update)

lemma load_store:
  "loadCache (store_entry k e b) = evictOldest (cache_assign k e (loadCache b)) \<or> store_entry k e b = b"
  by (simp add: store_entry_def saveCache_def loadCache_def)

lemma stored_lookup:
  assumes "cache_invar b" "cache_lookup (store_entry k e b) k' = Some w"
  shows "(k = k' \<and> w = e) \<or> cache_lookup b k' = Some w"
  using load_store [of k e b] assms evict_lookup [OF assign_distinct, of "loadCache b" k e k' w]
  by (auto simp: cache_lookup_def cache_invar_def assign_lookup split: if_splits)

interpretation cache: bounded_store cache_lookup store_entry cache_size MAX_CACHE_ENTRIES cache_invar
proof unfold_locales
  fix b k e
  assume inv: "cache_invar b"
  show "cache_invar (store_entry k e b)"
    using load_store [of k e b] inv evict_distinct [OF assign_distinct] by (auto simp: cache_invar_def)
  show "cache_size b \<le> MAX_CACHE_ENTRIES \<Longrightarrow> cache_size (store_entry k e b) \<le> MAX_CACHE_ENTRIES"
    using load_store [of k e b] evict_length by (auto simp: cache_size_def)
  show "cache_lookup (store_entry k e b) k = Some w \<Longrightarrow> w = e \<or> cache_lookup b k = Some w" for w
    using stored_lookup [OF inv] by blast
  show "k \<noteq> k' \<Longrightarrow> cache_lookup (store_entry k e b) k' = Some w \<Longrightarrow> cache_lookup b k' = Some w" for k' w
    using stored_lookup [OF inv] by blast
qed

text \<open>An entry newer than every other one survives the eviction.\<close>

lemma evict_newest:
  assumes "x \<in> set c" "\<And>y. y \<in> set c \<Longrightarrow> y \<noteq> x \<Longrightarrow> ce_fetchedAt (snd y) < ce_fetchedAt (snd x)"
  shows "x \<in> set (evictOldest c)"
proof (cases "length c \<le> MAX_CACHE_ENTRIES")
  case False
  let ?f = "\<lambda>(k, e). - ce_fetchedAt e" and ?s = "sort_key (\<lambda>(k, e). - ce_fetchedAt e) c"
  have "set ?s = set c" by simp
  then obtain y ys where s: "?s = y # ys" using assms(1) by (cases ?s) auto
  have "sorted (map ?f ?s)" by simp
  then have y: "\<forall>z\<in>set ys. ?f y \<le> ?f z" by (simp add: s)
  have c: "set c = insert y (set ys)" using arg_cong [OF s, of set] by simp
  have "y = x"
  proof (rule ccontr)
    assume ne: "y \<noteq> x"
    then have "x \<in> set ys" using assms(1) c by auto
    then have "?f y \<le> ?f x" using y by blast
    then show False using assms(2) [of y] c ne by (auto simp: case_prod_beta)
  qed
  then have "x \<in> set (take (Suc 99) ?s)" by (simp only: s take_Suc_Cons list.set insertI1)
  then have "x \<in> set (take MAX_CACHE_ENTRIES ?s)" by (simp add: MAX_CACHE_ENTRIES_def eval_nat_numeral)
  then show ?thesis using False by (simp add: evictOldest_def)
qed (use assms(1) in \<open>simp add: evictOldest_def\<close>)

lemma store_newest:
  assumes "cache_invar b" "\<forall>c. fits b c" "k \<noteq> js ''__proto__''"
    and "\<forall>(k', e')\<in>set (loadCache b). ce_fetchedAt e' < ce_fetchedAt e"
  shows "cache_lookup (store_entry k e b) k = Some e"
proof -
  let ?c = "cache_assign k e (loadCache b)"
  have d: "distinct (map fst ?c)" using assms(1) by (simp add: cache_invar_def assign_distinct)
  have "(k, e) \<in> set ?c" using d assms(3) by (simp add: assign_lookup flip: map_of_eq_Some_iff)
  moreover have "ce_fetchedAt (snd y) < ce_fetchedAt e" if "y \<in> set ?c" "y \<noteq> (k, e)" for y
  proof -
    obtain k' e' where y: "y = (k', e')" by (cases y)
    then have "map_of ?c k' = Some e'" using that(1) d by simp
    then have "map_of (loadCache b) k' = Some e'" using that(2) y by (auto simp: assign_lookup split: if_splits)
    then show ?thesis using assms(4) y map_of_SomeD by fastforce
  qed
  ultimately have "(k, e) \<in> set (evictOldest ?c)" by (intro evict_newest) auto
  then have "map_of (evictOldest ?c) k = Some e" using evict_distinct [OF d] by simp
  then show ?thesis using assms(2) by (simp add: cache_lookup_def store_entry_def saveCache_def loadCache_def)
qed

section \<open>Properties\<close>

fun entry_ttl :: "cache_entry \<Rightarrow> int" where
  "entry_ttl (CachedOk d t) = CACHE_TTL"
| "entry_ttl (CachedUnsupported r t) = NEGATIVE_CACHE_TTL"
| "entry_ttl (CachedOther t) = 0"

lemma readCache_Some:
  "readCache now b url = Some e \<longleftrightarrow> has_window b \<and> cache_lookup b (cacheKey url) = Some e \<and>
     now - ce_fetchedAt e < entry_ttl e \<and> (\<forall>t. e \<noteq> CachedOther t)"
  by (cases e) (auto simp: readCache_def cache_lookup_def split: option.splits cache_entry.splits if_splits)

lemma writes_puts:
  "has_window b \<Longrightarrow> fold (\<lambda>(u, e). writeCache u e) ws b = cache.puts (map (\<lambda>(u, e). (cacheKey u, e)) ws) b"
proof (induction ws arbitrary: b)
  case (Cons w ws)
  have "has_window (store_entry k e b)" for k e using Cons.prems by (simp add: store_entry_def saveCache_def)
  then show ?case using Cons by (cases w) (simp add: cache.puts_def writeCache_def)
qed (simp add: cache.puts_def)

text \<open>C39. The cache never lies and never grows: from an empty storage, after any sequence of writes, with
  the quota refusing some of them or not, at most 100 entries are held, and whatever a read returns
  was written under the same URL up to surrounding white space and has not outlived its lifetime
  (seven days for a document, one hour for a negative result).\<close>

theorem document_cache_sound:
  assumes "has_window b" "stored b = None"
  shows "let b' = fold (\<lambda>(u, e). writeCache u e) ws b in
    cache_size b' \<le> 100 \<and>
    (readCache now b' url = Some e \<longrightarrow>
       (\<exists>u. (u, e) \<in> set ws \<and> trim u = trim url) \<and> now - ce_fetchedAt e < entry_ttl e)"
proof -
  define b' where "b' = fold (\<lambda>(u, e). writeCache u e) ws b"
  have inv: "cache_invar b" "cache_size b \<le> MAX_CACHE_ENTRIES" "\<And>k. cache_lookup b k = None"
    using assms(2) by (simp_all add: cache_invar_def cache_size_def cache_lookup_def loadCache_def)
  note b' = writes_puts [OF assms(1), of ws, folded b'_def]
  have "cache_size b' \<le> 100"
    using cache.puts_bound [OF inv(1,2)] unfolding b' MAX_CACHE_ENTRIES_def .
  moreover have "\<exists>u. (u, e) \<in> set ws \<and> trim u = trim url" if "cache_lookup b' (cacheKey url) = Some e"
    using cache.puts_sound [OF inv(1) that [unfolded b']] inv(3) by (auto simp: cacheKey_def)
  ultimately show ?thesis unfolding Let_def b'_def [symmetric] by (simp add: readCache_Some)
qed

lemma query_success:
  assumes "query_document env url b l = (Inr (d, b'), l')"
  shows "\<exists>e. b' = writeCache url e b \<and> ce_fetchedAt e = de_now env l' \<and> (\<forall>t. e \<noteq> CachedOther t) \<and>
    d = (case e of CachedOk d t \<Rightarrow> Some d | _ \<Rightarrow> None) \<and>
    entry_ttl e = (case d of None \<Rightarrow> NEGATIVE_CACHE_TTL | Some _ \<Rightarrow> CACHE_TTL)"
proof -
  from assms obtain result k where r: "fetchProposalDocument env url l = (Inr result, k)"
    "(let fetchedAt = de_now env k in
       case result of
         DocUnsupported reason \<Rightarrow> (Inr (None, writeCache url (CachedUnsupported reason fetchedAt) b), k)
       | DocOk d \<Rightarrow> (Inr (Some d, writeCache url (CachedOk d fetchedAt) b), k)) = (Inr (d, b') :: js_error + _, l')"
    unfolding query_document_def io_bind_Inr_iff by blast
  show ?thesis
  proof (cases result)
    case (DocOk x)
    then show ?thesis using r(2) by (intro exI [of _ "CachedOk x (de_now env l')"]) auto
  next
    case (DocUnsupported x)
    then show ?thesis using r(2) by (intro exI [of _ "CachedUnsupported x (de_now env l')"]) auto
  qed
qed

text \<open>What a query returns is what the next page load starts from: when the stored entries are older
  than the query and the storage admits the write, a read of the same URL (up to surrounding white
  space) within the lifetime of the outcome yields the same document, or the same negative result.\<close>

theorem query_survives_reload:
  assumes "query_document env url b l = (Inr (d, b'), l')"
    and "has_window b" "cache_invar b" "\<forall>c. fits b c" "trim url \<noteq> js ''__proto__''" "trim url' = trim url"
    and "\<forall>(k, e)\<in>set (loadCache b). ce_fetchedAt e < de_now env l'"
    and "now - de_now env l' < (case d of None \<Rightarrow> NEGATIVE_CACHE_TTL | Some _ \<Rightarrow> CACHE_TTL)"
  shows "query_initialData (readCache now b' url') = Some d \<and> cache_size b' \<le> 100"
proof -
  obtain e where e: "b' = store_entry (cacheKey url) e b" "ce_fetchedAt e = de_now env l'"
    "d = (case e of CachedOk d t \<Rightarrow> Some d | _ \<Rightarrow> None)" "entry_ttl e = (case d of None \<Rightarrow> NEGATIVE_CACHE_TTL | Some _ \<Rightarrow> CACHE_TTL)"
    "\<forall>t. e \<noteq> CachedOther t"
    using query_success [OF assms(1)] assms(2) by (auto simp: writeCache_def)
  have "cache_lookup b' (cacheKey url) = Some e"
    unfolding e(1) using assms(3-5,7) e(2) by (intro store_newest) (simp_all add: cacheKey_def)
  moreover have "has_window b'" using assms(2) by (simp add: e(1) store_entry_def saveCache_def)
  ultimately have "readCache now b' url' = Some e"
    using assms(6,8) e(2,4,5) by (simp add: readCache_Some cacheKey_def)
  moreover have "loadCache b' = evictOldest (cache_assign (cacheKey url) e (loadCache b))"
    using assms(4) by (simp add: e(1) store_entry_def saveCache_def loadCache_def)
  ultimately show ?thesis
    using e(3) evict_length [of "cache_assign (cacheKey url) e (loadCache b)"]
    by (simp add: query_initialData_def cache_size_def MAX_CACHE_ENTRIES_def)
qed

definition empty_browser :: browser where
  "empty_browser = \<lparr>has_window = True, stored = None, fits = \<lambda>c. True\<rparr>"

theorem document_cache_sound_witness:
  "cache_size (fold (\<lambda>(u, e). writeCache u e) [(js ''u'', CachedUnsupported [] 5)] empty_browser) \<le> 100"
  using document_cache_sound [of empty_browser "[(js ''u'', CachedUnsupported [] 5)]" 6 "js ''u''" "CachedOther 0"]
  by (simp add: empty_browser_def Let_def)

theorem query_survives_reload_witness:
  "\<exists>b'. query_document sample_doc_env [] empty_browser [] = (Inr (None, b'), []) \<and>
     query_initialData (readCache 6 b' [32]) = Some None"
proof -
  have p: "parseProposalUrl (de_parse_url sample_doc_env) [] = Unsupported UEmpty (js ''No URL provided'')"
    by (simp add: parseProposalUrl_def trim_id)
  then obtain b' where run: "query_document sample_doc_env [] empty_browser [] = (Inr (None, b'), [])"
    by (simp add: query_document_def fetchProposalDocument_def io_bind_def io_return_def Let_def)
  have "trim [32] = []" by (simp add: trim_def trimStart_def trimEnd_def is_space_def)
  then show ?thesis
    using query_survives_reload [OF run, of "[32]" 6] run
    by (simp add: empty_browser_def cache_invar_def loadCache_def trim_id sample_doc_env_def NEGATIVE_CACHE_TTL_def)
qed

end
