(* ===== verification/Phase_Timeline.thy ===== *)
theory Phase_Timeline
  imports Chain_Types
begin

text \<open>
  The phase timeline of a proposal page
  (\<open>frontend/src/components/proposals/detail/phase-timeline/\<close>) and the status badge
  (\<open>frontend/src/helpers/proposalPhases.ts\<close>).  An index is an integer, as \<open>findIndex\<close> gives \<open>-1\<close>;
  reading a list outside its range gives \<open>undefined\<close>, here \<open>None\<close>.
\<close>

section \<open>Data\<close>

datatype phase_state = PPassed | PCurrent | PUpcoming | PFailed
datatype phase_icon = IconVoting | IconClock | IconFlame | IconDiscussion
datatype connector_variant = CComplete | CFlowing | CUpcoming
datatype node_position = PosLeft | PosCenter | PosRight

record phase_definition =
  ph_key :: proposal_status
  ph_label :: jsstr
  ph_icon :: phase_icon

datatype visible_node =
    CreatedNode phase_state node_position
  | PhaseNode "phase_definition option" phase_state node_position

definition PHASES :: "phase_definition list" where
  "PHASES =
     [\<lparr>ph_key = Supporting, ph_label = js ''Support Phase'', ph_icon = IconFlame\<rparr>,
      \<lparr>ph_key = Discussion, ph_label = js ''Discussion Phase'', ph_icon = IconDiscussion\<rparr>,
      \<lparr>ph_key = Voting, ph_label = js ''Voting Active'', ph_icon = IconVoting\<rparr>,
      \<lparr>ph_key = Finalized, ph_label = js ''Finalized'', ph_icon = IconClock\<rparr>]"

datatype phase_badge = BadgeInProgress | BadgeComplete | BadgeFailed

section \<open>Operations\<close>

definition getPhaseStatus :: "proposal_status \<Rightarrow> phase_badge" where
  "getPhaseStatus status =
     (if status = Failed then BadgeFailed
      else if status = Supporting \<or> status = Discussion \<or> status = Voting then BadgeInProgress
      else BadgeComplete)"

definition resolvePhaseState :: "int \<Rightarrow> int \<Rightarrow> proposal_status option \<Rightarrow> phase_state" where
  "resolvePhaseState phaseIndex currentPhaseIndex proposalStatus =
     (if proposalStatus = Some Failed then (if phaseIndex = 0 then PFailed else PUpcoming)
      else if currentPhaseIndex = -1 then (if phaseIndex = 0 then PCurrent else PUpcoming)
      else if phaseIndex < currentPhaseIndex then PPassed
      else if phaseIndex = currentPhaseIndex then PCurrent
      else PUpcoming)"

definition resolveConnectorVariant :: "phase_state \<Rightarrow> phase_state \<Rightarrow> connector_variant" where
  "resolveConnectorVariant leftState rightState =
     (if leftState = PPassed \<and> rightState = PPassed then CComplete
      else if leftState = PPassed \<and> rightState = PCurrent then CComplete
      else if rightState = PCurrent then CFlowing
      else if leftState = PCurrent \<and> rightState = PUpcoming then CUpcoming
      else if leftState = PCurrent then CFlowing
      else CUpcoming)"

definition shouldAnimateConnector ::
  "connector_variant \<Rightarrow> int \<Rightarrow> proposal_status \<Rightarrow> bool \<Rightarrow> int \<Rightarrow> bool" where
  "shouldAnimateConnector variant phaseIndex currentPhase isFinalized currentPhaseIndex =
     (if variant = CUpcoming then False
      else if currentPhase = Finalized then \<not> isFinalized
      else phaseIndex < currentPhaseIndex)"

definition phase_at :: "phase_definition list \<Rightarrow> int \<Rightarrow> phase_definition option" where
  "phase_at phases i = (if 0 \<le> i \<and> i < int (length phases) then Some (phases ! nat i) else None)"

definition createPhaseNode :: "phase_definition option \<Rightarrow> phase_state \<Rightarrow> node_position \<Rightarrow> visible_node" where
  "createPhaseNode phase state position = PhaseNode phase state position"

definition createCreatedNode :: "node_position \<Rightarrow> visible_node" where
  "createCreatedNode position = CreatedNode PPassed position"

definition calculateMobileVisibleNodes ::
  "phase_definition list \<Rightarrow> int \<Rightarrow> proposal_status \<Rightarrow> visible_node list" where
  "calculateMobileVisibleNodes phases currentPhaseIndex proposalStatus =
     (let lastPhaseIndex = int (length phases) - 1 in
      if proposalStatus = Finalized \<and> currentPhaseIndex = lastPhaseIndex then
        [createPhaseNode (phase_at phases (lastPhaseIndex - 2)) PPassed PosLeft,
         createPhaseNode (phase_at phases (lastPhaseIndex - 1)) PPassed PosCenter,
         createPhaseNode (phase_at phases lastPhaseIndex) PCurrent PosRight]
      else if proposalStatus = Failed then
        [createCreatedNode PosLeft,
         createPhaseNode (phase_at phases 0) PFailed PosCenter,
         createPhaseNode (phase_at phases 1) PUpcoming PosRight]
      else
        [if currentPhaseIndex = 0 then createCreatedNode PosLeft
         else createPhaseNode (phase_at phases (currentPhaseIndex - 1))
                (resolvePhaseState (currentPhaseIndex - 1) currentPhaseIndex (Some proposalStatus)) PosLeft,
         createPhaseNode (phase_at phases currentPhaseIndex)
           (resolvePhaseState currentPhaseIndex currentPhaseIndex (Some proposalStatus)) PosCenter]
        @ (if currentPhaseIndex < lastPhaseIndex
           then [createPhaseNode (phase_at phases (currentPhaseIndex + 1))
                   (resolvePhaseState (currentPhaseIndex + 1) currentPhaseIndex (Some proposalStatus)) PosRight]
           else []))"

definition shouldShowEdgeConnectors ::
  "phase_definition list \<Rightarrow> int \<Rightarrow> bool \<Rightarrow> bool \<Rightarrow> nat \<Rightarrow> bool \<times> bool" where
  "shouldShowEdgeConnectors phases currentPhaseIndex isFailed isFinalized visibleNodesCount =
     (let lastPhaseIndex = int (length phases) - 1;
          showLeft = (currentPhaseIndex > 0 \<and> \<not> isFailed);
          rightmostPhaseIndex =
            (if isFinalized \<and> currentPhaseIndex = lastPhaseIndex then lastPhaseIndex
             else if isFailed then 1
             else min (currentPhaseIndex + 1) lastPhaseIndex);
          showRight = (visibleNodesCount = 3 \<and> rightmostPhaseIndex < lastPhaseIndex)
      in (showLeft, showRight))"

section \<open>The visible window\<close>

text \<open>
  The timeline as a whole is the node of the creation followed by one node per phase.  The window is
  a stretch of it: the nodes from \<open>lo\<close> on, \<open>n\<close> of them, where node 0 is the creation and node
  \<open>i + 1\<close> is phase \<open>i\<close>.
\<close>

definition timeline_node :: "phase_definition list \<Rightarrow> int \<Rightarrow> proposal_status \<Rightarrow> nat \<Rightarrow> phase_definition option \<times> phase_state" where
  "timeline_node phases cur status i =
     (if i = 0 then (None, PPassed)
      else (Some (phases ! (i - 1)), resolvePhaseState (int i - 1) cur (Some status)))"

fun node_content :: "visible_node \<Rightarrow> phase_definition option \<times> phase_state" where
  "node_content (CreatedNode s p) = (None, s)"
| "node_content (PhaseNode d s p) = (d, s)"

definition window_start :: "int \<Rightarrow> int \<Rightarrow> proposal_status \<Rightarrow> nat" where
  "window_start len cur status =
     (if status = Failed then 0
      else if status = Finalized \<and> cur = len - 1 then nat (cur - 1) else nat cur)"

definition window_length :: "int \<Rightarrow> int \<Rightarrow> proposal_status \<Rightarrow> nat" where
  "window_length len cur status = (if status = Failed \<or> status = Finalized \<or> cur < len - 1 then 3 else 2)"

lemmas window_defs = calculateMobileVisibleNodes_def shouldShowEdgeConnectors_def window_start_def window_length_def
  timeline_node_def createPhaseNode_def createCreatedNode_def resolvePhaseState_def

lemma upt3: "[a..<a + 3] = [a, Suc a, Suc (Suc a)]" "[a..<a + 2] = [a, Suc a]"
  "[a..<3 + a] = [a, Suc a, Suc (Suc a)]" "[a..<2 + a] = [a, Suc a]" "[Suc a..<a + 3] = [Suc a, Suc (Suc a)]"
  by (simp_all add: upt_rec numeral_3_eq_3 numeral_2_eq_2)

lemma nat_Suc_int: "nat (1 + int n) = Suc n"
  by simp

lemma phase_at_nth: "i < length phases \<Longrightarrow> phase_at phases (int i) = Some (phases ! i)"
  by (simp add: phase_at_def)

text \<open>The mobile timeline always shows a stretch of the whole timeline: for any list of at least
  three phases, and a current phase that belongs to it (the last one when finalized, none when
  failed), the nodes shown are consecutive, each a defined phase in the state the desktop timeline
  shows; an edge connector appears on a side exactly when nodes are hidden there.\<close>

theorem mobile_window:
  assumes "3 \<le> length phases"
    and "status = Failed \<and> cur = -1 \<or> status \<noteq> Failed \<and> 0 \<le> cur \<and> cur < int (length phases)"
    and "status = Finalized \<longrightarrow> cur = int (length phases) - 1"
  shows "let nodes = calculateMobileVisibleNodes phases cur status;
             lo = window_start (int (length phases)) cur status;
             n = window_length (int (length phases)) cur status
    in map node_content nodes = map (timeline_node phases cur status) [lo..<lo + n] \<and>
       lo + n \<le> Suc (length phases) \<and>
       shouldShowEdgeConnectors phases cur (status = Failed) (status = Finalized) (length nodes) =
         (0 < lo, lo + n < Suc (length phases))"
proof -
  consider "status = Failed" "cur = -1"
    | "status = Finalized" "cur = int (length phases) - 1"
    | k where "status \<noteq> Failed" "status \<noteq> Finalized" "cur = int k" "k < length phases"
    using assms(2,3) by (metis zero_le_imp_eq_int of_nat_less_iff)
  then show ?thesis
  proof cases
    case 1
    have "phase_at phases 0 = Some (phases ! 0)" "phase_at phases 1 = Some (phases ! 1)"
      using assms(1) by (auto simp: phase_at_def)
    then show ?thesis using 1 assms(1) by (simp add: window_defs upt3 Let_def)
  next
    case 2
    then obtain k where k: "length phases = Suc (Suc (Suc k))" using assms(1)
      by (metis Suc_le_D numeral_3_eq_3 Suc_le_mono)
    show ?thesis using 2 phase_at_nth [of k phases] phase_at_nth [of "Suc k" phases] phase_at_nth [of "Suc (Suc k)" phases]
      by (simp add: window_defs upt3 Let_def k nat_add_distrib algebra_simps)
  next
    case (3 k)
    then show ?thesis using assms(1) phase_at_nth [of k phases] phase_at_nth [of "k - 1" phases] phase_at_nth [of "Suc k" phases]
      by (cases k) (auto simp: window_defs upt3 Let_def nat_Suc_int algebra_simps)
  qed
qed

theorem mobile_window_witness:
  "map node_content (calculateMobileVisibleNodes PHASES 2 Voting) = map (timeline_node PHASES 2 Voting) [2..<5]"
  using mobile_window [of PHASES Voting 2] by (simp add: PHASES_def window_start_def window_length_def Let_def)

end
