(* ===== verification/Dates.thy ===== *)
theory Dates
  imports Chain_Env
begin

text \<open>
  Dates, countdowns and the projection of epochs to dates (\<open>frontend/src/helpers/date.ts\<close>).  A
  \<open>Date\<close> is its time value in milliseconds, \<open>NaN\<close> when invalid; the text form of a date is parsed
  by the platform and is a parameter.  \<open>formatDate\<close>, which only calls the platform's formatter, is
  not modelled.
\<close>

section \<open>Slot times\<close>

record perf_sample =
  ps_numSlots :: number
  ps_samplePeriodSecs :: number

definition DEFAULT_SLOT_TIME_MS :: number where "DEFAULT_SLOT_TIME_MS = Num 350"
definition MIN_PLAUSIBLE_SLOT_TIME_MS :: number where "MIN_PLAUSIBLE_SLOT_TIME_MS = Num 100"
definition MAX_PLAUSIBLE_SLOT_TIME_MS :: number where "MAX_PLAUSIBLE_SLOT_TIME_MS = Num 1000"

definition add_sample :: "number \<times> number \<Rightarrow> perf_sample \<Rightarrow> number \<times> number" where
  "add_sample acc sample =
     (case acc of (slots, seconds) \<Rightarrow>
        if Num 0 < ps_numSlots sample \<and> Num 0 < ps_samplePeriodSecs sample
        then (slots + ps_numSlots sample, seconds + ps_samplePeriodSecs sample) else acc)"

definition estimateSlotTimeMs :: "perf_sample list \<Rightarrow> number" where
  "estimateSlotTimeMs samples =
     (case foldl add_sample (Num 0, Num 0) samples of (slots, seconds) \<Rightarrow>
        if seq slots (Num 0) then DEFAULT_SLOT_TIME_MS
        else let slotTimeMs = (seconds * Num 1000) / slots
             in if \<not> is_finite_num slotTimeMs \<or> slotTimeMs < MIN_PLAUSIBLE_SLOT_TIME_MS
                   \<or> MAX_PLAUSIBLE_SLOT_TIME_MS < slotTimeMs
                then DEFAULT_SLOT_TIME_MS else slotTimeMs)"

section \<open>Epochs to dates\<close>

text \<open>\<open>new Date(x)\<close>: the time value is cut to an integer in the range the language allows.\<close>

definition new_Date :: "number \<Rightarrow> number" where
  "new_Date x = (if is_finite_num x \<and> math_abs x \<le> Num 8640000000000000 then math_trunc x else NaN)"

datatype date_event = ReadBlockTime number | ReadPerformance number

record date_env =
  dt_connection :: "js_error + unit"
  dt_firstSlot :: "number \<Rightarrow> number"
  dt_blockTime :: "date_event list \<Rightarrow> number \<Rightarrow> js_error + number option"
  dt_samples :: "date_event list \<Rightarrow> js_error + perf_sample list"
  dt_now :: "date_event list \<Rightarrow> number"

definition PERFORMANCE_SAMPLE_LIMIT :: number where "PERFORMANCE_SAMPLE_LIMIT = Num 60"

text \<open>\<open>Promise.allSettled\<close>: an outcome is kept as a value.\<close>

definition settled :: "('ev, 'a) io \<Rightarrow> ('ev, js_error + 'a) io" where
  "settled m = (\<lambda>l. case m l of (r, l') \<Rightarrow> (Inr r, l'))"

definition project_epoch :: "date_env \<Rightarrow> number \<Rightarrow> epoch_info \<Rightarrow> (date_event, number) io" where
  "project_epoch env targetEpoch info =
     (let targetSlot = dt_firstSlot env targetEpoch;
          slotsUntilTarget = targetSlot - ei_absoluteSlot info
      in io_bind (settled (io_call (ReadBlockTime (ei_absoluteSlot info)) (\<lambda>l. dt_blockTime env l (ei_absoluteSlot info)))) (\<lambda>bt.
         io_bind (settled (io_call (ReadPerformance PERFORMANCE_SAMPLE_LIMIT) (dt_samples env))) (\<lambda>samples l.
           let currentBlockTime = (case bt of Inr (Some t) \<Rightarrow> t * Num 1000 | _ \<Rightarrow> dt_now env l);
               slotTimeMs = (case samples of Inr s \<Rightarrow> estimateSlotTimeMs s | Inl e \<Rightarrow> DEFAULT_SLOT_TIME_MS)
           in io_return (new_Date (currentBlockTime + slotsUntilTarget * slotTimeMs)) l)))"

definition epochToDate :: "date_env \<Rightarrow> number \<Rightarrow> epoch_info \<Rightarrow> (date_event, number) io" where
  "epochToDate env epoch info =
     io_bind (io_lift (dt_connection env)) (\<lambda>_.
       if epoch \<le> ei_epoch info then
         io_bind (settled (io_call (ReadBlockTime (dt_firstSlot env epoch)) (\<lambda>l. dt_blockTime env l (dt_firstSlot env epoch)))) (\<lambda>bt.
           case bt of
             Inl e \<Rightarrow> (\<lambda>l. io_return (new_Date (dt_now env l)) l)
           | Inr (Some t) \<Rightarrow> if truthy t then io_return (new_Date (t * Num 1000)) else project_epoch env epoch info
           | Inr None \<Rightarrow> project_epoch env epoch info)
       else project_epoch env epoch info)"

section \<open>Countdowns\<close>

definition ms_day :: number where "ms_day = Num 1000 * Num 60 * Num 60 * Num 24"
definition ms_hour :: number where "ms_hour = Num 1000 * Num 60 * Num 60"
definition ms_minute :: number where "ms_minute = Num 1000 * Num 60"

definition getDaysLeft :: "number \<Rightarrow> number \<Rightarrow> number" where
  "getDaysLeft now futureDate = math_ceil ((futureDate - now) / ms_day)"

definition getHoursLeft :: "number \<Rightarrow> number \<Rightarrow> number" where
  "getHoursLeft now futureDate = math_ceil ((futureDate - now) / ms_hour)"

definition calculateVotingEndsIn :: "(jsstr \<Rightarrow> number) \<Rightarrow> jsstr option \<Rightarrow> number \<Rightarrow> jsstr option" where
  "calculateVotingEndsIn parse_date endTime nowMs =
     (case endTime of
        None \<Rightarrow> None
      | Some s \<Rightarrow>
          if s = [] then None
          else let end' = parse_date s in
               if end' = NaN then None
               else let diff = end' - new_Date nowMs in
                    if diff \<le> Num 0 then Some (js ''Ended'')
                    else let days = math_floor (diff / ms_day);
                             hours = math_floor (js_rem diff ms_day / ms_hour);
                             minutes = math_floor (js_rem diff ms_hour / ms_minute)
                         in if Num 30 < days then
                              Some (number_to_string (math_floor (days / Num 30)) @ js ''mo ''
                                    @ number_to_string (js_rem days (Num 30)) @ js ''d'')
                            else if Num 0 < days then
                              Some (number_to_string days @ js ''d '' @ number_to_string hours @ js ''h ''
                                    @ number_to_string minutes @ js ''m'')
                            else if Num 0 < hours then
                              Some (number_to_string hours @ js ''h '' @ number_to_string minutes @ js ''m'')
                            else Some (number_to_string minutes @ js ''m''))"

definition plural :: "number \<Rightarrow> string \<Rightarrow> jsstr" where
  "plural n u = (if seq n (Num 1) then js ''1 '' @ js u @ js '' ago'' else number_to_string n @ js '' '' @ js u @ js ''s ago'')"

definition calculateTimeAgo :: "number \<Rightarrow> number \<Rightarrow> jsstr" where
  "calculateTimeAgo timestamp0 now =
     (let timestamp = (if timestamp0 < Num 1000000000000 then timestamp0 * Num 1000 else timestamp0);
          diff = now - timestamp;
          days = math_floor (diff / ms_day);
          hours = math_floor (js_rem diff ms_day / ms_hour);
          minutes = math_floor (js_rem diff ms_hour / ms_minute)
      in if seq days (Num 0) then
           (if seq hours (Num 0) then
              (if seq minutes (Num 0) then js ''just now'' else plural minutes ''minute'')
            else plural hours ''hour'')
         else if seq days (Num 1) then js ''1 day ago''
         else if days < Num 30 then number_to_string days @ js '' days ago''
         else let months = math_floor (days / Num 30) in
              if seq months (Num 1) then js ''1 month ago''
              else if months < Num 12 then number_to_string months @ js '' months ago''
              else plural (math_floor (days / Num 365)) ''year'')"

section \<open>Laws\<close>

lemma ms_inum [js_int]: "ms_day = inum 86400000" "ms_hour = inum 3600000" "ms_minute = inum 60000"
  by (simp_all add: ms_day_def ms_hour_def ms_minute_def inum_lits inum_arith)

lemma js_rem_inum: "0 \<le> a \<Longrightarrow> 0 < b \<Longrightarrow> js_rem (inum a) (inum b) = inum (a mod b)"
proof -
  assume a: "0 \<le> a" "0 < b"
  have "trunc_rat (of_int a / of_int b) = a div b"
    using a by (simp add: trunc_rat_def floor_divide_of_int_eq)
  moreover have "(of_int a :: rat) - of_int b * of_int (a div b) = of_int (a mod b)"
    by (simp add: minus_mult_div_eq_mod flip: of_int_mult of_int_diff)
  ultimately show ?thesis using a by (simp add: inum_def)
qed

lemma new_Date_inum: "\<bar>n\<bar> \<le> 8640000000000000 \<Longrightarrow> new_Date (inum n) = inum n"
proof -
  assume n: "\<bar>n\<bar> \<le> 8640000000000000"
  then have "\<bar>of_int n :: rat\<bar> \<le> 8640000000000000"
    using of_int_le_iff [of "\<bar>n\<bar>" 8640000000000000, where ?'a = rat] by simp
  then show ?thesis by (simp add: new_Date_def inum_def trunc_rat_def)
qed

lemma slot_time_plausible:
  "MIN_PLAUSIBLE_SLOT_TIME_MS \<le> estimateSlotTimeMs samples \<and> estimateSlotTimeMs samples \<le> MAX_PLAUSIBLE_SLOT_TIME_MS"
proof -
  have "is_finite_num x \<Longrightarrow> \<not> x < Num a \<Longrightarrow> Num a \<le> x" "is_finite_num x \<Longrightarrow> \<not> Num a < x \<Longrightarrow> x \<le> Num a" for x a
    by (cases x; auto)+
  then show ?thesis
    by (auto simp: estimateSlotTimeMs_def Let_def DEFAULT_SLOT_TIME_MS_def MIN_PLAUSIBLE_SLOT_TIME_MS_def
        MAX_PLAUSIBLE_SLOT_TIME_MS_def split: prod.splits)
qed

section \<open>Properties\<close>

text \<open>The countdown over the integers.\<close>

definition countdown_text :: "int \<Rightarrow> jsstr" where
  "countdown_text d =
     (let days = d div 86400000; hours = d mod 86400000 div 3600000; minutes = d mod 3600000 div 60000 in
      if d \<le> 0 then js ''Ended''
      else if 30 < days then number_to_string (inum (days div 30)) @ js ''mo '' @ number_to_string (inum (days mod 30)) @ js ''d''
      else (if 0 < days then number_to_string (inum days) @ js ''d '' else [])
           @ (if 0 < days \<or> 0 < hours then number_to_string (inum hours) @ js ''h '' else [])
           @ number_to_string (inum minutes) @ js ''m'')"

text \<open>The voting countdown is exact: for every end and current time the platform's dates can hold (and
  less than 140000 years apart), the text shows the whole days, hours and minutes of the integer
  difference (months and days beyond thirty days), although it is computed with rounded divisions; a
  deadline that has passed reads as ended, a missing or invalid one as nothing.\<close>

theorem countdown_exact:
  assumes "\<bar>now\<bar> \<le> 8640000000000000" "\<bar>end_ms - now\<bar> \<le> 2 ^ 52" "s \<noteq> []" "parse_date s = inum end_ms"
  shows "calculateVotingEndsIn parse_date (Some s) (inum now) = Some (countdown_text (end_ms - now)) \<and>
    calculateVotingEndsIn parse_date None (inum now) = None \<and>
    calculateVotingEndsIn (\<lambda>s. NaN) (Some s) (inum now) = None"
proof -
  let ?d = "end_ms - now"
  have diff: "inum end_ms - inum now = inum ?d" using assms(2) by (simp add: inum_arith)
  have f: "math_floor (inum a / inum k) = inum (a div k)" if "0 \<le> a" "a \<le> 2 ^ 52" "0 < k" "k \<le> 86400000" for a k
    using that by (intro inum_div_floor) auto
  have small: "?d mod 86400000 \<le> 2 ^ 52" "?d mod 3600000 \<le> 2 ^ 52"
    using pos_mod_bound [of 86400000 ?d] pos_mod_bound [of 3600000 ?d] by simp_all
  have days: "0 \<le> ?d \<Longrightarrow> ?d div 86400000 \<le> 2 ^ 52"
    using zdiv_mono2 [of ?d 1 86400000] assms(2) by simp
  have ne: "inum end_ms \<noteq> NaN" by (simp add: inum_def)
  have none: "calculateVotingEndsIn parse_date None (inum now) = None" "calculateVotingEndsIn (\<lambda>s. NaN) (Some s) (inum now) = None"
    using assms(3) by (simp_all add: calculateVotingEndsIn_def)
  have "calculateVotingEndsIn parse_date (Some s) (inum now) = Some (countdown_text ?d)"
  proof (cases "?d \<le> 0")
    case True
    then show ?thesis
      using assms(3,4) by (simp add: calculateVotingEndsIn_def countdown_text_def new_Date_inum [OF assms(1)] diff ne js_int Let_def)
  next
    case False
    define days hours minutes where "days = ?d div 86400000" and "hours = ?d mod 86400000 div 3600000"
      and "minutes = ?d mod 3600000 div 60000"
    have nn: "0 \<le> ?d" "0 \<le> days" "days \<le> 2 ^ 52" "?d \<le> 2 ^ 52"
      using False days assms(2) by (auto simp: days_def pos_imp_zdiv_nonneg_iff)
    have parts: "math_floor (inum ?d / inum 86400000) = inum days"
      "math_floor (js_rem (inum ?d) (inum 86400000) / inum 3600000) = inum hours"
      "math_floor (js_rem (inum ?d) (inum 3600000) / inum 60000) = inum minutes"
      "math_floor (inum days / inum 30) = inum (days div 30)" "js_rem (inum days) (inum 30) = inum (days mod 30)"
      using nn small by (simp_all add: js_rem_inum f days_def [symmetric] hours_def [symmetric] minutes_def [symmetric])
    show ?thesis
      using assms(3,4) False
      unfolding calculateVotingEndsIn_def countdown_text_def Let_def days_def [symmetric] hours_def [symmetric] minutes_def [symmetric]
      by (simp add: new_Date_inum [OF assms(1)] diff ne js_int parts del: number_to_string.simps)
  qed
  with none show ?thesis by simp
qed

theorem countdown_exact_witness:
  "calculateVotingEndsIn (\<lambda>s. inum 90061000) (Some [49]) (inum 0) = Some (countdown_text 90061000)"
  using countdown_exact [of 0 90061000 "[49]" "\<lambda>s. inum 90061000"] by simp

text \<open>A date is always shown: once the connection object exists, the conversion of an epoch ends with a
  date after at most three reads, whatever of them fails; for an epoch in the future it is the
  current block time (the clock when it cannot be read) plus the distance in slots times a slot
  duration between 100 and 1000 milliseconds.\<close>

theorem epochToDate_total:
  assumes "dt_connection env = Inr ()"
  shows "\<exists>t evs. epochToDate env epoch info l = (Inr t, l @ evs) \<and> length evs \<le> 3 \<and>
    (\<not> epoch \<le> ei_epoch info \<longrightarrow>
      (\<exists>base slot. (base = dt_now env (l @ evs) \<or> (\<exists>b. dt_blockTime env l (ei_absoluteSlot info) = Inr (Some b) \<and> base = b * Num 1000)) \<and>
         MIN_PLAUSIBLE_SLOT_TIME_MS \<le> slot \<and> slot \<le> MAX_PLAUSIBLE_SLOT_TIME_MS \<and>
         t = new_Date (base + (dt_firstSlot env epoch - ei_absoluteSlot info) * slot)))"
proof -
  have default: "MIN_PLAUSIBLE_SLOT_TIME_MS \<le> DEFAULT_SLOT_TIME_MS" "DEFAULT_SLOT_TIME_MS \<le> MAX_PLAUSIBLE_SLOT_TIME_MS"
    by (simp_all add: DEFAULT_SLOT_TIME_MS_def MIN_PLAUSIBLE_SLOT_TIME_MS_def MAX_PLAUSIBLE_SLOT_TIME_MS_def)
  let ?reads = "[ReadBlockTime (ei_absoluteSlot info), ReadPerformance PERFORMANCE_SAMPLE_LIMIT]"
  have proj: "\<exists>base slot. (base = dt_now env (k @ ?reads) \<or>
        (\<exists>b. dt_blockTime env k (ei_absoluteSlot info) = Inr (Some b) \<and> base = b * Num 1000)) \<and>
      MIN_PLAUSIBLE_SLOT_TIME_MS \<le> slot \<and> slot \<le> MAX_PLAUSIBLE_SLOT_TIME_MS \<and>
      project_epoch env epoch info k = (Inr (new_Date (base + (dt_firstSlot env epoch - ei_absoluteSlot info) * slot)), k @ ?reads)" for k
  proof -
    define bt where "bt = dt_blockTime env k (ei_absoluteSlot info)"
    define samples where "samples = dt_samples env (k @ [ReadBlockTime (ei_absoluteSlot info)])"
    define base where "base = (case bt of Inr (Some t) \<Rightarrow> t * Num 1000 | _ \<Rightarrow> dt_now env (k @ ?reads))"
    define slot where "slot = (case samples of Inr s \<Rightarrow> estimateSlotTimeMs s | Inl e \<Rightarrow> DEFAULT_SLOT_TIME_MS)"
    have "project_epoch env epoch info k = (Inr (new_Date (base + (dt_firstSlot env epoch - ei_absoluteSlot info) * slot)), k @ ?reads)"
      by (simp add: project_epoch_def settled_def io_defs Let_def base_def slot_def bt_def samples_def split: sum.splits option.splits)
    moreover have "base = dt_now env (k @ ?reads) \<or> (\<exists>b. bt = Inr (Some b) \<and> base = b * Num 1000)"
      by (auto simp: base_def split: sum.splits option.splits)
    moreover have "MIN_PLAUSIBLE_SLOT_TIME_MS \<le> slot \<and> slot \<le> MAX_PLAUSIBLE_SLOT_TIME_MS"
      using slot_time_plausible default by (auto simp: slot_def split: sum.splits)
    ultimately show ?thesis unfolding bt_def by blast
  qed
  show ?thesis
  proof (cases "epoch \<le> ei_epoch info")
    case False
    then have "epochToDate env epoch info l = project_epoch env epoch info l" by (simp add: epochToDate_def assms)
    then show ?thesis using proj [of l] by fastforce
  next
    case True
    let ?bt = "dt_blockTime env l (dt_firstSlot env epoch)" and ?k = "l @ [ReadBlockTime (dt_firstSlot env epoch)]"
    have "epochToDate env epoch info l = (case ?bt of
        Inl e \<Rightarrow> (Inr (new_Date (dt_now env ?k)), ?k)
      | Inr (Some t) \<Rightarrow> if truthy t then (Inr (new_Date (t * Num 1000)), ?k) else project_epoch env epoch info ?k
      | Inr None \<Rightarrow> project_epoch env epoch info ?k)"
      using True by (simp add: epochToDate_def assms io_bind_def settled_def io_call_def io_return_def split: sum.splits option.splits)
    then show ?thesis using True proj [of ?k] by (auto split: sum.splits option.splits)
  qed
qed

definition sample_dates :: date_env where
  "sample_dates = \<lparr>dt_connection = Inr (), dt_firstSlot = \<lambda>e. e, dt_blockTime = \<lambda>l s. Inl (JsError []),
     dt_samples = \<lambda>l. Inl (JsError []), dt_now = \<lambda>l. inum 0\<rparr>"

theorem epochToDate_total_witness:
  "\<exists>t evs. epochToDate sample_dates (inum 5) \<lparr>ei_absoluteSlot = inum 1, ei_slotIndex = inum 0, ei_epoch = inum 1,
       ei_slotsInEpoch = inum 10\<rparr> [] = (Inr t, evs) \<and> length evs \<le> 3"
proof -
  have "dt_connection sample_dates = Inr ()" by (simp add: sample_dates_def)
  from epochToDate_total [OF this, of "inum 5" "\<lparr>ei_absoluteSlot = inum 1, ei_slotIndex = inum 0, ei_epoch = inum 1,
       ei_slotsInEpoch = inum 10\<rparr>" "[]"] show ?thesis by auto
qed

end
