(* ===== verification/Js_Array.thy ===== *)
theory Js_Array
  imports Js_String "HOL-Library.Multiset"
begin

text \<open>
  Array operations of the language the data layer relies on: \<open>sort\<close> with a numeric comparator, and
  objects used as dictionaries.  The language requires the sort to be stable and leaves its
  algorithm open; for a consistent comparator every stable sort gives the list modelled here.
\<close>

section \<open>Sorting\<close>

text \<open>A comparator asks to move \<open>x\<close> behind \<open>y\<close> by a positive result; \<open>NaN\<close> counts as zero.\<close>

fun insert_by :: "('a \<Rightarrow> 'a \<Rightarrow> number) \<Rightarrow> 'a \<Rightarrow> 'a list \<Rightarrow> 'a list" where
  "insert_by cmp x [] = [x]"
| "insert_by cmp x (y # ys) = (if Num 0 < cmp x y then y # insert_by cmp x ys else x # y # ys)"

definition js_sort :: "('a \<Rightarrow> 'a \<Rightarrow> number) \<Rightarrow> 'a list \<Rightarrow> 'a list" where
  "js_sort cmp xs = foldr (insert_by cmp) xs []"

lemma mset_insert_by [simp]: "mset (insert_by cmp x ys) = add_mset x (mset ys)"
  by (induction ys) auto

lemma mset_js_sort [simp]: "mset (js_sort cmp xs) = mset xs"
  by (induction xs) (auto simp: js_sort_def)

lemma set_js_sort [simp]: "set (js_sort cmp xs) = set xs"
  by (metis mset_js_sort set_mset_mset)

lemma length_js_sort [simp]: "length (js_sort cmp xs) = length xs"
  by (metis mset_js_sort size_mset)

text \<open>A comparator that is decided by an integer key, in descending order.\<close>

definition descending_by :: "('a \<Rightarrow> int) \<Rightarrow> ('a \<Rightarrow> 'a \<Rightarrow> number) \<Rightarrow> 'a set \<Rightarrow> bool" where
  "descending_by key cmp A \<longleftrightarrow> (\<forall>x\<in>A. \<forall>y\<in>A. Num 0 < cmp x y \<longleftrightarrow> key x < key y)"

lemma insert_by_sorted:
  assumes "descending_by key cmp A" "x \<in> A" "set ys \<subseteq> A" "sorted_wrt (\<lambda>a b. key b \<le> key a) ys"
  shows "sorted_wrt (\<lambda>a b. key b \<le> key a) (insert_by cmp x ys)"
  using assms(3,4)
proof (induction ys)
  case (Cons y ys)
  have lt: "Num 0 < cmp x y \<longleftrightarrow> key x < key y" using assms(1,2) Cons.prems(1) by (auto simp: descending_by_def)
  have "set (insert_by cmp x ys) = insert x (set ys)" by (metis mset_insert_by set_mset_add_mset_insert set_mset_mset)
  with Cons lt show ?case by (auto simp: not_less)
qed simp

lemma insert_by_stable:
  assumes "descending_by key cmp A" "x \<in> A" "set ys \<subseteq> A"
  shows "filter (\<lambda>a. key a = k) (insert_by cmp x ys) = filter (\<lambda>a. key a = k) (x # ys)"
  using assms(3)
proof (induction ys)
  case (Cons y ys)
  have "Num 0 < cmp x y \<longleftrightarrow> key x < key y" using assms(1,2) Cons.prems by (auto simp: descending_by_def)
  with Cons show ?case by auto
qed simp

lemma js_sort_sorted:
  assumes "descending_by key cmp (set xs)"
  shows "sorted_wrt (\<lambda>a b. key b \<le> key a) (js_sort cmp xs)"
proof -
  have "sorted_wrt (\<lambda>a b. key b \<le> key a) (js_sort cmp ys) \<and> set (js_sort cmp ys) \<subseteq> set xs" if "set ys \<subseteq> set xs" for ys
    using that
  proof (induction ys)
    case (Cons y ys)
    then have IH: "sorted_wrt (\<lambda>a b. key b \<le> key a) (js_sort cmp ys)" "set (js_sort cmp ys) \<subseteq> set xs" "y \<in> set xs" by auto
    have "js_sort cmp (y # ys) = insert_by cmp y (js_sort cmp ys)" by (simp add: js_sort_def)
    then show ?case using insert_by_sorted [OF assms IH(3,2,1)] Cons.prems by (metis set_js_sort)
  qed (simp add: js_sort_def)
  then show ?thesis by blast
qed

lemma js_sort_stable:
  assumes "descending_by key cmp (set xs)"
  shows "filter (\<lambda>a. key a = k) (js_sort cmp xs) = filter (\<lambda>a. key a = k) xs"
proof -
  have "filter (\<lambda>a. key a = k) (js_sort cmp ys) = filter (\<lambda>a. key a = k) ys" if "set ys \<subseteq> set xs" for ys
    using that
  proof (induction ys)
    case (Cons y ys)
    have "js_sort cmp (y # ys) = insert_by cmp y (js_sort cmp ys)" by (simp add: js_sort_def)
    then show ?case using insert_by_stable [OF assms, of y "js_sort cmp ys" k] Cons by auto
  qed (simp add: js_sort_def)
  then show ?thesis by blast
qed

section \<open>Maps\<close>

text \<open>\<open>new Map(pairs)\<close>: a later pair with the same key replaces the value.\<close>

definition new_Map :: "('k \<times> 'v) list \<Rightarrow> 'k \<Rightarrow> 'v option" where
  "new_Map pairs = map_of (rev pairs)"

lemma new_Map_distinct: "distinct (map fst pairs) \<Longrightarrow> (k, v) \<in> set pairs \<Longrightarrow> new_Map pairs k = Some v"
  by (simp add: new_Map_def rev_map [symmetric])

lemma new_Map_SomeD: "new_Map pairs k = Some v \<Longrightarrow> (k, v) \<in> set pairs"
  using map_of_SomeD by (fastforce simp: new_Map_def)

end
