(* ===== verification/Proposals_Data.thy ===== *)
theory Proposals_Data
  imports Js_Array Proposal_Status Proposal_Url Chain_Helpers
begin

text \<open>
  The proposal list (\<open>frontend/src/data/getProposals.ts\<close>, \<open>data/getVoteProposals.ts\<close>,
  \<open>hooks/useProposals.ts\<close>, \<open>useProposalDetails.ts\<close>, \<open>useSummaryStats.ts\<close> and
  \<open>useProposalOverviewStats.ts\<close>): reading the proposal accounts, mapping them to the records the
  pages show, filtering and ordering them, and the figures computed from the list.  The accounts
  are what the program client answers to \<open>account.proposal.all()\<close>, an argument of the definitions;
  the query library is not modelled beyond the functions it is given.
\<close>

section \<open>Data\<close>

record raw_proposal_account =
  ra_publicKey :: pubkey
  ra_account :: proposal_account

record proposal_record =
  rec_publicKey :: pubkey
  rec_id :: jsstr
  rec_proposalRef :: "proposal_ref option"
  rec_title :: jsstr
  rec_description :: jsstr
  rec_author :: jsstr
  rec_creationEpoch :: number
  rec_startEpoch :: number
  rec_endEpoch :: number
  rec_creationTimestamp :: number
  rec_clusterSupportLamports :: number
  rec_forVotesLamports :: number
  rec_againstVotesLamports :: number
  rec_abstainVotesLamports :: number
  rec_voteCount :: number
  rec_proposerStakeWeightBp :: number
  rec_status :: proposal_status
  rec_voting :: bool
  rec_finalized :: bool
  rec_consensusResult :: "pubkey option"
  rec_snapshotSlot :: number
  rec_proposalBump :: number
  rec_index :: number
  rec_voteState :: proposal_status
  rec_lastUpdated :: jsstr

record proposal_filters =
  pf_voting :: "bool option"
  pf_finalized :: "bool option"

record raw_vote_accounts =
  rv_current :: "vote_account_info list"
  rv_delinquent :: "vote_account_info list"

section \<open>Operations\<close>

text \<open>\<open>+bn.toString()\<close>: the decimal text of the integer read as a number.\<close>

definition bn_number :: "int \<Rightarrow> number" where
  "bn_number n = to_double (of_int n)"

definition status_params_of ::
  "proposal_account \<Rightarrow> number \<Rightarrow> number \<Rightarrow> number \<Rightarrow> number \<Rightarrow> number \<Rightarrow> epoch_constants \<Rightarrow> number \<Rightarrow> status_params" where
  "status_params_of raw creationEpoch startEpoch endEpoch currentEpoch totalStakedLamports epochConstants minBps =
     \<lparr>sp_creationEpoch = creationEpoch, sp_startEpoch = startEpoch, sp_endEpoch = endEpoch,
      sp_currentEpoch = currentEpoch, sp_clusterSupportLamports = or_zero (bn_number (pr_clusterSupportLamports raw)),
      sp_totalStakedLamports = totalStakedLamports, sp_clusterSupportPctMinBps = minBps,
      sp_consensusResult = pr_consensusResult raw, sp_finalized = pr_finalized raw,
      sp_voting = pr_voting raw, sp_epochConstants = epochConstants\<rparr>"

definition mapProposalDto ::
  "chain_env \<Rightarrow> (jsstr \<Rightarrow> url_parts option) \<Rightarrow> raw_proposal_account \<Rightarrow> nat \<Rightarrow> number \<Rightarrow> number \<Rightarrow>
   epoch_constants \<Rightarrow> number \<Rightarrow> js_error + proposal_record" where
  "mapProposalDto env parse_url rawAccount index currentEpoch totalStakedLamports epochConstants minBps =
     (let raw = ra_account rawAccount in
      res_bind (bn_toNumber env (pr_creationEpoch raw)) (\<lambda>creationEpoch.
      res_bind (bn_toNumber env (pr_startEpoch raw)) (\<lambda>startEpoch.
      res_bind (bn_toNumber env (pr_endEpoch raw)) (\<lambda>endEpoch.
      let status = getProposalStatus (status_params_of raw creationEpoch startEpoch endEpoch currentEpoch
                     totalStakedLamports epochConstants minBps) in
      res_bind (bn_toNumber env (pr_creationTimestamp raw)) (\<lambda>creationTimestamp.
      res_bind (bn_toNumber env (pr_proposerStakeWeightBp raw)) (\<lambda>weight.
      res_bind (bn_toNumber env (pr_snapshotSlot raw)) (\<lambda>snapshotSlot.
        Inr \<lparr>rec_publicKey = ra_publicKey rawAccount, rec_id = dec index,
             rec_proposalRef = getProposalRefFromUrl parse_url (pr_description raw),
             rec_title = pr_title raw, rec_description = pr_description raw,
             rec_author = toBase58 env (pr_author raw),
             rec_creationEpoch = creationEpoch, rec_startEpoch = startEpoch, rec_endEpoch = endEpoch,
             rec_creationTimestamp = or_zero creationTimestamp,
             rec_clusterSupportLamports = or_zero (bn_number (pr_clusterSupportLamports raw)),
             rec_forVotesLamports = bn_number (pr_forVotesLamports raw),
             rec_againstVotesLamports = bn_number (pr_againstVotesLamports raw),
             rec_abstainVotesLamports = bn_number (pr_abstainVotesLamports raw),
             rec_voteCount = pr_voteCount raw,
             rec_proposerStakeWeightBp = or_zero weight,
             rec_status = status, rec_voting = pr_voting raw, rec_finalized = pr_finalized raw,
             rec_consensusResult = pr_consensusResult raw, rec_snapshotSlot = snapshotSlot,
             rec_proposalBump = pr_proposalBump raw, rec_index = pr_index raw,
             rec_voteState = status, rec_lastUpdated = js ''raw.voteCount.toString()''\<rparr>)))))))"

text \<open>The stake of the current vote accounts; a missing figure counts as zero.\<close>

definition total_staked :: "vote_account_info list \<Rightarrow> number" where
  "total_staked votes = foldl (\<lambda>sum vote. sum + or_zero (va_activatedStake vote)) (Num 0) votes"

definition filter_proposals :: "proposal_filters option \<Rightarrow> proposal_record list \<Rightarrow> proposal_record list" where
  "filter_proposals filters ps =
     (case filters of None \<Rightarrow> ps
      | Some f \<Rightarrow>
          let ps' = (case pf_voting f of None \<Rightarrow> ps | Some v \<Rightarrow> filter (\<lambda>p. rec_voting p = v) ps)
          in case pf_finalized f of None \<Rightarrow> ps' | Some v \<Rightarrow> filter (\<lambda>p. rec_finalized p = v) ps')"

datatype list_event = AllProposals jsstr

definition by_creation :: "proposal_record \<Rightarrow> proposal_record \<Rightarrow> number" where
  "by_creation a b = rec_creationTimestamp b - rec_creationTimestamp a"

definition getProposals ::
  "chain_env \<Rightarrow> (jsstr \<Rightarrow> url_parts option) \<Rightarrow> (list_event list \<Rightarrow> jsstr \<Rightarrow> js_error + raw_proposal_account list) \<Rightarrow>
   jsstr \<Rightarrow> proposal_filters option \<Rightarrow> epoch_info \<Rightarrow> raw_vote_accounts \<Rightarrow> governance_config_dto \<Rightarrow>
   (list_event, proposal_record list) io" where
  "getProposals env parse_url all_proposals endpoint filters epochInfo voteAccountsData config =
     io_bind (io_lift (createProgramWitDummyWallet env (Some endpoint))) (\<lambda>program.
     io_bind (io_call (AllProposals (prog_endpoint program)) (\<lambda>l. all_proposals l (prog_endpoint program))) (\<lambda>accs.
     io_bind (io_lift (res_map (\<lambda>(index, acc).
                mapProposalDto env parse_url acc index (ei_epoch epochInfo)
                  (total_staked (rv_current voteAccountsData)) (epochConstantsFromGovernanceConfig config)
                  (gc_clusterSupportPctMinBps config)) (enumerate 0 accs))) (\<lambda>records.
       io_return (js_sort by_creation (filter_proposals filters records)))))"

text \<open>The query of \<open>useProposals\<close>: it needs the epoch, the vote accounts and the configuration.\<close>

definition proposals_query ::
  "chain_env \<Rightarrow> (jsstr \<Rightarrow> url_parts option) \<Rightarrow> (list_event list \<Rightarrow> jsstr \<Rightarrow> js_error + raw_proposal_account list) \<Rightarrow>
   jsstr \<Rightarrow> proposal_filters option \<Rightarrow> epoch_info option \<Rightarrow> raw_vote_accounts option \<Rightarrow> governance_config_dto option \<Rightarrow>
   (list_event, proposal_record list) io" where
  "proposals_query env parse_url all_proposals endpoint filters epochData voteAccountsData config =
     (case epochData of None \<Rightarrow> io_throw (JsError (js ''Epoch info not available''))
      | Some epochInfo \<Rightarrow>
     (case voteAccountsData of None \<Rightarrow> io_throw (JsError (js ''Vote accounts not available''))
      | Some votes \<Rightarrow>
     (case config of None \<Rightarrow> io_throw (JsError (js ''Governance config not available''))
      | Some cfg \<Rightarrow> getProposals env parse_url all_proposals endpoint filters epochInfo votes cfg)))"

definition findProposalByPubKey :: "chain_env \<Rightarrow> proposal_record list \<Rightarrow> jsstr \<Rightarrow> proposal_record option" where
  "findProposalByPubKey env proposals key =
     List.find (\<lambda>p. toLowerCase (toBase58 env (rec_publicKey p)) = toLowerCase key) proposals"

record summary_stats =
  ss_total :: nat
  ss_active :: nat
  ss_finalized :: nat

definition useSummaryStats :: "proposal_record list option \<Rightarrow> summary_stats" where
  "useSummaryStats proposals =
     (case proposals of None \<Rightarrow> \<lparr>ss_total = 0, ss_active = 0, ss_finalized = 0\<rparr>
      | Some ps \<Rightarrow>
          \<lparr>ss_total = length ps,
           ss_active = length (filter (\<lambda>p. rec_status p = Supporting \<or> rec_status p = Voting) ps),
           ss_finalized = length (filter (\<lambda>p. rec_status p = Finalized) ps)\<rparr>)"

text \<open>The figures of the overview: active, in the support phase, and the number of validators,
  which is unknown while the validators are.\<close>

definition useProposalOverviewStats :: "proposal_record list option \<Rightarrow> 'v list option \<Rightarrow> nat \<times> nat \<times> nat option" where
  "useProposalOverviewStats proposals validators =
     (let count = (\<lambda>s. case proposals of None \<Rightarrow> 0 | Some ps \<Rightarrow> length (filter (\<lambda>p. rec_status p = s) ps))
      in (count Voting, count Supporting, map_option length validators))"

record vote_override_data =
  vo_publicKey :: pubkey
  vo_delegator :: pubkey
  vo_stakeAccount :: pubkey
  vo_validator :: pubkey
  vo_proposal :: pubkey
  vo_voteAccountValidator :: pubkey
  vo_forVotesBp :: int
  vo_againstVotesBp :: int
  vo_abstainVotesBp :: int
  vo_forVotesLamports :: int
  vo_againstVotesLamports :: int
  vo_abstainVotesLamports :: int
  vo_stakeAmount :: int
  vo_voteOverrideTimestamp :: int
  vo_bump :: number

record vote_proposal_data =
  vpd_voteAccount :: vote_override_data
  vpd_proposal :: proposal_record
  vpd_votePublicKey :: jsstr

definition getVoteProposals :: "chain_env \<Rightarrow> vote_override_data list \<Rightarrow> proposal_record list \<Rightarrow> vote_proposal_data list" where
  "getVoteProposals env voteAccounts proposals =
     (let proposalMap = new_Map (map (\<lambda>p. (toBase58 env (rec_publicKey p), p)) proposals)
      in concat (map (\<lambda>v. case proposalMap (toBase58 env (vo_proposal v)) of
                       Some p \<Rightarrow> [\<lparr>vpd_voteAccount = v, vpd_proposal = p, vpd_votePublicKey = toBase58 env (vo_publicKey v)\<rparr>]
                     | None \<Rightarrow> []) voteAccounts))"

section \<open>Laws\<close>

text \<open>What \<open>BN.toNumber\<close> documents: it returns the integer itself, or throws.\<close>

definition bn_toNumber_exact :: "chain_env \<Rightarrow> bool" where
  "bn_toNumber_exact env \<longleftrightarrow> (\<forall>n x. bn_toNumber env n = Inr x \<longrightarrow> x = inum n)"

lemma or_zero_inum [simp]: "or_zero (inum n) = inum n"
  by (simp add: or_zero_def truthy_def inum_def)

text \<open>A difference of integers has the sign of the exact difference, however it is rounded.\<close>

lemma inum_diff_pos: "Num 0 < inum b - inum a \<longleftrightarrow> a < b"
proof -
  have eq: "inum b - inum a = to_double (of_int (b - a))"
    by (simp add: inum_def minus_number_def)
  show ?thesis
  proof (cases "a < b")
    case True
    then have "(1::rat) \<le> of_int (b - a)" by (simp flip: of_int_diff)
    then have "0 < fl (of_int (b - a) :: rat)" using fl_mono [of 1 "of_int (b - a)"] fl_of_int [of 1] by simp
    then show ?thesis using True eq to_double_pos by simp
  next
    case False
    then have "(of_int (b - a) :: rat) \<le> 0" by (simp flip: of_int_diff)
    then have "to_double (of_int (b - a)) \<le> Num 0" using to_double_mono [of "of_int (b - a)" 0] by simp
    then show ?thesis using False eq number_not_less [of "Num 0" "to_double (of_int (b - a))"] by simp
  qed
qed

definition passes_filters :: "proposal_filters option \<Rightarrow> proposal_record \<Rightarrow> bool" where
  "passes_filters filters p \<longleftrightarrow> (case filters of None \<Rightarrow> True
     | Some f \<Rightarrow> (case pf_voting f of None \<Rightarrow> True | Some v \<Rightarrow> rec_voting p = v) \<and>
                 (case pf_finalized f of None \<Rightarrow> True | Some v \<Rightarrow> rec_finalized p = v))"

lemma filter_proposals_eq: "filter_proposals filters ps = filter (passes_filters filters) ps"
  by (auto simp: filter_proposals_def passes_filters_def [abs_def] Let_def conj_commute split: option.splits)

lemma mapProposalDto_fields:
  assumes "bn_toNumber_exact env" "mapProposalDto env pu acc i cur stake ec bps = Inr r"
  shows "rec_creationTimestamp r = inum (pr_creationTimestamp (ra_account acc))"
    "rec_publicKey r = ra_publicKey acc" "rec_id r = dec i"
    "rec_status r = getProposalStatus (status_params_of (ra_account acc) (inum (pr_creationEpoch (ra_account acc)))
       (inum (pr_startEpoch (ra_account acc))) (inum (pr_endEpoch (ra_account acc))) cur stake ec bps)"
proof -
  have exact: "bn_toNumber env n = Inr x \<Longrightarrow> x = inum n" for n x using assms(1) by (simp add: bn_toNumber_exact_def)
  show "rec_creationTimestamp r = inum (pr_creationTimestamp (ra_account acc))"
    "rec_publicKey r = ra_publicKey acc" "rec_id r = dec i"
    "rec_status r = getProposalStatus (status_params_of (ra_account acc) (inum (pr_creationEpoch (ra_account acc)))
       (inum (pr_startEpoch (ra_account acc))) (inum (pr_endEpoch (ra_account acc))) cur stake ec bps)"
    using assms(2) by (auto simp: mapProposalDto_def Let_def dest!: exact)
qed

text \<open>The reads of a successful listing.\<close>

lemma getProposals_run:
  assumes "getProposals env pu all endpoint filters info votes config l = (Inr ps, l')"
  obtains prog accs records where
    "createProgramWitDummyWallet env (Some endpoint) = Inr prog" "all l (prog_endpoint prog) = Inr accs"
    "l' = l @ [AllProposals (prog_endpoint prog)]" "length records = length accs"
    "\<forall>i<length accs. mapProposalDto env pu (accs ! i) i (ei_epoch info) (total_staked (rv_current votes))
       (epochConstantsFromGovernanceConfig config) (gc_clusterSupportPctMinBps config) = Inr (records ! i)"
    "ps = js_sort by_creation (filter (passes_filters filters) records)"
proof -
  obtain prog accs records where r: "createProgramWitDummyWallet env (Some endpoint) = Inr prog"
    "all l (prog_endpoint prog) = Inr accs" "l' = l @ [AllProposals (prog_endpoint prog)]"
    "res_map (\<lambda>(index, acc). mapProposalDto env pu acc index (ei_epoch info) (total_staked (rv_current votes))
       (epochConstantsFromGovernanceConfig config) (gc_clusterSupportPctMinBps config)) (enumerate 0 accs) = Inr records"
    "ps = js_sort by_creation (filter_proposals filters records)"
    using assms by (auto simp: getProposals_def io_run_iff io_defs split: sum.splits prod.splits)
  show ?thesis
  proof (rule that [OF r(1-3)])
    show "length records = length accs" using res_map_length [OF r(4)] by simp
    show "\<forall>i<length accs. mapProposalDto env pu (accs ! i) i (ei_epoch info) (total_staked (rv_current votes))
       (epochConstantsFromGovernanceConfig config) (gc_clusterSupportPctMinBps config) = Inr (records ! i)"
      using res_map_nth [OF r(4)] by (simp add: nth_enumerate_eq)
    show "ps = js_sort by_creation (filter (passes_filters filters) records)" using r(5) by (simp add: filter_proposals_eq)
  qed
qed

section \<open>Properties\<close>

text \<open>C19. The proposal list is complete and in order.  When reading the list succeeds, it made one
  read and shows, for every account the program returned, the record mapped from it (with its
  position as identifier), exactly those that pass the filters, each once, newest first; proposals
  created at the same second keep the order of the accounts.\<close>

theorem proposal_list_ordered:
  assumes "bn_toNumber_exact env"
    and "getProposals env parse_url all endpoint filters info votes config l = (Inr ps, l')"
  shows "\<exists>prog accs records. createProgramWitDummyWallet env (Some endpoint) = Inr prog \<and>
    all l (prog_endpoint prog) = Inr accs \<and> l' = l @ [AllProposals (prog_endpoint prog)] \<and>
    length records = length accs \<and>
    (\<forall>i<length accs. mapProposalDto env parse_url (accs ! i) i (ei_epoch info) (total_staked (rv_current votes))
       (epochConstantsFromGovernanceConfig config) (gc_clusterSupportPctMinBps config) = Inr (records ! i)) \<and>
    mset ps = mset (filter (passes_filters filters) records) \<and>
    sorted_wrt (\<lambda>a b. rec_creationTimestamp b \<le> rec_creationTimestamp a) ps \<and>
    (\<forall>t. filter (\<lambda>p. rec_creationTimestamp p = t) ps =
         filter (\<lambda>p. rec_creationTimestamp p = t) (filter (passes_filters filters) records))"
proof -
  obtain prog accs records where prog: "createProgramWitDummyWallet env (Some endpoint) = Inr prog"
    and r: "all l (prog_endpoint prog) = Inr accs"
    "l' = l @ [AllProposals (prog_endpoint prog)]" "length records = length accs"
    "\<forall>i<length accs. mapProposalDto env parse_url (accs ! i) i (ei_epoch info) (total_staked (rv_current votes))
       (epochConstantsFromGovernanceConfig config) (gc_clusterSupportPctMinBps config) = Inr (records ! i)"
    "ps = js_sort by_creation (filter (passes_filters filters) records)"
    using getProposals_run [OF assms(2)] by blast
  let ?rs = "filter (passes_filters filters) records"
  define key where "key p = (THE n. rec_creationTimestamp p = inum n)" for p :: proposal_record
  have key: "rec_creationTimestamp p = inum (key p)" if p: "p \<in> set ?rs" for p
  proof -
    obtain i where "i < length accs" "p = records ! i" using p r(3) by (auto simp: in_set_conv_nth)
    then have "rec_creationTimestamp p = inum (pr_creationTimestamp (ra_account (accs ! i)))"
      using mapProposalDto_fields(1) [OF assms(1)] r(4) by blast
    then show ?thesis by (simp add: key_def)
  qed
  have "descending_by key by_creation (set ?rs)"
    unfolding descending_by_def by_creation_def using key inum_diff_pos by simp
  note sorted = js_sort_sorted [OF this] and stable = js_sort_stable [OF this]
  have "sorted_wrt (\<lambda>a b. rec_creationTimestamp b \<le> rec_creationTimestamp a) ps"
    using sorted unfolding r(5) by (rule sorted_wrt_mono_rel [rotated]) (use key in simp)
  moreover have "filter (\<lambda>p. rec_creationTimestamp p = t) ps = filter (\<lambda>p. rec_creationTimestamp p = t) ?rs" for t
  proof (cases "\<exists>n. t = inum n")
    case True
    then obtain n where t: "t = inum n" by blast
    have "filter (\<lambda>p. rec_creationTimestamp p = t) xs = filter (\<lambda>p. key p = n) xs" if "set xs \<subseteq> set ?rs" for xs
      using that key t by (intro filter_cong) auto
    from this [of "js_sort by_creation ?rs"] this [of ?rs] show ?thesis using stable [of n] unfolding r(5)
      by (simp only: set_js_sort subset_refl)
  next
    case False
    then have "rec_creationTimestamp p \<noteq> t" if "p \<in> set ?rs" for p using key [OF that] by auto
    then show ?thesis unfolding r(5) by (subst (1 2) filter_False) (simp_all only: set_js_sort, blast+)
  qed
  ultimately show ?thesis using prog r by (intro exI [of _ prog] exI [of _ accs] exI [of _ records]) auto
qed

text \<open>Two proposals created one after the other, listed from a client that answers both.\<close>

definition blank_proposal :: "int \<Rightarrow> raw_proposal_account" where
  "blank_proposal t = \<lparr>ra_publicKey = PublicKey [nat t], ra_account =
     \<lparr>pr_author = PublicKey [9], pr_title = [], pr_description = [], pr_creationEpoch = 800,
      pr_startEpoch = 0, pr_endEpoch = 0, pr_proposerStakeWeightBp = 0, pr_clusterSupportLamports = 0,
      pr_forVotesLamports = 0, pr_againstVotesLamports = 0, pr_abstainVotesLamports = 0, pr_voting = False,
      pr_finalized = False, pr_proposalBump = inum 255, pr_creationTimestamp = t, pr_voteCount = inum 0,
      pr_index = inum 0, pr_consensusResult = None, pr_snapshotSlot = 0, pr_numSupporters = inum 0\<rparr>\<rparr>"

definition two_proposals :: "list_event list \<Rightarrow> jsstr \<Rightarrow> js_error + raw_proposal_account list" where
  "two_proposals l ep = Inr [blank_proposal 10, blank_proposal 20]"

definition sample_epoch :: epoch_info where
  "sample_epoch = \<lparr>ei_absoluteSlot = inum 1, ei_slotIndex = inum 0, ei_epoch = inum 801, ei_slotsInEpoch = inum 10\<rparr>"

definition listing_config :: governance_config_dto where
  "listing_config = \<lparr>gc_admin = [], gc_maxTitleLength = inum 50, gc_maxDescriptionLength = inum 250,
     gc_maxSupportEpochs = inum 1, gc_minProposalStakeLamports = inum 0, gc_clusterSupportPctMinBps = inum 1500,
     gc_discussionEpochs = inum 4, gc_votingEpochs = inum 3, gc_snapshotEpochExtension = inum 1,
     gc_snapshotSlotOffset = inum 0, gc_maxSupporters = inum 2000, gc_bump = inum 255\<rparr>"

abbreviation sample_listing :: "(list_event, proposal_record list) io" where
  "sample_listing \<equiv> getProposals (http_env answer_404) (\<lambda>u. None) two_proposals (js ''rpc'') None sample_epoch
     \<lparr>rv_current = [], rv_delinquent = []\<rparr> listing_config"

lemma sample_bn_exact: "bn_toNumber_exact (http_env att)"
  by (simp add: bn_toNumber_exact_def http_env_def)

lemma sample_listing_run: "\<exists>ps l'. sample_listing l = (Inr ps, l')"
proof -
  have "mapProposalDto (http_env answer_404) pu acc i cur stake ec bps \<noteq> Inl e" for pu acc i cur stake ec bps e
    by (simp add: mapProposalDto_def http_env_def Let_def)
  moreover have "createProgramWitDummyWallet (http_env answer_404) (Some (js ''rpc'')) =
      Inr \<lparr>prog_endpoint = js ''rpc'', prog_id = PublicKey [1]\<rparr>"
    by (simp add: createProgramWitDummyWallet_def create_program_def http_env_def Let_def)
  ultimately show ?thesis by (simp add: getProposals_def io_defs two_proposals_def res_bind_Inl_iff split: sum.splits)
qed

theorem proposal_list_ordered_witness:
  "\<exists>ps. fst (sample_listing []) = Inr ps \<and> length ps = 2 \<and>
     sorted_wrt (\<lambda>a b. rec_creationTimestamp b \<le> rec_creationTimestamp a) ps"
proof -
  obtain ps l' where run: "sample_listing [] = (Inr ps, l')" using sample_listing_run by blast
  obtain accs records where r: "two_proposals [] (js ''rpc'') = Inr accs" "length records = length accs"
    "mset ps = mset (filter (passes_filters None) records)"
    "sorted_wrt (\<lambda>a b. rec_creationTimestamp b \<le> rec_creationTimestamp a) ps"
    using proposal_list_ordered [OF sample_bn_exact run] by (auto simp: two_proposals_def)
  have "length ps = length records" using r(3) by (metis filter_True option.case(1) passes_filters_def size_mset)
  then show ?thesis using run r by (auto simp: two_proposals_def)
qed

section \<open>The lifecycle of a listed proposal\<close>

fun num_int :: "number \<Rightarrow> int" where
  "num_int (Num r) = \<lfloor>r\<rfloor>"
| "num_int x = 0"

lemma num_int_inum [simp]: "num_int (inum n) = n"
  by (simp add: inum_def)

text \<open>The integer lifecycle of a proposal account under a configuration.\<close>

definition lifecycle_of :: "governance_config_dto \<Rightarrow> number \<Rightarrow> proposal_account \<Rightarrow> lifecycle" where
  "lifecycle_of config stake raw =
     \<lparr>lc_creation = pr_creationEpoch raw, lc_start = pr_startEpoch raw, lc_end = pr_endEpoch raw,
      lc_support = num_int (gc_maxSupportEpochs config), lc_discussion = num_int (gc_discussionEpochs config),
      lc_snapshot = num_int (gc_snapshotEpochExtension config), lc_votingEpochs = num_int (gc_votingEpochs config),
      lc_supportLamports = or_zero (bn_number (pr_clusterSupportLamports raw)), lc_totalLamports = stake,
      lc_minBps = gc_clusterSupportPctMinBps config, lc_consensus = pr_consensusResult raw,
      lc_finalized = pr_finalized raw, lc_voting = pr_voting raw\<rparr>"

definition config_integral :: "governance_config_dto \<Rightarrow> bool" where
  "config_integral config \<longleftrightarrow> list_all (\<lambda>x. x = inum (num_int x))
     [gc_maxSupportEpochs config, gc_discussionEpochs config, gc_snapshotEpochExtension config, gc_votingEpochs config]"

lemma status_params_lifecycle:
  assumes "config_integral config"
  shows "status_params_of raw (inum (pr_creationEpoch raw)) (inum (pr_startEpoch raw)) (inum (pr_endEpoch raw)) (inum e)
      stake (epochConstantsFromGovernanceConfig config) (gc_clusterSupportPctMinBps config) =
    params_at (lifecycle_of config stake raw) e"
  using assms by (simp add: status_params_of_def params_at_def lifecycle_of_def epoch_ints_def config_integral_def
      epochConstantsFromGovernanceConfig_def flip: inum_def)

end
