(* ===== verification/Account_Reads.thy ===== *)
theory Account_Reads
  imports Proposals_Data
begin

text \<open>
  Reads of the program's accounts (\<open>frontend/src/data/getProposalVotes.ts\<close>,
  \<open>getProposalVoteOverrides.ts\<close>, \<open>getVoteOverrideAccounts.ts\<close>, \<open>getSupportAccounts.ts\<close>,
  \<open>getValidatorProposalVoteAccount.ts\<close>, \<open>getVoteAccounts.ts\<close>, \<open>getHasUserVoted.ts\<close>,
  \<open>hooks/useVotes.ts\<close> and the filter builders of \<open>hooks/useSupportAccounts.ts\<close>,
  \<open>useHasUserVoted.ts\<close> and \<open>useStakerVotedProposals.ts\<close>).  The frontend selects accounts by
  comparing bytes at fixed offsets of the account data; the layouts those offsets refer to are the
  account structs of the program (\<open>svmgov_program/src/state\<close>), so that the offsets can be checked
  against them.  The program client is an argument of the definitions.
\<close>

section \<open>The accounts of the program\<close>

record vote_account =
  vt_validator :: pubkey
  vt_proposal :: pubkey
  vt_forVotesBp :: int
  vt_againstVotesBp :: int
  vt_abstainVotesBp :: int
  vt_forVotesLamports :: int
  vt_againstVotesLamports :: int
  vt_abstainVotesLamports :: int
  vt_stake :: int
  vt_overrideLamports :: int
  vt_voteTimestamp :: int
  vt_bump :: number

record vote_override_account =
  ov_delegator :: pubkey
  ov_stakeAccount :: pubkey
  ov_validator :: pubkey
  ov_proposal :: pubkey
  ov_voteAccountValidator :: pubkey
  ov_forVotesBp :: int
  ov_againstVotesBp :: int
  ov_abstainVotesBp :: int
  ov_forVotesLamports :: int
  ov_againstVotesLamports :: int
  ov_abstainVotesLamports :: int
  ov_stakeAmount :: int
  ov_voteOverrideTimestamp :: int
  ov_bump :: number

record support_account =
  su_proposal :: pubkey
  su_validator :: pubkey
  su_bump :: number

text \<open>The serialised forms: an 8-byte discriminator, then the fields in the order of the struct,
  integers in 8 little-endian bytes.\<close>

primrec le_bytes :: "nat \<Rightarrow> int \<Rightarrow> nat list" where
  "le_bytes 0 n = []"
| "le_bytes (Suc k) n = nat (n mod 256) # le_bytes k (n div 256)"

definition vote_layout :: "nat list \<Rightarrow> vote_account \<Rightarrow> nat list" where
  "vote_layout disc v = disc @ pk_bytes (vt_validator v) @ pk_bytes (vt_proposal v)
     @ concat (map (le_bytes 8) [vt_forVotesBp v, vt_againstVotesBp v, vt_abstainVotesBp v, vt_forVotesLamports v,
         vt_againstVotesLamports v, vt_abstainVotesLamports v, vt_stake v, vt_overrideLamports v, vt_voteTimestamp v])
     @ le_bytes 1 (num_int (vt_bump v))"

definition override_layout :: "nat list \<Rightarrow> vote_override_account \<Rightarrow> nat list" where
  "override_layout disc v = disc @ pk_bytes (ov_delegator v) @ pk_bytes (ov_stakeAccount v) @ pk_bytes (ov_validator v)
     @ pk_bytes (ov_proposal v) @ pk_bytes (ov_voteAccountValidator v)
     @ concat (map (le_bytes 8) [ov_forVotesBp v, ov_againstVotesBp v, ov_abstainVotesBp v, ov_forVotesLamports v,
         ov_againstVotesLamports v, ov_abstainVotesLamports v, ov_stakeAmount v, ov_voteOverrideTimestamp v])
     @ le_bytes 1 (num_int (ov_bump v))"

definition support_layout :: "nat list \<Rightarrow> support_account \<Rightarrow> nat list" where
  "support_layout disc v = disc @ pk_bytes (su_proposal v) @ pk_bytes (su_validator v) @ le_bytes 1 (num_int (su_bump v))"

section \<open>The client\<close>

record memcmp =
  mc_offset :: nat
  mc_bytes :: jsstr

datatype read_event = ReadVotes jsstr "memcmp list" | ReadOverrides jsstr "memcmp list" | ReadSupports jsstr "memcmp list"

record read_env =
  re_chain :: chain_env
  re_votes :: "read_event list \<Rightarrow> jsstr \<Rightarrow> memcmp list \<Rightarrow> js_error + (pubkey \<times> vote_account) list"
  re_overrides :: "read_event list \<Rightarrow> jsstr \<Rightarrow> memcmp list \<Rightarrow> js_error + (pubkey \<times> vote_override_account) list"
  re_supports :: "read_event list \<Rightarrow> jsstr \<Rightarrow> memcmp list \<Rightarrow> js_error + (pubkey \<times> support_account) list"

definition read_votes :: "read_env \<Rightarrow> jsstr \<Rightarrow> memcmp list \<Rightarrow> (read_event, (pubkey \<times> vote_account) list) io" where
  "read_votes env ep fs = io_call (ReadVotes ep fs) (\<lambda>l. re_votes env l ep fs)"

definition read_overrides :: "read_env \<Rightarrow> jsstr \<Rightarrow> memcmp list \<Rightarrow> (read_event, (pubkey \<times> vote_override_account) list) io" where
  "read_overrides env ep fs = io_call (ReadOverrides ep fs) (\<lambda>l. re_overrides env l ep fs)"

definition read_supports :: "read_env \<Rightarrow> jsstr \<Rightarrow> memcmp list \<Rightarrow> (read_event, (pubkey \<times> support_account) list) io" where
  "read_supports env ep fs = io_call (ReadSupports ep fs) (\<lambda>l. re_supports env l ep fs)"

section \<open>Votes\<close>

record old_vote_account_data =
  ova_voteAccount :: pubkey
  ova_proposal :: pubkey
  ova_activeStake :: number
  ova_identity :: "pubkey option"
  ova_name :: "jsstr option"
  ova_commission :: number
  ova_lastVote :: number
  ova_credits :: "number option"
  ova_epochCredits :: number
  ova_activatedStake :: number
  ova_forVotesBp :: int
  ova_againstVotesBp :: int
  ova_abstainVotesBp :: int
  ova_forVotesLamports :: int
  ova_againstVotesLamports :: int
  ova_abstainVotesLamports :: int
  ova_stake :: int
  ova_overrideLamports :: int
  ova_voteTimestamp :: int
  ova_bump :: number

definition mapVoteAccountDto :: "pubkey \<times> vote_account \<Rightarrow> old_vote_account_data" where
  "mapVoteAccountDto rawAccount =
     (let raw = snd rawAccount in
      \<lparr>ova_voteAccount = fst rawAccount, ova_proposal = vt_proposal raw,
       ova_activeStake = bn_number (vt_stake raw), ova_identity = Some (vt_validator raw), ova_name = None,
       ova_commission = Num 0, ova_lastVote = Num 0, ova_credits = Some (Num 0), ova_epochCredits = Num 0,
       ova_activatedStake = Num 0,
       ova_forVotesBp = vt_forVotesBp raw, ova_againstVotesBp = vt_againstVotesBp raw,
       ova_abstainVotesBp = vt_abstainVotesBp raw, ova_forVotesLamports = vt_forVotesLamports raw,
       ova_againstVotesLamports = vt_againstVotesLamports raw, ova_abstainVotesLamports = vt_abstainVotesLamports raw,
       ova_stake = vt_stake raw, ova_overrideLamports = vt_overrideLamports raw,
       ova_voteTimestamp = vt_voteTimestamp raw, ova_bump = vt_bump raw\<rparr>)"

definition getVoteAccounts :: "read_env \<Rightarrow> jsstr \<Rightarrow> (read_event, old_vote_account_data list) io" where
  "getVoteAccounts env endpoint =
     io_bind (io_lift (createProgramWitDummyWallet (re_chain env) (Some endpoint))) (\<lambda>program.
     io_bind (read_votes env (prog_endpoint program) []) (\<lambda>accs. io_return (map mapVoteAccountDto accs)))"

text \<open>The votes of a proposal, each with the address of its account as the voter.\<close>

definition getProposalVotes :: "read_env \<Rightarrow> pubkey \<Rightarrow> jsstr \<Rightarrow> (read_event, (old_vote_account_data \<times> pubkey) list) io" where
  "getProposalVotes env proposal endpoint =
     io_bind (io_lift (createProgramWitDummyWallet (re_chain env) (Some endpoint))) (\<lambda>program.
     io_bind (read_votes env (prog_endpoint program) [\<lparr>mc_offset = 40, mc_bytes = toBase58 (re_chain env) proposal\<rparr>])
       (\<lambda>votes. io_return (map (\<lambda>vote. (mapVoteAccountDto vote, fst vote)) votes)))"

definition getAllVotes :: "read_env \<Rightarrow> jsstr \<Rightarrow> (read_event, (pubkey \<times> vote_account) list option) io" where
  "getAllVotes env endpoint =
     io_bind (io_lift (createProgramWitDummyWallet (re_chain env) (Some endpoint))) (\<lambda>program.
     io_bind (read_votes env (prog_endpoint program) []) (\<lambda>votes.
       io_return (if votes = [] then None else Some votes)))"

definition getValidatorProposalVoteAccount ::
  "read_env \<Rightarrow> jsstr \<Rightarrow> jsstr option \<Rightarrow> jsstr option \<Rightarrow> (read_event, vote_account option) io" where
  "getValidatorProposalVoteAccount env endpoint proposalKey validatorKey =
     (case proposalKey of None \<Rightarrow> io_throw (JsError (js ''Proposal public key is not loaded''))
      | Some p \<Rightarrow>
     (case validatorKey of None \<Rightarrow> io_throw (JsError (js ''Validator public key is required''))
      | Some v \<Rightarrow>
        io_bind (io_lift (createProgramWitDummyWallet (re_chain env) (Some endpoint))) (\<lambda>program.
        io_bind (io_lift (new_PublicKey (re_chain env) p)) (\<lambda>proposal.
        io_bind (io_lift (new_PublicKey (re_chain env) v)) (\<lambda>validator.
        io_bind (read_votes env (prog_endpoint program)
                   [\<lparr>mc_offset = 8, mc_bytes = toBase58 (re_chain env) validator\<rparr>,
                    \<lparr>mc_offset = 40, mc_bytes = toBase58 (re_chain env) proposal\<rparr>]) (\<lambda>accounts.
          io_return (case accounts of [] \<Rightarrow> None | a # _ \<Rightarrow> Some (snd a))))))))"

section \<open>Vote overrides\<close>

datatype override_field = FDelegator | FProposal | FValidator | FStakeAccount

type_synonym override_filters = "(override_field \<times> jsstr) list"

fun override_offset :: "override_field \<Rightarrow> nat" where
  "override_offset FDelegator = 8"
| "override_offset FStakeAccount = 40"
| "override_offset FValidator = 72"
| "override_offset FProposal = 104"

definition override_memcmp :: "override_filters \<Rightarrow> memcmp list" where
  "override_memcmp filters =
     map (\<lambda>(n, v). \<lparr>mc_offset = override_offset n, mc_bytes = v\<rparr>) (filter (\<lambda>(n, v). v \<noteq> []) filters)"

definition mapVoteOverrideAccountDto :: "pubkey \<times> vote_override_account \<Rightarrow> vote_override_data" where
  "mapVoteOverrideAccountDto rawAccount =
     (let raw = snd rawAccount in
      \<lparr>vo_publicKey = fst rawAccount, vo_delegator = ov_delegator raw, vo_stakeAccount = ov_stakeAccount raw,
       vo_validator = ov_validator raw, vo_proposal = ov_proposal raw,
       vo_voteAccountValidator = ov_voteAccountValidator raw,
       vo_forVotesBp = ov_forVotesBp raw, vo_againstVotesBp = ov_againstVotesBp raw,
       vo_abstainVotesBp = ov_abstainVotesBp raw, vo_forVotesLamports = ov_forVotesLamports raw,
       vo_againstVotesLamports = ov_againstVotesLamports raw, vo_abstainVotesLamports = ov_abstainVotesLamports raw,
       vo_stakeAmount = ov_stakeAmount raw, vo_voteOverrideTimestamp = ov_voteOverrideTimestamp raw,
       vo_bump = ov_bump raw\<rparr>)"

definition getVoteOverrideAccounts :: "read_env \<Rightarrow> jsstr \<Rightarrow> override_filters \<Rightarrow> (read_event, vote_override_data list) io" where
  "getVoteOverrideAccounts env endpoint filters =
     (if filters = [] then io_throw (JsError (js ''getVoteOverrideAccounts: At least one filter is required. Cannot fetch all voteOverride accounts.''))
      else
        io_bind (io_lift (createProgramWitDummyWallet (re_chain env) (Some endpoint))) (\<lambda>program.
        io_bind (read_overrides env (prog_endpoint program) (override_memcmp filters)) (\<lambda>accs.
          io_return (map mapVoteOverrideAccountDto accs))))"

text \<open>An override of a proposal with the fields the list of voters expects.\<close>

record proposal_override =
  po_data :: vote_override_data
  po_voter :: pubkey
  po_activeStake :: number
  po_identity :: pubkey
  po_voteTimestamp :: int

definition getProposalVoteOverrides :: "read_env \<Rightarrow> pubkey \<Rightarrow> jsstr \<Rightarrow> (read_event, proposal_override list) io" where
  "getProposalVoteOverrides env proposal endpoint =
     io_bind (io_lift (createProgramWitDummyWallet (re_chain env) (Some endpoint))) (\<lambda>program.
     io_bind (read_overrides env (prog_endpoint program) [\<lparr>mc_offset = 104, mc_bytes = toBase58 (re_chain env) proposal\<rparr>])
       (\<lambda>overrides. io_lift (res_map (\<lambda>override.
          let mapped = mapVoteOverrideAccountDto override in
          res_bind (bn_toNumber (re_chain env) (vo_stakeAmount mapped)) (\<lambda>stake.
            Inr \<lparr>po_data = mapped, po_voter = ov_stakeAccount (snd override), po_activeStake = or_zero stake,
                 po_identity = vo_validator mapped, po_voteTimestamp = vo_voteOverrideTimestamp mapped\<rparr>)) overrides)))"

definition getVoteOverrideByStakeAccount :: "chain_env \<Rightarrow> vote_override_data list \<Rightarrow> jsstr \<Rightarrow> jsstr \<Rightarrow> vote_override_data option" where
  "getVoteOverrideByStakeAccount env overrides stakeAccount proposalKey =
     List.find (\<lambda>o'. toBase58 env (vo_stakeAccount o') = stakeAccount \<and> toBase58 env (vo_proposal o') = proposalKey) overrides"

definition buildVoteOverrideFilters :: "chain_env \<Rightarrow> jsstr option \<Rightarrow> pubkey option \<Rightarrow> override_filters" where
  "buildVoteOverrideFilters env proposalKey delegator =
     (case proposalKey of Some p \<Rightarrow> if p \<noteq> [] then [(FProposal, p)] else [] | None \<Rightarrow> [])
     @ (case delegator of Some d \<Rightarrow> [(FDelegator, toBase58 env d)] | None \<Rightarrow> [])"

definition getUserHasVoted :: "vote_override_data list \<Rightarrow> vote_account option \<Rightarrow> bool" where
  "getUserHasVoted overrides voteAccount \<longleftrightarrow> 0 < length overrides \<or> voteAccount \<noteq> None"

section \<open>Supports\<close>

datatype support_field = SFProposal | SFValidator

fun support_offset :: "support_field \<Rightarrow> nat" where
  "support_offset SFProposal = 8"
| "support_offset SFValidator = 40"

definition support_memcmp :: "(support_field \<times> jsstr) list \<Rightarrow> memcmp list" where
  "support_memcmp filters =
     map (\<lambda>(n, v). \<lparr>mc_offset = support_offset n, mc_bytes = v\<rparr>) (filter (\<lambda>(n, v). v \<noteq> []) filters)"

record support_account_data =
  sd_publicKey :: pubkey
  sd_proposal :: pubkey
  sd_validator :: pubkey
  sd_bump :: number

definition mapSupportAccountDto :: "pubkey \<times> support_account \<Rightarrow> support_account_data" where
  "mapSupportAccountDto rawAccount =
     (let raw = snd rawAccount in
      \<lparr>sd_publicKey = fst rawAccount, sd_proposal = su_proposal raw, sd_validator = su_validator raw, sd_bump = su_bump raw\<rparr>)"

definition getSupportAccounts :: "read_env \<Rightarrow> jsstr \<Rightarrow> (support_field \<times> jsstr) list \<Rightarrow> (read_event, support_account_data list) io" where
  "getSupportAccounts env endpoint filters =
     (if filters = [] then io_throw (JsError (js ''getSupportAccounts: At least one filter is required. Cannot fetch all support accounts.''))
      else
        io_bind (io_lift (createProgramWitDummyWallet (re_chain env) (Some endpoint))) (\<lambda>program.
        io_bind (read_supports env (prog_endpoint program) (support_memcmp filters)) (\<lambda>accs.
          io_return (map mapSupportAccountDto accs))))"

definition buildSupportFilters :: "chain_env \<Rightarrow> jsstr option \<Rightarrow> pubkey option \<Rightarrow> (support_field \<times> jsstr) list" where
  "buildSupportFilters env proposalKey validator =
     (case proposalKey of Some p \<Rightarrow> if p \<noteq> [] then [(SFProposal, p)] else [] | None \<Rightarrow> [])
     @ (case validator of Some v \<Rightarrow> [(SFValidator, toBase58 env v)] | None \<Rightarrow> [])"

definition getUserHasSupported :: "support_account_data list \<Rightarrow> bool" where
  "getUserHasSupported supports \<longleftrightarrow> 0 < length supports"

section \<open>Selection by bytes\<close>

text \<open>A node keeps an account when its data agrees with every filter: the bytes at the offset are the
  decoded text.\<close>

definition memcmp_matches :: "(jsstr \<Rightarrow> nat list) \<Rightarrow> nat list \<Rightarrow> memcmp \<Rightarrow> bool" where
  "memcmp_matches decode data f \<longleftrightarrow>
     (let b = decode (mc_bytes f) in take (length b) (drop (mc_offset f) data) = b)"

definition node_answer :: "(jsstr \<Rightarrow> nat list) \<Rightarrow> ('a \<Rightarrow> nat list) \<Rightarrow> (pubkey \<times> 'a) list \<Rightarrow> memcmp list \<Rightarrow> (pubkey \<times> 'a) list" where
  "node_answer decode layout accounts fs = filter (\<lambda>(k, a). list_all (memcmp_matches decode (layout a)) fs) accounts"

definition key_ok :: "pubkey \<Rightarrow> bool" where
  "key_ok k \<longleftrightarrow> length (pk_bytes k) = 32"

text \<open>The interface between the filters and the accounts: a layout with a public key at each named
  offset.\<close>

locale keyed_layout =
  fixes layout :: "'a \<Rightarrow> nat list"
    and field :: "'f \<Rightarrow> 'a \<Rightarrow> pubkey"
    and offset :: "'f \<Rightarrow> nat"
    and well_formed :: "'a \<Rightarrow> bool"
  assumes field_key: "well_formed a \<Longrightarrow> key_ok (field f a)"
    and field_at: "well_formed a \<Longrightarrow> take 32 (drop (offset f) (layout a)) = pk_bytes (field f a)"
begin

lemma matches_iff:
  assumes "well_formed a" "key_ok k" "decode b = pk_bytes k"
  shows "memcmp_matches decode (layout a) \<lparr>mc_offset = offset f, mc_bytes = b\<rparr> \<longleftrightarrow> field f a = k"
  using assms field_at [OF assms(1), of f] by (auto simp: memcmp_matches_def key_ok_def Let_def pubkey.expand)

lemma answer_by_fields:
  assumes "\<And>k a. (k, a) \<in> set accounts \<Longrightarrow> well_formed a" "list_all (\<lambda>(f, k). key_ok k \<and> decode (text k) = pk_bytes k) ks"
  shows "node_answer decode layout accounts (map (\<lambda>(f, k). \<lparr>mc_offset = offset f, mc_bytes = text k\<rparr>) ks) =
    filter (\<lambda>(_, a). list_all (\<lambda>(f, k). field f a = k) ks) accounts"
  unfolding node_answer_def
proof (rule filter_cong [OF refl], clarify)
  fix k a assume "(k, a) \<in> set accounts"
  then have wf: "well_formed a" by (rule assms(1))
  from assms(2) show "list_all (memcmp_matches decode (layout a)) (map (\<lambda>(f, k). \<lparr>mc_offset = offset f, mc_bytes = text k\<rparr>) ks) =
      list_all (\<lambda>(f, k). field f a = k) ks"
    by (induction ks) (auto simp: matches_iff [OF wf])
qed

end

fun override_key :: "override_field \<Rightarrow> vote_override_account \<Rightarrow> pubkey" where
  "override_key FDelegator a = ov_delegator a"
| "override_key FStakeAccount a = ov_stakeAccount a"
| "override_key FValidator a = ov_validator a"
| "override_key FProposal a = ov_proposal a"

fun support_key :: "support_field \<Rightarrow> support_account \<Rightarrow> pubkey" where
  "support_key SFProposal a = su_proposal a"
| "support_key SFValidator a = su_validator a"

datatype vote_field = VFValidator | VFProposal

fun vote_key :: "vote_field \<Rightarrow> vote_account \<Rightarrow> pubkey" where
  "vote_key VFValidator a = vt_validator a"
| "vote_key VFProposal a = vt_proposal a"

fun vote_offset :: "vote_field \<Rightarrow> nat" where
  "vote_offset VFValidator = 8"
| "vote_offset VFProposal = 40"

interpretation overrides: keyed_layout "override_layout disc" override_key override_offset
  "\<lambda>a. length disc = 8 \<and> (\<forall>f. key_ok (override_key f a))" for disc
proof
  fix a f assume w: "length disc = 8 \<and> (\<forall>f. key_ok (override_key f a))"
  then show "key_ok (override_key f a)" by simp
  have "key_ok (ov_delegator a)" "key_ok (ov_stakeAccount a)" "key_ok (ov_validator a)" "key_ok (ov_proposal a)"
    using w by (metis override_key.simps)+
  then show "take 32 (drop (override_offset f) (override_layout disc a)) = pk_bytes (override_key f a)"
    using w by (cases f) (simp_all add: override_layout_def key_ok_def)
qed

interpretation votes: keyed_layout "vote_layout disc" vote_key vote_offset
  "\<lambda>a. length disc = 8 \<and> (\<forall>f. key_ok (vote_key f a))" for disc
proof
  fix a f assume w: "length disc = 8 \<and> (\<forall>f. key_ok (vote_key f a))"
  then show "key_ok (vote_key f a)" by simp
  have "key_ok (vt_validator a)" "key_ok (vt_proposal a)" using w by (metis vote_key.simps)+
  then show "take 32 (drop (vote_offset f) (vote_layout disc a)) = pk_bytes (vote_key f a)"
    using w by (cases f) (simp_all add: vote_layout_def key_ok_def)
qed

interpretation supports: keyed_layout "support_layout disc" support_key support_offset
  "\<lambda>a. length disc = 8 \<and> (\<forall>f. key_ok (support_key f a))" for disc
proof
  fix a f assume w: "length disc = 8 \<and> (\<forall>f. key_ok (support_key f a))"
  then show "key_ok (support_key f a)" by simp
  have "key_ok (su_validator a)" "key_ok (su_proposal a)" using w by (metis support_key.simps)+
  then show "take 32 (drop (support_offset f) (support_layout disc a)) = pk_bytes (support_key f a)"
    using w by (cases f) (simp_all add: support_layout_def key_ok_def)
qed

section \<open>Properties\<close>

record chain_accounts =
  ca_votes :: "(pubkey \<times> vote_account) list"
  ca_overrides :: "(pubkey \<times> vote_override_account) list"
  ca_supports :: "(pubkey \<times> support_account) list"

definition accounts_ok :: "chain_accounts \<Rightarrow> bool" where
  "accounts_ok c \<longleftrightarrow> (\<forall>(k, a)\<in>set (ca_votes c). \<forall>f. key_ok (vote_key f a)) \<and>
     (\<forall>(k, a)\<in>set (ca_overrides c). \<forall>f. key_ok (override_key f a)) \<and>
     (\<forall>(k, a)\<in>set (ca_supports c). \<forall>f. key_ok (support_key f a))"

text \<open>A node that serves the accounts of a chain, and the base58 text of public keys.\<close>

definition serves :: "read_env \<Rightarrow> (jsstr \<Rightarrow> nat list) \<Rightarrow> nat list \<Rightarrow> nat list \<Rightarrow> nat list \<Rightarrow> chain_accounts \<Rightarrow> bool" where
  "serves env decode dv do ds c \<longleftrightarrow>
     length dv = 8 \<and> length do = 8 \<and> length ds = 8 \<and> (\<forall>u. new_Connection (re_chain env) u = Inr ()) \<and>
     (\<forall>l ep fs. re_votes env l ep fs = Inr (node_answer decode (vote_layout dv) (ca_votes c) fs)) \<and>
     (\<forall>l ep fs. re_overrides env l ep fs = Inr (node_answer decode (override_layout do) (ca_overrides c) fs)) \<and>
     (\<forall>l ep fs. re_supports env l ep fs = Inr (node_answer decode (support_layout ds) (ca_supports c) fs))"

definition base58_ok :: "chain_env \<Rightarrow> (jsstr \<Rightarrow> nat list) \<Rightarrow> bool" where
  "base58_ok env decode \<longleftrightarrow> (\<forall>k. key_ok k \<longrightarrow> toBase58 env k \<noteq> [] \<and> decode (toBase58 env k) = pk_bytes k \<and>
     new_PublicKey env (toBase58 env k) = Inr k)"

definition named_keys :: "chain_env \<Rightarrow> ('f \<times> pubkey) list \<Rightarrow> ('f \<times> jsstr) list" where
  "named_keys env ks = map (\<lambda>(f, k). (f, toBase58 env k)) ks"

lemma memcmp_named:
  assumes "base58_ok env decode"
  shows "list_all (\<lambda>(f, k). key_ok k) ks \<Longrightarrow>
      override_memcmp (named_keys env ks) = map (\<lambda>(f, k). \<lparr>mc_offset = override_offset f, mc_bytes = toBase58 env k\<rparr>) ks"
    and "list_all (\<lambda>(f, k). key_ok k) ks' \<Longrightarrow>
      support_memcmp (named_keys env ks') = map (\<lambda>(f, k). \<lparr>mc_offset = support_offset f, mc_bytes = toBase58 env k\<rparr>) ks'"
proof -
  show "list_all (\<lambda>(f, k). key_ok k) ks \<Longrightarrow>
      override_memcmp (named_keys env ks) = map (\<lambda>(f, k). \<lparr>mc_offset = override_offset f, mc_bytes = toBase58 env k\<rparr>) ks"
    using assms by (induction ks) (auto simp: named_keys_def override_memcmp_def base58_ok_def)
  show "list_all (\<lambda>(f, k). key_ok k) ks' \<Longrightarrow>
      support_memcmp (named_keys env ks') = map (\<lambda>(f, k). \<lparr>mc_offset = support_offset f, mc_bytes = toBase58 env k\<rparr>) ks'"
    using assms by (induction ks') (auto simp: named_keys_def support_memcmp_def base58_ok_def)
qed

lemma base58_keys:
  assumes "base58_ok env decode" "list_all (\<lambda>(f, k). key_ok k) ks"
  shows "list_all (\<lambda>(f, k). key_ok k \<and> decode (toBase58 env k) = pk_bytes k) ks"
  using assms by (auto simp: base58_ok_def list_all_iff)

lemma dummy_program:
  assumes "serves env decode dv do ds c"
  obtains prog where "createProgramWitDummyWallet (re_chain env) e = Inr prog"
  using assms by (simp add: serves_def createProgramWitDummyWallet_def create_program_def Let_def)

lemmas read_defs = io_defs read_votes_def read_overrides_def read_supports_def

lemma overrides_read:
  assumes "serves env decode dv do ds c" "accounts_ok c" "base58_ok (re_chain env) decode" "list_all (\<lambda>(f, k). key_ok k) ks" "ks \<noteq> []"
  shows "fst (getVoteOverrideAccounts env ep (named_keys (re_chain env) ks) l) =
    Inr (map mapVoteOverrideAccountDto (filter (\<lambda>(_, a). list_all (\<lambda>(f, k). override_key f a = k) ks) (ca_overrides c)))"
proof -
  obtain prog where prog: "createProgramWitDummyWallet (re_chain env) (Some ep) = Inr prog"
    using assms(1) by (rule dummy_program)
  have sel: "node_answer decode (override_layout do) (ca_overrides c)
        (map (\<lambda>(f, k). \<lparr>mc_offset = override_offset f, mc_bytes = toBase58 (re_chain env) k\<rparr>) ks) =
      filter (\<lambda>(_, a). list_all (\<lambda>(f, k). override_key f a = k) ks) (ca_overrides c)"
    by (rule overrides.answer_by_fields) (use assms base58_keys [OF assms(3,4)] in \<open>auto simp: serves_def accounts_ok_def\<close>)
  show ?thesis using assms(1,5) prog sel
    by (simp add: getVoteOverrideAccounts_def memcmp_named(1) [OF assms(3,4)] serves_def read_defs)
      (simp add: named_keys_def)
qed

lemma supports_read:
  assumes "serves env decode dv do ds c" "accounts_ok c" "base58_ok (re_chain env) decode" "list_all (\<lambda>(f, k). key_ok k) ks" "ks \<noteq> []"
  shows "fst (getSupportAccounts env ep (named_keys (re_chain env) ks) l) =
    Inr (map mapSupportAccountDto (filter (\<lambda>(_, a). list_all (\<lambda>(f, k). support_key f a = k) ks) (ca_supports c)))"
proof -
  obtain prog where prog: "createProgramWitDummyWallet (re_chain env) (Some ep) = Inr prog"
    using assms(1) by (rule dummy_program)
  have sel: "node_answer decode (support_layout ds) (ca_supports c)
        (map (\<lambda>(f, k). \<lparr>mc_offset = support_offset f, mc_bytes = toBase58 (re_chain env) k\<rparr>) ks) =
      filter (\<lambda>(_, a). list_all (\<lambda>(f, k). support_key f a = k) ks) (ca_supports c)"
    by (rule supports.answer_by_fields) (use assms base58_keys [OF assms(3,4)] in \<open>auto simp: serves_def accounts_ok_def\<close>)
  show ?thesis using assms(1,5) prog sel
    by (simp add: getSupportAccounts_def memcmp_named(2) [OF assms(3,4)] serves_def read_defs)
      (simp add: named_keys_def)
qed

lemma votes_answer:
  assumes "serves env decode dv do ds c" "accounts_ok c" "base58_ok (re_chain env) decode" "list_all (\<lambda>(f, k). key_ok k) ks"
  shows "re_votes env l ep (map (\<lambda>(f, k). \<lparr>mc_offset = vote_offset f, mc_bytes = toBase58 (re_chain env) k\<rparr>) ks) =
    Inr (filter (\<lambda>(_, a). list_all (\<lambda>(f, k). vote_key f a = k) ks) (ca_votes c))"
proof -
  have "node_answer decode (vote_layout dv) (ca_votes c)
        (map (\<lambda>(f, k). \<lparr>mc_offset = vote_offset f, mc_bytes = toBase58 (re_chain env) k\<rparr>) ks) =
      filter (\<lambda>(_, a). list_all (\<lambda>(f, k). vote_key f a = k) ks) (ca_votes c)"
    by (rule votes.answer_by_fields) (use assms base58_keys [OF assms(3,4)] in \<open>auto simp: serves_def accounts_ok_def\<close>)
  then show ?thesis using assms(1) by (simp add: serves_def)
qed

lemma validator_vote_read:
  assumes "serves env decode dv do ds c" "accounts_ok c" "base58_ok (re_chain env) decode" "key_ok p" "key_ok v"
  shows "fst (getValidatorProposalVoteAccount env ep (Some (toBase58 (re_chain env) p)) (Some (toBase58 (re_chain env) v)) l) =
    Inr (map_option snd (List.find (\<lambda>(_, a). vt_validator a = v \<and> vt_proposal a = p) (ca_votes c)))"
proof -
  obtain prog where prog: "createProgramWitDummyWallet (re_chain env) (Some ep) = Inr prog"
    using assms(1) by (rule dummy_program)
  have pk: "new_PublicKey (re_chain env) (toBase58 (re_chain env) k) = Inr k" if "key_ok k" for k
    using assms(3) that by (simp add: base58_ok_def)
  have first: "(case filter P xs of [] \<Rightarrow> None | a # _ \<Rightarrow> Some (snd a)) = map_option snd (List.find P xs)"
    for P and xs :: "(pubkey \<times> vote_account) list" by (induction xs) auto
  show ?thesis using votes_answer [OF assms(1-3), of "[(VFValidator, v), (VFProposal, p)]"] assms(4,5) prog
    by (simp add: getValidatorProposalVoteAccount_def pk read_defs first)
qed

text \<open>C20. The pages read exactly the accounts they ask for.  Against a node that serves the accounts of
  a chain, and for base58 keys, the byte offsets of every filter address the field it names: the
  votes and overrides of a proposal, the vote of a validator for a proposal, the overrides and the
  supports with the given fields are those the chain holds, in its order; a read without a filter is
  refused.\<close>

theorem account_reads_exact:
  assumes "serves env decode dv do ds c" "accounts_ok c" "base58_ok (re_chain env) decode" "key_ok p" "key_ok v"
    and "list_all (\<lambda>(f, k). key_ok k) ks" "ks \<noteq> []" "list_all (\<lambda>(f, k). key_ok k) ks'" "ks' \<noteq> []"
  shows "fst (getProposalVotes env p ep l) =
      Inr (map (\<lambda>x. (mapVoteAccountDto x, fst x)) (filter (\<lambda>(_, a). vt_proposal a = p) (ca_votes c))) \<and>
    (\<forall>rs. fst (getProposalVoteOverrides env p ep l) = Inr rs \<longrightarrow>
      map po_data rs = map mapVoteOverrideAccountDto (filter (\<lambda>(_, a). ov_proposal a = p) (ca_overrides c))) \<and>
    fst (getValidatorProposalVoteAccount env ep (Some (toBase58 (re_chain env) p)) (Some (toBase58 (re_chain env) v)) l) =
      Inr (map_option snd (List.find (\<lambda>(_, a). vt_validator a = v \<and> vt_proposal a = p) (ca_votes c))) \<and>
    fst (getVoteOverrideAccounts env ep (named_keys (re_chain env) ks) l) =
      Inr (map mapVoteOverrideAccountDto (filter (\<lambda>(_, a). list_all (\<lambda>(f, k). override_key f a = k) ks) (ca_overrides c))) \<and>
    fst (getSupportAccounts env ep (named_keys (re_chain env) ks') l) =
      Inr (map mapSupportAccountDto (filter (\<lambda>(_, a). list_all (\<lambda>(f, k). support_key f a = k) ks') (ca_supports c))) \<and>
    (\<exists>e. getVoteOverrideAccounts env ep [] l = (Inl e, l)) \<and> (\<exists>e. getSupportAccounts env ep [] l = (Inl e, l))"
proof (intro conjI allI impI)
  obtain prog where prog: "createProgramWitDummyWallet (re_chain env) (Some ep) = Inr prog"
    using assms(1) by (rule dummy_program)
  show "fst (getProposalVotes env p ep l) =
      Inr (map (\<lambda>x. (mapVoteAccountDto x, fst x)) (filter (\<lambda>(_, a). vt_proposal a = p) (ca_votes c)))"
    using votes_answer [OF assms(1-3), of "[(VFProposal, p)]"] assms(4) prog
    by (simp add: getProposalVotes_def read_defs)
  show "fst (getValidatorProposalVoteAccount env ep (Some (toBase58 (re_chain env) p)) (Some (toBase58 (re_chain env) v)) l) =
      Inr (map_option snd (List.find (\<lambda>(_, a). vt_validator a = v \<and> vt_proposal a = p) (ca_votes c)))"
    by (rule validator_vote_read [OF assms(1-5)])
  show "fst (getVoteOverrideAccounts env ep (named_keys (re_chain env) ks) l) =
      Inr (map mapVoteOverrideAccountDto (filter (\<lambda>(_, a). list_all (\<lambda>(f, k). override_key f a = k) ks) (ca_overrides c)))"
    by (rule overrides_read [OF assms(1-3,6,7)])
  show "fst (getSupportAccounts env ep (named_keys (re_chain env) ks') l) =
      Inr (map mapSupportAccountDto (filter (\<lambda>(_, a). list_all (\<lambda>(f, k). support_key f a = k) ks') (ca_supports c)))"
    by (rule supports_read [OF assms(1-3,8,9)])
  have "node_answer decode (override_layout do) (ca_overrides c)
        (map (\<lambda>(f, k). \<lparr>mc_offset = override_offset f, mc_bytes = toBase58 (re_chain env) k\<rparr>) [(FProposal, p)]) =
      filter (\<lambda>(_, a). list_all (\<lambda>(f, k). override_key f a = k) [(FProposal, p)]) (ca_overrides c)"
    by (rule overrides.answer_by_fields) (use assms base58_keys [OF assms(3), of "[(FProposal, p)]"] in \<open>auto simp: serves_def accounts_ok_def\<close>)
  then have sel: "re_overrides env l (prog_endpoint prog) [\<lparr>mc_offset = 104, mc_bytes = toBase58 (re_chain env) p\<rparr>] =
      Inr (filter (\<lambda>(_, a). ov_proposal a = p) (ca_overrides c))"
    using assms(1) by (simp add: serves_def)
  show "map po_data rs = map mapVoteOverrideAccountDto (filter (\<lambda>(_, a). ov_proposal a = p) (ca_overrides c))"
    if "fst (getProposalVoteOverrides env p ep l) = Inr rs" for rs
  proof -
    have "map po_data ys = map mapVoteOverrideAccountDto xs"
      if "res_map (\<lambda>override. let mapped = mapVoteOverrideAccountDto override in
          res_bind (bn_toNumber (re_chain env) (vo_stakeAmount mapped)) (\<lambda>stake.
            Inr \<lparr>po_data = mapped, po_voter = ov_stakeAccount (snd override), po_activeStake = or_zero stake,
                 po_identity = vo_validator mapped, po_voteTimestamp = vo_voteOverrideTimestamp mapped\<rparr>)) xs = Inr ys" for xs ys
      using that by (induction xs arbitrary: ys) (auto simp: Let_def)
    then show ?thesis using that prog sel by (simp add: getProposalVoteOverrides_def read_defs)
  qed
qed (simp_all add: getVoteOverrideAccounts_def getSupportAccounts_def io_defs)


text \<open>A chain with one account of each kind, and a node that serves it; keys are their own text.\<close>

definition key32 :: "nat \<Rightarrow> pubkey" where
  "key32 n = PublicKey (replicate 32 n)"

definition sample_chain_accounts :: chain_accounts where
  "sample_chain_accounts =
     \<lparr>ca_votes = [(key32 20, \<lparr>vt_validator = key32 2, vt_proposal = key32 1, vt_forVotesBp = 10000, vt_againstVotesBp = 0,
        vt_abstainVotesBp = 0, vt_forVotesLamports = 5, vt_againstVotesLamports = 0, vt_abstainVotesLamports = 0,
        vt_stake = 5, vt_overrideLamports = 0, vt_voteTimestamp = 7, vt_bump = inum 255\<rparr>)],
      ca_overrides = [(key32 21, \<lparr>ov_delegator = key32 3, ov_stakeAccount = key32 4, ov_validator = key32 2, ov_proposal = key32 1,
        ov_voteAccountValidator = key32 5, ov_forVotesBp = 10000, ov_againstVotesBp = 0, ov_abstainVotesBp = 0,
        ov_forVotesLamports = 5, ov_againstVotesLamports = 0, ov_abstainVotesLamports = 0, ov_stakeAmount = 5,
        ov_voteOverrideTimestamp = 7, ov_bump = inum 255\<rparr>)],
      ca_supports = [(key32 22, \<lparr>su_proposal = key32 1, su_validator = key32 2, su_bump = inum 255\<rparr>)]\<rparr>"

definition zeros8 :: "nat list" where "zeros8 = replicate 8 0"

definition sample_node :: read_env where
  "sample_node = \<lparr>re_chain = http_env answer_404,
     re_votes = \<lambda>l ep fs. Inr (node_answer (\<lambda>s. s) (vote_layout zeros8) (ca_votes sample_chain_accounts) fs),
     re_overrides = \<lambda>l ep fs. Inr (node_answer (\<lambda>s. s) (override_layout zeros8) (ca_overrides sample_chain_accounts) fs),
     re_supports = \<lambda>l ep fs. Inr (node_answer (\<lambda>s. s) (support_layout zeros8) (ca_supports sample_chain_accounts) fs)\<rparr>"

lemma key32_inject [simp]: "key32 m = key32 n \<longleftrightarrow> m = n"
  by (simp add: key32_def)

lemma key_ok_key32 [simp]: "key_ok (key32 n)"
  by (simp add: key_ok_def key32_def)

lemma sample_node_serves:
  "serves sample_node (\<lambda>s. s) zeros8 zeros8 zeros8 sample_chain_accounts" "accounts_ok sample_chain_accounts"
  "base58_ok (re_chain sample_node) (\<lambda>s. s)"
proof -
  show "serves sample_node (\<lambda>s. s) zeros8 zeros8 zeros8 sample_chain_accounts"
    by (simp add: serves_def sample_node_def zeros8_def http_env_def)
  have "key_ok (vote_key f a)" if "(k, a) \<in> set (ca_votes sample_chain_accounts)" for f k a
    using that by (cases f) (auto simp: sample_chain_accounts_def)
  moreover have "key_ok (override_key f a)" if "(k, a) \<in> set (ca_overrides sample_chain_accounts)" for f k a
    using that by (cases f) (auto simp: sample_chain_accounts_def)
  moreover have "key_ok (support_key f a)" if "(k, a) \<in> set (ca_supports sample_chain_accounts)" for f k a
    using that by (cases f) (auto simp: sample_chain_accounts_def)
  ultimately show "accounts_ok sample_chain_accounts" unfolding accounts_ok_def by blast
  show "base58_ok (re_chain sample_node) (\<lambda>s. s)"
    by (auto simp: base58_ok_def sample_node_def http_env_def key_ok_def)
qed

theorem account_reads_exact_witness:
  "fst (getVoteOverrideAccounts sample_node (js ''rpc'') (named_keys (re_chain sample_node) [(FValidator, key32 2), (FStakeAccount, key32 4)]) []) =
     Inr (map mapVoteOverrideAccountDto (ca_overrides sample_chain_accounts)) \<and>
   fst (getSupportAccounts sample_node (js ''rpc'') (named_keys (re_chain sample_node) [(SFProposal, key32 3)]) []) = Inr []"
  using account_reads_exact [OF sample_node_serves, of "key32 1" "key32 2" "[(FValidator, key32 2), (FStakeAccount, key32 4)]"
      "[(SFProposal, key32 3)]" "js ''rpc''" "[]"]
  by (simp add: sample_chain_accounts_def)


end
