(* ===== verification/Validators.thy ===== *)
theory Validators
  imports Account_Reads Dates "HOL-Library.Word"
begin

text \<open>
  The validator list and the lists of voters and supporters of a proposal
  (\<open>frontend/src/hooks/useGetValidators.ts\<close>, \<open>useProposalVotes.ts\<close>, \<open>useProposalSupporters.ts\<close>,
  \<open>useValidatorsTotalStakedLamports.ts\<close>, \<open>useValidatorsVoterSplits.ts\<close>).  The chain decides which
  validators exist and what stake they have; a metadata service only adds names and pictures and
  may fail.  An object used as a dictionary is a map: its keys here are base58 addresses, never the
  name of an inherited property.
\<close>

section \<open>Validators\<close>

record validator =
  val_name :: jsstr
  val_identity :: "jsstr option"
  val_vote_identity :: jsstr
  val_activated_stake :: number
  val_image :: "jsstr option"
  val_version :: "jsstr option"
  val_commission :: number
  val_asn :: "jsstr option"
  val_description :: "jsstr option"
  val_stake_weight :: "number option"
  val_credits :: "number option"
  val_epoch_credits :: number
  val_last_vote :: number

text \<open>A vote account of the node, with the history of its credits.\<close>

record rpc_vote_account = vote_account_info +
  rva_epochCredits :: "number list list option"

datatype validator_event = StakeWiz | RpcVoteAccounts jsstr

record validator_env =
  ve_chain :: chain_env
  ve_stakeWiz :: "validator_event list \<Rightarrow> js_error + validator list"
  ve_voteAccounts :: "validator_event list \<Rightarrow> jsstr \<Rightarrow> js_error + rpc_vote_account list \<times> rpc_vote_account list"

definition first_credits :: "number list list option \<Rightarrow> number" where
  "first_credits cs = (case cs of Some ((x # _) # _) \<Rightarrow> or_zero x | _ \<Rightarrow> Num 0)"

definition known_validator :: "validator \<Rightarrow> rpc_vote_account \<Rightarrow> validator" where
  "known_validator metadata vote =
     metadata\<lparr>val_activated_stake := va_activatedStake vote,
       val_identity := (case val_identity metadata of Some i \<Rightarrow> Some i | None \<Rightarrow> Some (va_nodePubkey vote))\<rparr>"

definition unknown_validator :: "nat \<Rightarrow> rpc_vote_account \<Rightarrow> validator" where
  "unknown_validator n vote =
     \<lparr>val_name = js ''Unknown validator #'' @ dec n, val_identity = Some (va_nodePubkey vote),
      val_vote_identity = va_votePubkey vote, val_activated_stake = va_activatedStake vote, val_image = None,
      val_version = Some (js ''-''), val_commission = va_commission vote, val_asn = Some (js ''-''),
      val_description = Some [], val_stake_weight = None, val_credits = None,
      val_epoch_credits = first_credits (rva_epochCredits vote), val_last_vote = va_lastVote vote\<rparr>"

text \<open>The callback of the map, with the counter of unknown validators.\<close>

fun merge_votes :: "(jsstr \<Rightarrow> validator option) \<Rightarrow> nat \<Rightarrow> rpc_vote_account list \<Rightarrow> validator list" where
  "merge_votes metadata unknownCount [] = []"
| "merge_votes metadata unknownCount (vote # votes) =
     (case metadata (va_votePubkey vote) of
        Some m \<Rightarrow> known_validator m vote # merge_votes metadata unknownCount votes
      | None \<Rightarrow> unknown_validator (unknownCount + 1) vote # merge_votes metadata (unknownCount + 1) votes)"

definition getValidators :: "validator_env \<Rightarrow> jsstr \<Rightarrow> (validator_event, validator list) io" where
  "getValidators env endpoint =
     io_bind (io_lift (new_Connection (ve_chain env) endpoint)) (\<lambda>_.
     io_bind (settled (io_call StakeWiz (ve_stakeWiz env))) (\<lambda>stakeWiz.
     io_bind (settled (io_call (RpcVoteAccounts endpoint) (\<lambda>l. ve_voteAccounts env l endpoint))) (\<lambda>voteAccounts.
       case voteAccounts of
         Inl reason \<Rightarrow> io_throw (JsError (js ''Failed to fetch vote accounts from '' @ endpoint @ js '': '' @ err_string reason))
       | Inr (current, delinquent) \<Rightarrow>
           let metadata = (case stakeWiz of
                 Inr vs \<Rightarrow> new_Map (map (\<lambda>v. (val_vote_identity v, v)) vs) | Inl e \<Rightarrow> Map.empty)
           in io_return (merge_votes metadata 0 (current @ delinquent)))))"

definition useValidatorsTotalStakedLamports :: "validator list option \<Rightarrow> number option" where
  "useValidatorsTotalStakedLamports validators =
     map_option (foldl (\<lambda>sum v. sum + or_zero (val_activated_stake v)) (Num 0)) validators"

section \<open>Accent colours\<close>

definition accentColors :: "jsstr list" where
  "accentColors = map js
     [''linear-gradient(135deg, #a855f7 0%, #7c3aed 100%)'',
      ''linear-gradient(135deg, #06b6d4 0%, #0ea5e9 100%)'',
      ''linear-gradient(135deg, #f97316 0%, #ea580c 100%)'',
      ''linear-gradient(135deg, #fb7185 0%, #f43f5e 100%)'',
      ''linear-gradient(135deg, #22d3ee 0%, #0891b2 100%)'',
      ''linear-gradient(135deg, #84cc16 0%, #65a30d 100%)'',
      ''linear-gradient(135deg, #fbbf24 0%, #f59e0b 100%)'',
      ''linear-gradient(135deg, #8b5cf6 0%, #6d28d9 100%)'',
      ''linear-gradient(135deg, #ec4899 0%, #db2777 100%)'',
      ''linear-gradient(135deg, #10b981 0%, #059669 100%)'',
      ''linear-gradient(135deg, #3b82f6 0%, #2563eb 100%)'',
      ''linear-gradient(135deg, #ef4444 0%, #dc2626 100%)'',
      ''linear-gradient(135deg, #14b8a6 0%, #0d9488 100%)'',
      ''linear-gradient(135deg, #6366f1 0%, #4f46e5 100%)'']"

text \<open>The bitwise operators of the language work on 32-bit integers; the sums in between are numbers
  far below the safe bound.\<close>

definition to_int32 :: "int \<Rightarrow> int" where
  "to_int32 n = sint (word_of_int n :: 32 word)"

definition shift_left :: "int \<Rightarrow> nat \<Rightarrow> int" where
  "shift_left n k = sint (push_bit k (word_of_int n :: 32 word))"

definition hash_step :: "int \<Rightarrow> nat \<Rightarrow> int" where
  "hash_step hash char = (let h = shift_left hash 5 - hash + int char in to_int32 h)"

definition getColorFromString :: "jsstr \<Rightarrow> jsstr option" where
  "getColorFromString str =
     (let index = nat (\<bar>foldl hash_step 0 str\<bar> mod int (length accentColors))
      in if index < length accentColors then Some (accentColors ! index) else None)"

section \<open>Voters\<close>

datatype wallet_type = ValidatorWallet | StakerWallet

record top_voter =
  tv_id :: jsstr
  tv_validatorName :: jsstr
  tv_validatorIdentity :: jsstr
  tv_validatorImage :: "jsstr option"
  tv_stakeAccount :: "jsstr option"
  tv_stakedLamports :: number
  tv_votePercentage :: number
  tv_voteTimestamp :: jsstr
  tv_forVotesBp :: int
  tv_againstVotesBp :: int
  tv_abstainVotesBp :: int
  tv_accentColor :: "jsstr option"
  tv_walletType :: wallet_type

text \<open>The dictionary of validators, by vote account and by identity.\<close>

definition validatorMap :: "validator list \<Rightarrow> jsstr \<Rightarrow> validator option" where
  "validatorMap validators =
     foldl (\<lambda>m v. let m' = m(val_vote_identity v \<mapsto> v) in
              case val_identity v of Some i \<Rightarrow> if i \<noteq> [] then m'(i \<mapsto> v) else m' | None \<Rightarrow> m')
       Map.empty validators"

definition validator_name :: "validator option \<Rightarrow> jsstr" where
  "validator_name v = (case v of Some x \<Rightarrow> if val_name x \<noteq> [] then val_name x else js ''Unknown Validator''
                       | None \<Rightarrow> js ''Unknown Validator'')"

definition vote_percentage :: "number \<Rightarrow> number \<Rightarrow> number" where
  "vote_percentage totalStaked staked =
     (if Num 0 < totalStaked \<and> Num 0 < staked then (staked / totalStaked) * Num 100 else Num 0)"

text \<open>\<open>new Date(seconds * 1000).toISOString()\<close>: the platform's text of a valid date, an error otherwise.\<close>

definition iso_of_seconds :: "chain_env \<Rightarrow> (number \<Rightarrow> jsstr) \<Rightarrow> int \<Rightarrow> js_error + jsstr" where
  "iso_of_seconds env iso_text secs =
     res_bind (bn_toNumber env secs) (\<lambda>s.
       let d = new_Date (s * Num 1000) in
       if d = NaN then Inl (LibError (js ''RangeError'') (js ''Invalid time value'')) else Inr (iso_text d))"

definition top_voter_of ::
  "chain_env \<Rightarrow> (number \<Rightarrow> jsstr) \<Rightarrow> validator list \<Rightarrow> wallet_type \<Rightarrow> jsstr option \<Rightarrow> pubkey \<Rightarrow> number \<Rightarrow> int \<Rightarrow>
   int \<Rightarrow> int \<Rightarrow> int \<Rightarrow> js_error + top_voter" where
  "top_voter_of env iso_text validators kind stakeAccount identityKey activeStake timestamp forBp againstBp abstainBp =
     (let identity = toBase58 env identityKey;
          v = validatorMap validators identity;
          total = foldl (\<lambda>sum v. sum + or_zero (val_activated_stake v)) (Num 0) validators;
          staked = or_zero activeStake
      in res_bind (iso_of_seconds env iso_text timestamp) (\<lambda>ts.
        Inr \<lparr>tv_id = identity, tv_validatorName = validator_name v, tv_validatorIdentity = identity,
             tv_validatorImage = Option.bind v val_image, tv_stakeAccount = stakeAccount, tv_stakedLamports = staked,
             tv_votePercentage = vote_percentage total staked, tv_voteTimestamp = ts,
             tv_forVotesBp = forBp, tv_againstVotesBp = againstBp, tv_abstainVotesBp = abstainBp,
             tv_accentColor = getColorFromString (validator_name v), tv_walletType = kind\<rparr>))"

text \<open>The query function.  The two reads are started together and awaited; when both fail, the failure
  of the votes is the one reported here.\<close>

definition useProposalVotes ::
  "read_env \<Rightarrow> (number \<Rightarrow> jsstr) \<Rightarrow> jsstr \<Rightarrow> validator list option \<Rightarrow> pubkey option \<Rightarrow> (read_event, top_voter list) io" where
  "useProposalVotes env iso_text endpoint validators proposal =
     (case proposal of None \<Rightarrow> io_throw (JsError (js ''Missing proposal public key''))
      | Some p \<Rightarrow>
     (let vs = (case validators of Some vs \<Rightarrow> vs | None \<Rightarrow> []) in
      io_bind (settled (getProposalVotes env p endpoint)) (\<lambda>votesResult.
      io_bind (settled (getProposalVoteOverrides env p endpoint)) (\<lambda>overridesResult.
      io_bind (io_lift votesResult) (\<lambda>votes.
      io_bind (io_lift overridesResult) (\<lambda>overrides.
      io_bind (io_lift (res_map (\<lambda>(v, _).
                 top_voter_of (re_chain env) iso_text vs ValidatorWallet None (the (ova_identity v)) (ova_activeStake v)
                   (ova_voteTimestamp v) (ova_forVotesBp v) (ova_againstVotesBp v) (ova_abstainVotesBp v)) votes)) (\<lambda>validatorVoters.
      io_bind (io_lift (res_map (\<lambda>o'.
                 top_voter_of (re_chain env) iso_text vs StakerWallet (Some (toBase58 (re_chain env) (vo_stakeAccount (po_data o'))))
                   (po_identity o') (po_activeStake o') (po_voteTimestamp o') (vo_forVotesBp (po_data o'))
                   (vo_againstVotesBp (po_data o')) (vo_abstainVotesBp (po_data o'))) overrides)) (\<lambda>stakerVoters.
        io_return (validatorVoters @ stakerVoters)))))))))"

record top_supporter =
  ts_id :: jsstr
  ts_validatorName :: jsstr
  ts_validatorIdentity :: jsstr
  ts_validatorImage :: "jsstr option"
  ts_stakedLamports :: "number option"
  ts_stakePercentage :: "number option"
  ts_accentColor :: "jsstr option"

definition useProposalSupporters ::
  "chain_env \<Rightarrow> validator list option \<Rightarrow> support_account_data list option \<Rightarrow> top_supporter list" where
  "useProposalSupporters env validators supports =
     (case supports of None \<Rightarrow> []
      | Some ss \<Rightarrow>
          let vmap = (case validators of Some vs \<Rightarrow> validatorMap vs | None \<Rightarrow> Map.empty);
              total = useValidatorsTotalStakedLamports validators
          in map (\<lambda>s.
               let identity = toBase58 env (sd_validator s); v = vmap identity;
                   staked = map_option val_activated_stake v
               in \<lparr>ts_id = toBase58 env (sd_publicKey s), ts_validatorName = validator_name v,
                   ts_validatorIdentity = identity, ts_validatorImage = Option.bind v val_image,
                   ts_stakedLamports = staked,
                   ts_stakePercentage = (case (total, staked) of
                      (Some t, Some x) \<Rightarrow> if truthy t then Some ((x / t) * Num 100) else None | _ \<Rightarrow> None),
                   ts_accentColor = getColorFromString (validator_name v)\<rparr>) ss)"

section \<open>Voter splits\<close>

record vote_sums =
  vs_for :: number
  vs_against :: number
  vs_abstain :: number
  vs_count :: number

record split_state =
  st_voteSums :: "jsstr \<Rightarrow> vote_sums option"
  st_latest :: "jsstr \<Rightarrow> number option"
  st_votesCount :: "jsstr \<Rightarrow> number option"

definition no_splits :: split_state where
  "no_splits = \<lparr>st_voteSums = Map.empty, st_latest = Map.empty, st_votesCount = Map.empty\<rparr>"

text \<open>One vote, counted for the first validator whose vote identity is the vote's validator.\<close>

definition latest_timestamp :: "number option \<Rightarrow> number \<Rightarrow> number" where
  "latest_timestamp prev t = (case prev of Some p \<Rightarrow> if \<not> truthy p \<or> p < t then t else p | None \<Rightarrow> t)"

definition add_vote :: "chain_env \<Rightarrow> validator list \<Rightarrow> split_state \<Rightarrow> vote_account \<Rightarrow> js_error + split_state" where
  "add_vote env validators st vote =
     (case List.find (\<lambda>v. val_vote_identity v = toBase58 env (vt_validator vote)) validators of
        None \<Rightarrow> Inr st
      | Some v \<Rightarrow>
          let key = val_vote_identity v;
              acc = (case st_voteSums st key of Some x \<Rightarrow> x | None \<Rightarrow> \<lparr>vs_for = Num 0, vs_against = Num 0, vs_abstain = Num 0, vs_count = Num 0\<rparr>);
              count = (case st_votesCount st key of Some c \<Rightarrow> c | None \<Rightarrow> Num 0)
          in res_bind (bn_toNumber env (vt_voteTimestamp vote)) (\<lambda>ts.
             res_bind (bn_toNumber env (vt_forVotesBp vote)) (\<lambda>f.
             res_bind (bn_toNumber env (vt_againstVotesBp vote)) (\<lambda>a.
             res_bind (bn_toNumber env (vt_abstainVotesBp vote)) (\<lambda>ab.
               Inr \<lparr>st_voteSums = (st_voteSums st)(key \<mapsto> \<lparr>vs_for = vs_for acc + f, vs_against = vs_against acc + a,
                                      vs_abstain = vs_abstain acc + ab, vs_count = vs_count acc + Num 1\<rparr>),
                    st_latest = (st_latest st)(key \<mapsto> latest_timestamp (st_latest st key) (ts * Num 1000)),
                    st_votesCount = (st_votesCount st)(key \<mapsto> count + Num 1)\<rparr>)))))"

fun add_votes :: "chain_env \<Rightarrow> validator list \<Rightarrow> split_state \<Rightarrow> vote_account list \<Rightarrow> js_error + split_state" where
  "add_votes env validators st [] = Inr st"
| "add_votes env validators st (v # vs) = res_bind (add_vote env validators st v) (\<lambda>st'. add_votes env validators st' vs)"

record vote_split =
  sp_yes :: number
  sp_no :: number
  sp_abstain :: number
  sp_undecided :: number

definition split_of :: "vote_sums \<Rightarrow> vote_split" where
  "split_of s =
     (let avgFor = vs_for s / vs_count s; avgAgainst = vs_against s / vs_count s; avgAbstain = vs_abstain s / vs_count s;
          undecided = Num 10000 - (avgFor + avgAgainst + avgAbstain)
      in \<lparr>sp_yes = avgFor / Num 100, sp_no = avgAgainst / Num 100, sp_abstain = avgAbstain / Num 100,
          sp_undecided = undecided / Num 100\<rparr>)"

definition useValidatorsVoterSplits ::
  "chain_env \<Rightarrow> validator list option \<Rightarrow> vote_account list option \<Rightarrow>
   js_error + ((jsstr \<Rightarrow> vote_split option) \<times> (jsstr \<Rightarrow> number option) \<times> (jsstr \<Rightarrow> number option)) option" where
  "useValidatorsVoterSplits env validators votes =
     (case (validators, votes) of
        (Some vs, Some ws) \<Rightarrow>
          res_bind (add_votes env vs no_splits ws) (\<lambda>st.
            Inr (Some (map_option split_of \<circ> st_voteSums st, st_latest st, st_votesCount st)))
      | _ \<Rightarrow> Inr None)"

section \<open>Properties\<close>

subsection \<open>The validator list\<close>

lemma merge_votes_stake: "map val_activated_stake (merge_votes md n votes) = map va_activatedStake votes"
  by (induction votes arbitrary: n) (auto simp: known_validator_def unknown_validator_def split: option.splits)

lemma merge_votes_identity:
  assumes "\<And>k m. md k = Some m \<Longrightarrow> val_vote_identity m = k"
  shows "map val_vote_identity (merge_votes md n votes) = map va_votePubkey votes"
  by (induction votes arbitrary: n) (auto simp: known_validator_def unknown_validator_def assms split: option.splits)

lemma merge_votes_total:
  "foldl (\<lambda>sum v. sum + or_zero (val_activated_stake v)) a (merge_votes md n votes) =
   foldl (\<lambda>sum v. sum + or_zero (va_activatedStake v)) a votes"
  by (induction votes arbitrary: a n) (auto simp: known_validator_def unknown_validator_def split: option.splits)

lemma merge_votes_unknown:
  "map (val_name \<circ> snd) (filter (\<lambda>(v, r). md (va_votePubkey v) = None) (zip votes (merge_votes md n votes))) =
   map (\<lambda>k. js ''Unknown validator #'' @ dec k) [Suc n..<Suc n + length (filter (\<lambda>v. md (va_votePubkey v) = None) votes)]"
proof (induction votes arbitrary: n)
  case (Cons v votes)
  then show ?case
    by (cases "md (va_votePubkey v)") (simp_all add: unknown_validator_def upt_conv_Cons del: upt_Suc)
qed simp

text \<open>The metadata a list of the service gives, none when the service failed.\<close>

definition metadata_of :: "js_error + validator list \<Rightarrow> jsstr \<Rightarrow> validator option" where
  "metadata_of r = (case r of Inr vs \<Rightarrow> new_Map (map (\<lambda>v. (val_vote_identity v, v)) vs) | Inl e \<Rightarrow> Map.empty)"

lemma metadata_key: "metadata_of r k = Some m \<Longrightarrow> val_vote_identity m = k"
  by (auto simp: metadata_of_def dest!: new_Map_SomeD split: sum.splits)

text \<open>C31. The chain decides the validator list.  When the node answers, the list is read with two
  requests and has one row per vote account in the node's order, with the address and the stake the
  node gave; the total stake is the total of the node's figures.  None of this depends on the
  metadata service, whose failure only turns names into placeholders, numbered from one without
  gaps.  When the node does not answer, the list is an error.\<close>

theorem validators_from_chain:
  assumes "new_Connection (ve_chain env) endpoint = Inr ()"
  shows "case ve_voteAccounts env (l @ [StakeWiz]) endpoint of
      Inl e \<Rightarrow> \<exists>m. fst (getValidators env endpoint l) = Inl (JsError m)
    | Inr (current, delinquent) \<Rightarrow> \<exists>rows. let votes = current @ delinquent; md = metadata_of (ve_stakeWiz env l) in
        getValidators env endpoint l = (Inr rows, l @ [StakeWiz, RpcVoteAccounts endpoint]) \<and>
        map val_vote_identity rows = map va_votePubkey votes \<and>
        map val_activated_stake rows = map va_activatedStake votes \<and>
        useValidatorsTotalStakedLamports (Some rows) =
          Some (foldl (\<lambda>sum v. sum + or_zero (va_activatedStake v)) (Num 0) votes) \<and>
        map (val_name \<circ> snd) (filter (\<lambda>(v, r). md (va_votePubkey v) = None) (zip votes rows)) =
          map (\<lambda>k. js ''Unknown validator #'' @ dec k) [1..<Suc (length (filter (\<lambda>v. md (va_votePubkey v) = None) votes))]"
proof (cases "ve_voteAccounts env (l @ [StakeWiz]) endpoint")
  case (Inl e)
  then show ?thesis using assms by (simp add: getValidators_def settled_def io_defs)
next
  case (Inr p)
  obtain current delinquent where p: "p = (current, delinquent)" by force
  let ?votes = "current @ delinquent" and ?md = "metadata_of (ve_stakeWiz env l)"
  let ?rows = "merge_votes ?md 0 ?votes"
  have "getValidators env endpoint l = (Inr ?rows, l @ [StakeWiz, RpcVoteAccounts endpoint])"
    using assms Inr by (simp add: getValidators_def settled_def io_defs p metadata_of_def Let_def)
  moreover have "map val_vote_identity ?rows = map va_votePubkey ?votes" "map val_activated_stake ?rows = map va_activatedStake ?votes"
    by (rule merge_votes_identity, erule metadata_key) (rule merge_votes_stake)
  moreover have "useValidatorsTotalStakedLamports (Some ?rows) =
      Some (foldl (\<lambda>sum v. sum + or_zero (va_activatedStake v)) (Num 0) ?votes)"
    unfolding useValidatorsTotalStakedLamports_def option.map merge_votes_total ..
  ultimately show ?thesis using merge_votes_unknown [of ?md ?votes 0] unfolding Inr p sum.case prod.case Let_def
    by (intro exI [of _ ?rows]) simp
qed

text \<open>A node with two vote accounts, of which the service knows the second.\<close>

definition sample_rpc_account :: "string \<Rightarrow> int \<Rightarrow> rpc_vote_account" where
  "sample_rpc_account name stake = \<lparr>va_nodePubkey = js name @ js ''-node'', va_votePubkey = js name,
     va_activatedStake = inum stake, va_commission = inum 5, va_lastVote = inum 9, rva_epochCredits = None\<rparr>"

definition sample_validators :: validator_env where
  "sample_validators = \<lparr>ve_chain = http_env answer_404, ve_stakeWiz = \<lambda>l. Inl (JsError []),
     ve_voteAccounts = \<lambda>l ep. Inr ([sample_rpc_account ''A'' 5, sample_rpc_account ''B'' 7], [])\<rparr>"

theorem validators_from_chain_witness:
  "\<exists>rows. fst (getValidators sample_validators (js ''rpc'') []) = Inr rows \<and>
     map val_activated_stake rows = [inum 5, inum 7] \<and> map val_vote_identity rows = [js ''A'', js ''B'']"
proof -
  have "new_Connection (ve_chain sample_validators) (js ''rpc'') = Inr ()" by (simp add: sample_validators_def http_env_def)
  from validators_from_chain [OF this, of "[]"] show ?thesis
    by (auto simp: sample_validators_def sample_rpc_account_def Let_def)
qed

subsection \<open>Accent colours\<close>

text \<open>The polynomial hash of a string over 32-bit words.\<close>

definition poly_hash :: "jsstr \<Rightarrow> 32 word" where
  "poly_hash s = foldl (\<lambda>w c. 31 * w + of_nat c) 0 s"

lemma hash_step_word: "hash_step (sint w) c = sint (31 * w + of_nat c)" for w :: "32 word"
proof -
  have "push_bit 5 w = 32 * w" for w :: "32 word" by (simp add: push_bit_eq_mult)
  then have "word_of_int (sint (push_bit 5 w) - sint w + int c) = 31 * w + of_nat c" for w :: "32 word"
    by (simp add: of_int_sint)
  then show ?thesis by (simp add: hash_step_def shift_left_def to_int32_def of_int_sint Let_def)
qed

lemma foldl_hash: "foldl hash_step (sint w) s = sint (foldl (\<lambda>w c. 31 * w + of_nat c) w s)" for w :: "32 word"
  by (induction s arbitrary: w) (simp_all add: hash_step_word)

text \<open>Every name has an accent colour: the shifts and sums of the loop, at 32 bits, compute the
  polynomial hash with base 31, and its magnitude (the most negative value included) always selects
  one of the fourteen colours.\<close>

theorem accent_color_defined:
  "getColorFromString s = Some (accentColors ! nat (\<bar>sint (poly_hash s)\<bar> mod 14))"
proof -
  have "foldl hash_step 0 s = sint (poly_hash s)" using foldl_hash [of 0 s] by (simp add: poly_hash_def)
  moreover have "length accentColors = 14" by (simp add: accentColors_def)
  moreover have "nat (x mod 14) < 14" for x by simp
  ultimately show ?thesis by (simp add: getColorFromString_def Let_def)
qed

subsection \<open>Voter splits\<close>

text \<open>A vote as the program records it: basis points of at most 10000 and a time after the epoch.\<close>

definition vote_in_range :: "vote_account \<Rightarrow> bool" where
  "vote_in_range w \<longleftrightarrow> vt_forVotesBp w \<in> {0..10000} \<and> vt_againstVotesBp w \<in> {0..10000} \<and>
     vt_abstainVotesBp w \<in> {0..10000} \<and> 0 < vt_voteTimestamp w \<and> 1000 * vt_voteTimestamp w \<le> 2 ^ 53"

text \<open>The figures of one validator: those of the votes cast for it.\<close>

definition votes_of :: "chain_env \<Rightarrow> jsstr \<Rightarrow> vote_account list \<Rightarrow> vote_account list" where
  "votes_of env k ws = filter (\<lambda>w. toBase58 env (vt_validator w) = k) ws"

definition bp_total :: "(vote_account \<Rightarrow> int) \<Rightarrow> vote_account list \<Rightarrow> int" where
  "bp_total f ms = sum_list (map f ms)"

definition split_spec :: "chain_env \<Rightarrow> validator list \<Rightarrow> vote_account list \<Rightarrow> split_state \<Rightarrow> jsstr \<Rightarrow> bool" where
  "split_spec env validators ws st k \<longleftrightarrow>
     (let ms = votes_of env k ws in
      if ms = [] \<or> k \<notin> val_vote_identity ` set validators
      then st_voteSums st k = None \<and> st_latest st k = None \<and> st_votesCount st k = None
      else st_voteSums st k = Some \<lparr>vs_for = inum (bp_total vt_forVotesBp ms), vs_against = inum (bp_total vt_againstVotesBp ms),
             vs_abstain = inum (bp_total vt_abstainVotesBp ms), vs_count = inum (int (length ms))\<rparr> \<and>
           st_latest st k = Some (inum (1000 * Max (vt_voteTimestamp ` set ms))) \<and>
           st_votesCount st k = Some (inum (int (length ms))))"

lemma add_votes_append:
  "add_votes env vs st (xs @ ys) = res_bind (add_votes env vs st xs) (\<lambda>st'. add_votes env vs st' ys)"
  by (induction xs arbitrary: st) (simp_all add: res_bind_assoc)

lemma bp_total_bounds:
  assumes "list_all (\<lambda>w. f w \<in> {0..10000}) ms"
  shows "0 \<le> bp_total f ms \<and> bp_total f ms \<le> 10000 * int (length ms)"
  using assms by (induction ms) (auto simp: bp_total_def)

lemma latest_Max:
  assumes "0 < t" "ms \<noteq> []" "\<forall>w\<in>set ms. 0 < vt_voteTimestamp w"
  shows "latest_timestamp (Some (inum (1000 * Max (vt_voteTimestamp ` set ms)))) (inum (1000 * t)) =
    inum (1000 * Max (insert t (vt_voteTimestamp ` set ms)))"
proof -
  have m: "0 < Max (vt_voteTimestamp ` set ms)" using assms(2,3) by (subst Max_gr_iff) (auto simp: ex_in_conv)
  moreover have "Max (insert t (vt_voteTimestamp ` set ms)) = max t (Max (vt_voteTimestamp ` set ms))"
    using assms(2) by simp
  ultimately show ?thesis by (simp add: latest_timestamp_def max_def del: Max_insert)
qed

text \<open>The sums of one more vote are exact.\<close>

lemma figures_add:
  assumes "vote_in_range w" "list_all vote_in_range ms" "length ms < 2 ^ 39"
  shows "inum (bp_total vt_forVotesBp ms) + inum (vt_forVotesBp w) = inum (bp_total vt_forVotesBp (ms @ [w]))"
    "inum (bp_total vt_againstVotesBp ms) + inum (vt_againstVotesBp w) = inum (bp_total vt_againstVotesBp (ms @ [w]))"
    "inum (bp_total vt_abstainVotesBp ms) + inum (vt_abstainVotesBp w) = inum (bp_total vt_abstainVotesBp (ms @ [w]))"
    "inum (int (length ms)) + inum 1 = inum (int (length (ms @ [w])))"
    "inum (vt_voteTimestamp w) * inum 1000 = inum (1000 * vt_voteTimestamp w)"
proof -
  have len: "int (length ms) < 2 ^ 39" using assms(3) by (metis of_nat_less_iff of_nat_numeral of_nat_power)
  have add: "inum (bp_total f ms) + inum (f w) = inum (bp_total f (ms @ [w]))"
    if f: "f \<in> {vt_forVotesBp, vt_againstVotesBp, vt_abstainVotesBp}" for f
  proof -
    have "0 \<le> bp_total f ms \<and> bp_total f ms \<le> 10000 * 2 ^ 39"
      using bp_total_bounds [of f ms] f assms(2) len by (auto simp: vote_in_range_def list_all_iff)
    then show ?thesis using f assms(1) by (subst inum_arith) (auto simp: vote_in_range_def bp_total_def)
  qed
  show "inum (bp_total vt_forVotesBp ms) + inum (vt_forVotesBp w) = inum (bp_total vt_forVotesBp (ms @ [w]))"
    "inum (bp_total vt_againstVotesBp ms) + inum (vt_againstVotesBp w) = inum (bp_total vt_againstVotesBp (ms @ [w]))"
    "inum (bp_total vt_abstainVotesBp ms) + inum (vt_abstainVotesBp w) = inum (bp_total vt_abstainVotesBp (ms @ [w]))"
    by (rule add, simp)+
  show "inum (int (length ms)) + inum 1 = inum (int (length (ms @ [w])))"
    using len by (subst inum_arith) auto
  show "inum (vt_voteTimestamp w) * inum 1000 = inum (1000 * vt_voteTimestamp w)"
    using assms(1) by (subst inum_arith) (auto simp: vote_in_range_def mult.commute)
qed

lemma split_step:
  assumes "bn_toNumber_exact env" "list_all vote_in_range (ws @ [w])" "length (ws @ [w]) \<le> 2 ^ 39"
    and "\<And>k. split_spec env validators ws st k" "add_vote env validators st w = Inr st'"
  shows "split_spec env validators (ws @ [w]) st' k"
proof (cases "toBase58 env (vt_validator w) \<in> val_vote_identity ` set validators")
  case False
  then have "List.find (\<lambda>v. val_vote_identity v = toBase58 env (vt_validator w)) validators = None"
    by (auto simp: find_None_iff intro: rev_image_eqI)
  then have "st' = st" using assms(5) by (simp add: add_vote_def)
  then show ?thesis using assms(4) [of k] False by (auto simp: split_spec_def votes_of_def Let_def)
next
  case True
  let ?k = "toBase58 env (vt_validator w)" and ?ms = "votes_of env (toBase58 env (vt_validator w)) ws"
  obtain v where v: "List.find (\<lambda>v. val_vote_identity v = ?k) validators = Some v" "val_vote_identity v = ?k"
    using True find_Some_witness by (metis (mono_tags, lifting) imageE)
  have exact: "bn_toNumber env n = Inr x \<Longrightarrow> x = inum n" for n x using assms(1) by (simp add: bn_toNumber_exact_def)
  show ?thesis
  proof (cases "k = ?k")
    case False
    then have "votes_of env k (ws @ [w]) = votes_of env k ws" by (simp add: votes_of_def)
    moreover have "st_voteSums st' k = st_voteSums st k" "st_latest st' k = st_latest st k" "st_votesCount st' k = st_votesCount st k"
      using assms(5) False v by (auto simp: add_vote_def Let_def)
    ultimately show ?thesis using assms(4) [of k] by (simp only: split_spec_def)
  next
    case k: True
    have in_range: "vote_in_range w" "list_all vote_in_range ?ms" using assms(2) by (auto simp: votes_of_def list_all_iff)
    have "length ?ms \<le> length ws" by (simp add: votes_of_def)
    then have "length ?ms < 2 ^ 39" using assms(3) by simp
    note adds = figures_add [OF in_range this]
    have pos: "0 < vt_voteTimestamp w" "\<forall>w\<in>set ?ms. 0 < vt_voteTimestamp w"
      using in_range by (auto simp: vote_in_range_def list_all_iff)
    have ms': "votes_of env ?k (ws @ [w]) = ?ms @ [w]" by (simp add: votes_of_def)
    show ?thesis
    proof (cases "?ms = []")
      case True
      then have "st_voteSums st ?k = None" "st_latest st ?k = None" "st_votesCount st ?k = None"
        using assms(4) [of ?k] by (simp_all add: split_spec_def)
      then show ?thesis unfolding k using assms(5) v True adds
        by (auto simp: add_vote_def Let_def split_spec_def ms' latest_timestamp_def bp_total_def js_int \<open>?k \<in> _\<close> dest!: exact)
    next
      case False
      then have "st_voteSums st ?k = Some \<lparr>vs_for = inum (bp_total vt_forVotesBp ?ms), vs_against = inum (bp_total vt_againstVotesBp ?ms),
             vs_abstain = inum (bp_total vt_abstainVotesBp ?ms), vs_count = inum (int (length ?ms))\<rparr>"
        "st_latest st ?k = Some (inum (1000 * Max (vt_voteTimestamp ` set ?ms)))" "st_votesCount st ?k = Some (inum (int (length ?ms)))"
        using assms(4) [of ?k] \<open>?k \<in> _\<close> by (simp_all add: split_spec_def Let_def)
      then show ?thesis unfolding k using assms(5) v False adds
          latest_Max [OF pos(1) False pos(2)]
        by (auto simp: add_vote_def Let_def split_spec_def ms' js_int \<open>?k \<in> _\<close> dest!: exact)
    qed
  qed
qed

lemma add_votes_split_spec:
  assumes "bn_toNumber_exact env" "list_all vote_in_range ws" "length ws \<le> 2 ^ 39"
    and "add_votes env validators no_splits ws = Inr st"
  shows "split_spec env validators ws st k"
  using assms(2-)
proof (induction ws arbitrary: st k rule: rev_induct)
  case Nil
  then show ?case by (auto simp: split_spec_def votes_of_def no_splits_def)
next
  case (snoc w ws)
  then obtain st0 where st0: "add_votes env validators no_splits ws = Inr st0" "add_vote env validators st0 w = Inr st"
    by (auto simp: add_votes_append)
  from snoc.prems have prems: "list_all vote_in_range ws" "length ws \<le> 2 ^ 39" by auto
  show ?case by (rule split_step [OF assms(1) snoc.prems(1,2) snoc.IH [OF prems st0(1)] st0(2)])
qed

text \<open>The voter splits are the averages of the votes on chain: for every validator of the list with
  at least one vote, the shares are computed from the exact sums of the basis points and the number
  of its votes, the latest time is the maximum of their times and the count their number; validators
  without a vote, and votes of unknown validators, leave no entry.\<close>

theorem voter_splits_aggregate:
  assumes "bn_toNumber_exact env" "list_all vote_in_range ws" "length ws \<le> 2 ^ 39"
    and "useValidatorsVoterSplits env (Some validators) (Some ws) = Inr (Some (splits, latest, counts))"
  shows "let ms = votes_of env k ws in
    if ms = [] \<or> k \<notin> val_vote_identity ` set validators then splits k = None \<and> latest k = None \<and> counts k = None
    else splits k = Some (split_of \<lparr>vs_for = inum (bp_total vt_forVotesBp ms), vs_against = inum (bp_total vt_againstVotesBp ms),
             vs_abstain = inum (bp_total vt_abstainVotesBp ms), vs_count = inum (int (length ms))\<rparr>) \<and>
         latest k = Some (inum (1000 * Max (vt_voteTimestamp ` set ms))) \<and> counts k = Some (inum (int (length ms)))"
proof -
  obtain st where st: "add_votes env validators no_splits ws = Inr st" "splits = map_option split_of \<circ> st_voteSums st"
    "latest = st_latest st" "counts = st_votesCount st"
    using assms(4) by (auto simp: useValidatorsVoterSplits_def)
  show ?thesis using add_votes_split_spec [OF assms(1-3) st(1), of k]
    by (auto simp: split_spec_def Let_def st(2-4) split: if_splits)
qed

definition sample_votes :: "vote_account list" where
  "sample_votes = map snd (ca_votes sample_chain_accounts)"

definition voting_validator :: validator where
  "voting_validator = unknown_validator 1 ((sample_rpc_account ''A'' 5)\<lparr>va_votePubkey := pk_bytes (key32 2)\<rparr>)"

theorem voter_splits_aggregate_witness:
  "\<exists>splits latest counts. useValidatorsVoterSplits (http_env answer_404) (Some [voting_validator]) (Some sample_votes) =
      Inr (Some (splits, latest, counts)) \<and>
     counts (pk_bytes (key32 2)) = Some (inum 1) \<and> latest (pk_bytes (key32 2)) = Some (inum 7000)"
proof -
  have bn: "bn_toNumber (http_env answer_404) = (\<lambda>i. Inr (inum i))" and b58: "toBase58 (http_env answer_404) = pk_bytes"
    by (simp_all add: http_env_def)
  have "add_vote (http_env answer_404) vs st w \<noteq> Inl e" for vs st w e
    by (auto simp: add_vote_def bn Let_def split: option.splits)
  then have "add_votes (http_env answer_404) vs st ws \<noteq> Inl e" for vs st ws e
    by (induction ws arbitrary: st) (auto simp: res_bind_Inl_iff)
  then obtain st where "add_votes (http_env answer_404) [voting_validator] no_splits sample_votes = Inr st"
    by (metis sum.exhaust_sel isl_def sum.collapse(1,2))
  then obtain splits latest counts where run: "useValidatorsVoterSplits (http_env answer_404) (Some [voting_validator]) (Some sample_votes) =
      Inr (Some (splits, latest, counts))" by (simp add: useValidatorsVoterSplits_def)
  have votes: "votes_of (http_env answer_404) (pk_bytes (key32 2)) sample_votes = sample_votes"
    by (simp add: votes_of_def sample_votes_def sample_chain_accounts_def b58)
  have "list_all vote_in_range sample_votes" "length sample_votes \<le> 2 ^ 39"
    by (simp_all add: sample_votes_def sample_chain_accounts_def vote_in_range_def)
  from voter_splits_aggregate [OF sample_bn_exact this run, of "pk_bytes (key32 2)"] run show ?thesis
    unfolding votes by (simp add: sample_votes_def sample_chain_accounts_def voting_validator_def unknown_validator_def Let_def)
qed

end
