(* ===== verification/Settings.thy ===== *)
theory Settings
  imports Networks Ncn_Api
begin

text \<open>
  The settings a visitor can change (\<open>frontend/src/contexts/EndpointContext.tsx\<close> and
  \<open>NcnApiContext.tsx\<close>): the RPC endpoint and the base URL of the verifier, each a state of a
  provider with a copy in the browser's local storage.  The providers are state machines whose
  steps are the callbacks they publish and a reload of the page.  The texts written to the storage
  are read back by \<open>JSON.parse\<close>, a parameter; a stored text is taken to hold an endpoint, or to be
  unreadable.
\<close>

section \<open>The RPC endpoint\<close>

record endpoint_state =
  endpointType :: rpc_endpoint
  endpointUrl :: jsstr

definition rpc_url_of :: "rpc_urls \<Rightarrow> rpc_endpoint \<Rightarrow> jsstr" where
  "rpc_url_of urls t = (case t of Mainnet \<Rightarrow> url_mainnet urls | Testnet \<Rightarrow> url_testnet urls
     | Devnet \<Rightarrow> url_devnet urls | CustomEndpoint \<Rightarrow> [])"

definition default_endpoint :: "rpc_urls \<Rightarrow> endpoint_state" where
  "default_endpoint urls = \<lparr>endpointType = Mainnet, endpointUrl = url_mainnet urls\<rparr>"

text \<open>The provider with its storage entry and the keys of the query cache it clears; \<open>parse\<close> and
  \<open>stringify\<close> are those of \<open>JSON\<close>.\<close>

record endpoint_provider =
  ep_state :: endpoint_state
  ep_saved :: "jsstr option"
  ep_queries :: "jsstr list"

definition getStoredValues :: "rpc_urls \<Rightarrow> (jsstr \<Rightarrow> endpoint_state option) \<Rightarrow> jsstr option \<Rightarrow> endpoint_state" where
  "getStoredValues urls parse saved =
     (case saved of
        Some s \<Rightarrow> if s \<noteq> [] then (case parse s of Some e \<Rightarrow> e | None \<Rightarrow> default_endpoint urls) else default_endpoint urls
      | None \<Rightarrow> default_endpoint urls)"

definition setEndpointData ::
  "rpc_urls \<Rightarrow> (endpoint_state \<Rightarrow> jsstr) \<Rightarrow> rpc_endpoint \<Rightarrow> jsstr option \<Rightarrow> endpoint_provider \<Rightarrow> endpoint_provider" where
  "setEndpointData urls stringify t customUrl p =
     (let url = (if t = CustomEndpoint then (case customUrl of Some u \<Rightarrow> u | None \<Rightarrow> []) else rpc_url_of urls t);
          e = \<lparr>endpointType = t, endpointUrl = url\<rparr>
      in p\<lparr>ep_state := e, ep_saved := Some (stringify e), ep_queries := []\<rparr>)"

definition resetEndpoint :: "rpc_urls \<Rightarrow> endpoint_provider \<Rightarrow> endpoint_provider" where
  "resetEndpoint urls p = p\<lparr>ep_state := default_endpoint urls, ep_saved := None\<rparr>"

definition reloadEndpoint :: "rpc_urls \<Rightarrow> (jsstr \<Rightarrow> endpoint_state option) \<Rightarrow> endpoint_provider \<Rightarrow> endpoint_provider" where
  "reloadEndpoint urls parse p = p\<lparr>ep_state := getStoredValues urls parse (ep_saved p), ep_queries := []\<rparr>"

text \<open>The network shown for an endpoint: a preset names it, a custom endpoint has the one its query
  resolved.\<close>

fun preset_network :: "rpc_endpoint \<Rightarrow> known_network option" where
  "preset_network Mainnet = Some KMainnet"
| "preset_network Testnet = Some KTestnet"
| "preset_network Devnet = Some KDevnet"
| "preset_network CustomEndpoint = None"

definition endpoint_network :: "endpoint_state \<Rightarrow> known_network option option \<Rightarrow> known_network option" where
  "endpoint_network e queryData =
     (if endpointType e = CustomEndpoint then (case queryData of Some n \<Rightarrow> n | None \<Rightarrow> None) else preset_network (endpointType e))"

definition network_query_enabled :: "endpoint_state \<Rightarrow> bool" where
  "network_query_enabled e \<longleftrightarrow> endpointType e = CustomEndpoint \<and> endpointUrl e \<noteq> []"

section \<open>The verifier URL\<close>

definition normalizeUrl :: "jsstr \<Rightarrow> jsstr" where
  "normalizeUrl url = (if url \<noteq> [] \<and> last url = 47 then butlast url else url)"

record ncn_provider =
  np_url :: jsstr
  np_saved :: "jsstr option"

definition getStoredValue :: "jsstr option \<Rightarrow> jsstr" where
  "getStoredValue saved =
     (case saved of Some s \<Rightarrow> if s \<noteq> [] then normalizeUrl s else DEFAULT_NCN_API_URL | None \<Rightarrow> DEFAULT_NCN_API_URL)"

definition setNcnApiUrlData :: "jsstr \<Rightarrow> ncn_provider \<Rightarrow> ncn_provider" where
  "setNcnApiUrlData url p = p\<lparr>np_url := normalizeUrl url, np_saved := Some (normalizeUrl url)\<rparr>"

definition resetNcnApiUrl :: "ncn_provider \<Rightarrow> ncn_provider" where
  "resetNcnApiUrl p = p\<lparr>np_url := DEFAULT_NCN_API_URL, np_saved := None\<rparr>"

definition reloadNcnApiUrl :: "ncn_provider \<Rightarrow> ncn_provider" where
  "reloadNcnApiUrl p = p\<lparr>np_url := getStoredValue (np_saved p)\<rparr>"

section \<open>Sessions\<close>

text \<open>Every provider a session can reach: it starts from whatever the storage holds, and then takes
  any callbacks and reloads, while the pages add queries to the cache.\<close>

inductive endpoint_session ::
  "rpc_urls \<Rightarrow> (jsstr \<Rightarrow> endpoint_state option) \<Rightarrow> (endpoint_state \<Rightarrow> jsstr) \<Rightarrow> endpoint_provider \<Rightarrow> bool"
  for urls parse stringify where
  start: "endpoint_session urls parse stringify \<lparr>ep_state = getStoredValues urls parse saved, ep_saved = saved, ep_queries = []\<rparr>"
| set: "endpoint_session urls parse stringify p \<Longrightarrow> endpoint_session urls parse stringify (setEndpointData urls stringify t u p)"
| cached: "endpoint_session urls parse stringify p \<Longrightarrow> endpoint_session urls parse stringify (p\<lparr>ep_queries := key # ep_queries p\<rparr>)"
| reset: "endpoint_session urls parse stringify p \<Longrightarrow> endpoint_session urls parse stringify (resetEndpoint urls p)"
| reload: "endpoint_session urls parse stringify p \<Longrightarrow> endpoint_session urls parse stringify (reloadEndpoint urls parse p)"

inductive ncn_session :: "ncn_provider \<Rightarrow> bool" where
  start: "ncn_session \<lparr>np_url = getStoredValue saved, np_saved = saved\<rparr>"
| set: "ncn_session p \<Longrightarrow> ncn_session (setNcnApiUrlData url p)"
| reset: "ncn_session p \<Longrightarrow> ncn_session (resetNcnApiUrl p)"
| reload: "ncn_session p \<Longrightarrow> ncn_session (reloadNcnApiUrl p)"

text \<open>C32. The chosen RPC endpoint survives a reload.  In every session, provided stored endpoints read
  back as they were written, reloading the page leaves the endpoint unchanged; choosing a preset
  always selects the configured URL of its cluster, and resetting gives the default, also after a
  reload.  Choosing an endpoint empties the query cache; resetting keeps it, although the endpoint
  changes.\<close>

theorem endpoint_survives_reload:
  assumes "endpoint_session urls parse stringify p"
    and "\<forall>e. stringify e \<noteq> [] \<and> parse (stringify e) = Some e"
  shows "ep_state (reloadEndpoint urls parse p) = ep_state p \<and> ep_saved (reloadEndpoint urls parse p) = ep_saved p \<and>
    ep_queries (setEndpointData urls stringify t u p) = [] \<and> ep_queries (resetEndpoint urls p) = ep_queries p \<and>
    (t \<noteq> CustomEndpoint \<longrightarrow> ep_state (setEndpointData urls stringify t u p) = \<lparr>endpointType = t, endpointUrl = rpc_url_of urls t\<rparr>) \<and>
    ep_state (reloadEndpoint urls parse (resetEndpoint urls p)) = default_endpoint urls"
proof -
  have "ep_state p = getStoredValues urls parse (ep_saved p)"
    using assms(1)
    by (induction rule: endpoint_session.induct)
      (auto simp: setEndpointData_def resetEndpoint_def reloadEndpoint_def getStoredValues_def assms(2) Let_def)
  then show ?thesis by (auto simp: reloadEndpoint_def setEndpointData_def resetEndpoint_def getStoredValues_def Let_def)
qed

definition plain_stringify :: "endpoint_state \<Rightarrow> jsstr" where
  "plain_stringify e = (case endpointType e of Mainnet \<Rightarrow> 1 | Testnet \<Rightarrow> 2 | Devnet \<Rightarrow> 3 | CustomEndpoint \<Rightarrow> 4) # endpointUrl e"

definition plain_parse :: "jsstr \<Rightarrow> endpoint_state option" where
  "plain_parse s = (case s of [] \<Rightarrow> None | c # u \<Rightarrow>
     if c = 1 then Some \<lparr>endpointType = Mainnet, endpointUrl = u\<rparr> else if c = 2 then Some \<lparr>endpointType = Testnet, endpointUrl = u\<rparr>
     else if c = 3 then Some \<lparr>endpointType = Devnet, endpointUrl = u\<rparr> else Some \<lparr>endpointType = CustomEndpoint, endpointUrl = u\<rparr>)"

theorem endpoint_survives_reload_witness:
  "let p = setEndpointData DEFAULT_RPC_URLS plain_stringify CustomEndpoint (Some (js ''http://localhost:8899''))
             \<lparr>ep_state = getStoredValues DEFAULT_RPC_URLS plain_parse None, ep_saved = None, ep_queries = []\<rparr>
   in ep_state (reloadEndpoint DEFAULT_RPC_URLS plain_parse p) = ep_state p \<and> endpointUrl (ep_state p) = js ''http://localhost:8899''"
proof -
  have "plain_stringify e \<noteq> [] \<and> plain_parse (plain_stringify e) = Some e" for e
    by (cases e) (auto simp: plain_stringify_def plain_parse_def split: rpc_endpoint.splits)
  moreover have "endpoint_session DEFAULT_RPC_URLS plain_parse plain_stringify
      (setEndpointData DEFAULT_RPC_URLS plain_stringify CustomEndpoint (Some (js ''http://localhost:8899''))
             \<lparr>ep_state = getStoredValues DEFAULT_RPC_URLS plain_parse None, ep_saved = None, ep_queries = []\<rparr>)"
    by (intro endpoint_session.set endpoint_session.start)
  ultimately show ?thesis using endpoint_survives_reload by (simp add: setEndpointData_def Let_def)
qed

text \<open>The verifier URL survives a reload whenever it is not empty and has no further trailing slash.\<close>

lemma verifier_url_survives_reload:
  assumes "np_saved p = None \<and> np_url p = DEFAULT_NCN_API_URL \<or> np_saved p = Some (np_url p)" "np_url p \<noteq> []" "last (np_url p) \<noteq> 47"
  shows "reloadNcnApiUrl p = p"
  using assms by (auto simp: reloadNcnApiUrl_def getStoredValue_def normalizeUrl_def)

text \<open>The verifier URL does not always survive a reload: only one trailing slash is removed when a
  URL is set, and reading it back removes another one, so a URL ending in two slashes is used with
  one slash until the page is reloaded and with none afterwards.  A second reload
  changes nothing more.\<close>

theorem verifier_url_drifts:
  "(\<exists>p. ncn_session p \<and> np_url p = js ''https://ncn.example/'' \<and>
      np_url (reloadNcnApiUrl p) = js ''https://ncn.example'' \<and> np_saved (reloadNcnApiUrl p) = np_saved p) \<and>
   reloadNcnApiUrl (reloadNcnApiUrl q) = reloadNcnApiUrl q"
proof
  let ?p = "setNcnApiUrlData (js ''https://ncn.example//'') \<lparr>np_url = getStoredValue None, np_saved = None\<rparr>"
  have "ncn_session ?p" by (intro ncn_session.set ncn_session.start)
  moreover have "np_url ?p = js ''https://ncn.example/''" "np_url (reloadNcnApiUrl ?p) = js ''https://ncn.example''"
    by (simp_all add: setNcnApiUrlData_def reloadNcnApiUrl_def getStoredValue_def normalizeUrl_def js_str)
  ultimately show "\<exists>p. ncn_session p \<and> np_url p = js ''https://ncn.example/'' \<and>
      np_url (reloadNcnApiUrl p) = js ''https://ncn.example'' \<and> np_saved (reloadNcnApiUrl p) = np_saved p"
    by (intro exI [of _ ?p]) (simp add: reloadNcnApiUrl_def)
  show "reloadNcnApiUrl (reloadNcnApiUrl q) = reloadNcnApiUrl q" by (simp add: reloadNcnApiUrl_def)
qed

end
