(* ===== verification/Governance_Config.thy ===== *)
theory Governance_Config
  imports Chain_Helpers
begin

text \<open>
  The governance configuration: its retrieval from the chain (\<open>frontend/src/lib/getGovernanceConfig.ts\<close>),
  the server route that serves it (\<open>app/api/governance/config/route.ts\<close>) and the query of the pages
  (\<open>hooks/useGovernanceConfig.ts\<close>).  The schema library is modelled as it documents itself: the
  enumeration is checked first, the refinement only when it holds; the text of its own message is a
  parameter.  The server cache keeps answers by the arguments of the cached function.  Bodies are the
  JSON values themselves.
\<close>

section \<open>Reading the configuration\<close>

text \<open>A field as the account decoder leaves it: a number, a big number, or nothing.\<close>

datatype raw_number = RawNum number | RawBn int | RawMissing

record global_config_account =
  ga_admin :: pubkey
  ga_maxTitleLength :: "number option"
  ga_maxDescriptionLength :: "number option"
  ga_maxSupportEpochs :: raw_number
  ga_minProposalStakeLamports :: raw_number
  ga_clusterSupportPctMinBps :: raw_number
  ga_discussionEpochs :: raw_number
  ga_votingEpochs :: raw_number
  ga_snapshotEpochExtension :: raw_number
  ga_snapshotSlotOffset :: raw_number
  ga_maxSupporters :: raw_number
  ga_bump :: number

definition raw_to_number :: "chain_env \<Rightarrow> raw_number \<Rightarrow> js_error + number" where
  "raw_to_number env v = (case v of RawNum x \<Rightarrow> Inr x | RawBn n \<Rightarrow> bn_toNumber env n | RawMissing \<Rightarrow> Inr (Num 0))"

definition toGovernanceConfigDto :: "chain_env \<Rightarrow> global_config_account \<Rightarrow> js_error + governance_config_dto" where
  "toGovernanceConfigDto env a =
     (let n = raw_to_number env; or0 = (\<lambda>x. case x of Some v \<Rightarrow> v | None \<Rightarrow> Num 0) in
      res_bind (n (ga_maxSupportEpochs a)) (\<lambda>supportEpochs.
      res_bind (n (ga_minProposalStakeLamports a)) (\<lambda>minStake.
      res_bind (n (ga_clusterSupportPctMinBps a)) (\<lambda>minBps.
      res_bind (n (ga_discussionEpochs a)) (\<lambda>discussion.
      res_bind (n (ga_votingEpochs a)) (\<lambda>voting.
      res_bind (n (ga_snapshotEpochExtension a)) (\<lambda>extension.
      res_bind (n (ga_snapshotSlotOffset a)) (\<lambda>offset.
      res_bind (n (ga_maxSupporters a)) (\<lambda>supporters.
        Inr \<lparr>gc_admin = toBase58 env (ga_admin a), gc_maxTitleLength = or0 (ga_maxTitleLength a),
             gc_maxDescriptionLength = or0 (ga_maxDescriptionLength a), gc_maxSupportEpochs = supportEpochs,
             gc_minProposalStakeLamports = minStake, gc_clusterSupportPctMinBps = minBps,
             gc_discussionEpochs = discussion, gc_votingEpochs = voting, gc_snapshotEpochExtension = extension,
             gc_snapshotSlotOffset = offset, gc_maxSupporters = supporters, gc_bump = ga_bump a\<rparr>)))))))))"

datatype config_event = FetchGlobalConfig jsstr pubkey

record config_env =
  cf_chain :: chain_env
  cf_account :: "config_event list \<Rightarrow> jsstr \<Rightarrow> pubkey \<Rightarrow> js_error + global_config_account"
  cf_valid_url :: "jsstr \<Rightarrow> bool"
  cf_enum_message :: "jsstr \<Rightarrow> jsstr"

definition fetchGovernanceConfigFromChain :: "config_env \<Rightarrow> jsstr \<Rightarrow> (config_event, governance_config_dto) io" where
  "fetchGovernanceConfigFromChain env rpcUrl =
     io_bind (io_lift (createProgramWitDummyWallet (cf_chain env) (Some rpcUrl))) (\<lambda>program.
     io_bind (io_lift (deriveGlobalConfigPda (cf_chain env) (prog_id program))) (\<lambda>pda.
     io_bind (io_call (FetchGlobalConfig (prog_endpoint program) pda) (\<lambda>l. cf_account env l (prog_endpoint program) pda)) (\<lambda>account.
       io_lift (toGovernanceConfigDto (cf_chain env) account))))"

section \<open>The route\<close>

fun endpoint_name :: "rpc_endpoint \<Rightarrow> jsstr" where
  "endpoint_name Mainnet = js ''mainnet''"
| "endpoint_name Testnet = js ''testnet''"
| "endpoint_name Devnet = js ''devnet''"
| "endpoint_name CustomEndpoint = js ''custom''"

definition parse_endpoint :: "jsstr \<Rightarrow> rpc_endpoint option" where
  "parse_endpoint s = List.find (\<lambda>e. endpoint_name e = s) [Mainnet, Testnet, Devnet, CustomEndpoint]"

datatype config_response = ConfigOk governance_config_dto | ConfigError nat jsstr

text \<open>\<open>safeParse\<close> of the query: the endpoint and the \<open>rpcUrl\<close>, or the first message.\<close>

definition governanceConfigQuerySchema :: "config_env \<Rightarrow> jsstr \<Rightarrow> jsstr option \<Rightarrow> jsstr + rpc_endpoint \<times> jsstr option" where
  "governanceConfigQuerySchema env endpoint rpcUrl =
     (case parse_endpoint endpoint of
        None \<Rightarrow> Inl (cf_enum_message env endpoint)
      | Some e \<Rightarrow>
          if e \<noteq> CustomEndpoint then Inr (e, rpcUrl)
          else let trimmed = map_option trim rpcUrl in
               (case trimmed of
                  None \<Rightarrow> Inl (js ''rpcUrl query parameter is required when endpoint=custom'')
                | Some u \<Rightarrow>
                    if u = [] then Inl (js ''rpcUrl query parameter is required when endpoint=custom'')
                    else if \<not> cf_valid_url env u then Inl (js ''Invalid rpcUrl'')
                    else Inr (e, rpcUrl)))"

text \<open>The server cache, by the arguments of the cached function.\<close>

type_synonym config_cache = "jsstr \<times> jsstr \<Rightarrow> governance_config_dto option"

definition getCachedGovernanceConfig ::
  "config_env \<Rightarrow> config_cache \<Rightarrow> jsstr \<Rightarrow> jsstr \<Rightarrow> (config_event, governance_config_dto \<times> config_cache) io" where
  "getCachedGovernanceConfig env cache rpcUrl cacheKey =
     (case cache (rpcUrl, cacheKey) of
        Some dto \<Rightarrow> io_return (dto, cache)
      | None \<Rightarrow> io_bind (fetchGovernanceConfigFromChain env rpcUrl) (\<lambda>dto.
                  io_return (dto, cache((rpcUrl, cacheKey) \<mapsto> dto))))"

definition cache_key :: "rpc_endpoint \<Rightarrow> jsstr \<Rightarrow> jsstr" where
  "cache_key e rpcUrl = (if e = CustomEndpoint then js ''custom:'' @ rpcUrl else endpoint_name e)"

text \<open>\<open>query\<close> is the outcome of reading the request's parameters \<open>endpoint\<close> and \<open>rpcUrl\<close>.\<close>

definition GET :: "config_env \<Rightarrow> config_cache \<Rightarrow> js_error + jsstr option \<times> jsstr option \<Rightarrow> (config_event, config_response \<times> config_cache) io" where
  "GET env cache query =
     io_try
       (io_bind (io_lift query) (\<lambda>(endpointParam, rpcUrlParam).
          case governanceConfigQuerySchema env (or_default endpointParam (js ''mainnet'')) rpcUrlParam of
            Inl message \<Rightarrow> io_return (ConfigError 400 message, cache)
          | Inr (endpoint, rpcUrl) \<Rightarrow>
              (case getRpcUrlForEndpoint (cf_valid_url env) (rpc_env_vars (cf_chain env)) endpoint
                      (if endpoint = CustomEndpoint then map_option trim rpcUrl else None)
                      (Some (rpc_env_vars (cf_chain env))) of
                 Inl e \<Rightarrow> io_return (ConfigError 400 (err_message e), cache)
               | Inr url \<Rightarrow>
                   io_bind (getCachedGovernanceConfig env cache url (cache_key endpoint url)) (\<lambda>(dto, cache').
                     io_return (ConfigOk dto, cache')))))
       (\<lambda>e. io_return (ConfigError 500 (err_message e), cache))"

section \<open>The query of the pages\<close>

text \<open>The request of a page for an endpoint, answered by the route; the platform's encoding of the
  parameters is undone by the server's decoding.\<close>

definition request_params :: "rpc_endpoint \<Rightarrow> jsstr \<Rightarrow> jsstr option \<times> jsstr option" where
  "request_params endpointType endpointUrl =
     (if endpointType \<noteq> CustomEndpoint then (Some (endpoint_name endpointType), None)
      else (Some (js ''custom''), Some endpointUrl))"

definition useGovernanceConfig :: "config_env \<Rightarrow> config_cache \<Rightarrow> rpc_endpoint \<Rightarrow> jsstr \<Rightarrow> (config_event, governance_config_dto \<times> config_cache) io" where
  "useGovernanceConfig env cache endpointType endpointUrl =
     io_bind (GET env cache (Inr (request_params endpointType endpointUrl))) (\<lambda>(response, cache').
       case response of
         ConfigOk dto \<Rightarrow> io_return (dto, cache')
       | ConfigError status message \<Rightarrow> io_throw (JsError message))"

section \<open>Laws\<close>

lemma parse_endpoint_name [simp]: "parse_endpoint (endpoint_name e) = Some e"
  by (cases e) (simp_all add: parse_endpoint_def js_str)

lemma parse_endpoint_SomeD: "parse_endpoint s = Some e \<Longrightarrow> s = endpoint_name e"
  by (auto simp: parse_endpoint_def split: if_splits)

text \<open>The configurations a node can serve, and the URL a valid query stands for.\<close>

definition served_by :: "config_env \<Rightarrow> jsstr \<Rightarrow> governance_config_dto \<Rightarrow> bool" where
  "served_by env url dto \<longleftrightarrow> (\<exists>l l'. fetchGovernanceConfigFromChain env url l = (Inr dto, l'))"

definition effective_url :: "config_env \<Rightarrow> rpc_endpoint \<Rightarrow> jsstr option \<Rightarrow> jsstr" where
  "effective_url env e rpcUrl =
     (case e of Mainnet \<Rightarrow> url_mainnet (RPC_URLS (cf_chain env)) | Testnet \<Rightarrow> url_testnet (RPC_URLS (cf_chain env))
      | Devnet \<Rightarrow> url_devnet (RPC_URLS (cf_chain env)) | CustomEndpoint \<Rightarrow> trim (the rpcUrl))"

definition presets_set :: "config_env \<Rightarrow> bool" where
  "presets_set env \<longleftrightarrow> (\<forall>e. e \<noteq> CustomEndpoint \<longrightarrow> effective_url env e None \<noteq> [])"

text \<open>Every cached answer is one a node gave for the URL it is kept under.\<close>

definition cache_sound :: "config_env \<Rightarrow> config_cache \<Rightarrow> bool" where
  "cache_sound env cache \<longleftrightarrow> (\<forall>url key dto. cache (url, key) = Some dto \<longrightarrow> served_by env url dto)"

definition only_fetches :: "jsstr \<Rightarrow> config_event list \<Rightarrow> bool" where
  "only_fetches url evs \<longleftrightarrow> length evs \<le> 1 \<and> (\<forall>ev\<in>set evs. \<exists>pda. ev = FetchGlobalConfig url pda)"

lemma fetch_config_events:
  assumes "url \<noteq> []"
  shows "\<exists>r evs. fetchGovernanceConfigFromChain env url l = (r, l @ evs) \<and> only_fetches url evs"
proof -
  have "createProgramWitDummyWallet (cf_chain env) (Some url) = Inr prog \<Longrightarrow> prog_endpoint prog = url" for prog
    using assms by (auto simp: createProgramWitDummyWallet_def create_program_def Let_def)
  then show ?thesis
    by (auto simp: fetchGovernanceConfigFromChain_def io_defs only_fetches_def split: sum.splits)
qed

lemma schema_url:
  assumes "governanceConfigQuerySchema env endpoint rpcUrl = Inr (e, rpcUrl')" "presets_set env"
  shows "rpcUrl' = rpcUrl"
    "getRpcUrlForEndpoint (cf_valid_url env) (rpc_env_vars (cf_chain env)) e
       (if e = CustomEndpoint then map_option trim rpcUrl else None) (Some (rpc_env_vars (cf_chain env))) =
     Inr (effective_url env e rpcUrl)"
    "effective_url env e rpcUrl \<noteq> []"
proof -
  have p: "effective_url env e rpcUrl = effective_url env e None" if "e \<noteq> CustomEndpoint"
    using that by (cases e) (simp_all add: effective_url_def)
  show "rpcUrl' = rpcUrl"
    using assms(1) by (auto simp: governanceConfigQuerySchema_def Let_def split: option.splits if_splits)
  show "getRpcUrlForEndpoint (cf_valid_url env) (rpc_env_vars (cf_chain env)) e
       (if e = CustomEndpoint then map_option trim rpcUrl else None) (Some (rpc_env_vars (cf_chain env))) =
     Inr (effective_url env e rpcUrl)"
    using assms(1) by (cases e) (auto simp: governanceConfigQuerySchema_def getRpcUrlForEndpoint_def effective_url_def
        RPC_URLS_def or_default_def Let_def split: option.splits if_splits)
  show "effective_url env e rpcUrl \<noteq> []"
  proof (cases "e = CustomEndpoint")
    case True
    then show ?thesis using assms(1)
      by (auto simp: governanceConfigQuerySchema_def effective_url_def Let_def split: option.splits if_splits)
  next
    case False
    then show ?thesis using assms(2) p by (simp add: presets_set_def)
  qed
qed

lemma cached_config_run:
  assumes "cache_sound env cache" "url \<noteq> []"
  shows "\<exists>evs. only_fetches url evs \<and>
    ((\<exists>dto cache'. getCachedGovernanceConfig env cache url key l = (Inr (dto, cache'), l @ evs) \<and> served_by env url dto \<and> cache_sound env cache') \<or>
     (\<exists>e. getCachedGovernanceConfig env cache url key l = (Inl e, l @ evs)))"
proof (cases "cache (url, key)")
  case (Some dto)
  then have "getCachedGovernanceConfig env cache url key l = (Inr (dto, cache), l @ [])" "served_by env url dto" "only_fetches url []"
    using assms(1) by (auto simp: getCachedGovernanceConfig_def io_defs cache_sound_def only_fetches_def)
  then show ?thesis using assms(1) by blast
next
  case None
  obtain r evs where r: "fetchGovernanceConfigFromChain env url l = (r, l @ evs)" "only_fetches url evs"
    using fetch_config_events [OF assms(2)] by blast
  show ?thesis
  proof (cases r)
    case (Inl e)
    then have "getCachedGovernanceConfig env cache url key l = (Inl e, l @ evs)"
      using None r by (simp add: getCachedGovernanceConfig_def io_defs)
    then show ?thesis using r(2) by blast
  next
    case (Inr dto)
    then have "served_by env url dto" using r by (auto simp: served_by_def)
    moreover have "getCachedGovernanceConfig env cache url key l = (Inr (dto, cache((url, key) \<mapsto> dto)), l @ evs)"
      using None r Inr by (simp add: getCachedGovernanceConfig_def io_defs)
    moreover have "cache_sound env (cache((url, key) \<mapsto> dto))"
      using assms(1) \<open>served_by env url dto\<close> by (auto simp: cache_sound_def)
    ultimately show ?thesis using r(2) by blast
  qed
qed

text \<open>What the route may answer to a query, and what it may read for it.\<close>

definition right_answer :: "config_env \<Rightarrow> jsstr option \<Rightarrow> jsstr option \<Rightarrow> config_response \<Rightarrow> config_event list \<Rightarrow> bool" where
  "right_answer env endpointParam rpcUrl response evs \<longleftrightarrow>
     (case governanceConfigQuerySchema env (or_default endpointParam (js ''mainnet'')) rpcUrl of
        Inl message \<Rightarrow> response = ConfigError 400 message \<and> evs = []
      | Inr (e, _) \<Rightarrow> only_fetches (effective_url env e rpcUrl) evs \<and>
          ((\<exists>dto. response = ConfigOk dto \<and> served_by env (effective_url env e rpcUrl) dto) \<or>
           (\<exists>message. response = ConfigError 500 message)))"

lemma GET_run:
  assumes "cache_sound env cache" "presets_set env"
  shows "\<exists>response cache' evs. GET env cache (Inr (p, r)) l = (Inr (response, cache'), l @ evs) \<and>
    cache_sound env cache' \<and> right_answer env p r response evs"
proof (cases "governanceConfigQuerySchema env (or_default p (js ''mainnet'')) r")
  case (Inl m)
  then show ?thesis using assms(1) by (simp add: GET_def io_defs right_answer_def)
next
  case (Inr x)
  obtain e r' where x: "x = (e, r')" by force
  note u = schema_url [OF Inr [unfolded x] assms(2)]
  obtain evs where evs: "only_fetches (effective_url env e r) evs"
    "(\<exists>dto cache'. getCachedGovernanceConfig env cache (effective_url env e r) (cache_key e (effective_url env e r)) l =
        (Inr (dto, cache'), l @ evs) \<and> served_by env (effective_url env e r) dto \<and> cache_sound env cache') \<or>
     (\<exists>err. getCachedGovernanceConfig env cache (effective_url env e r) (cache_key e (effective_url env e r)) l = (Inl err, l @ evs))"
    using cached_config_run [OF assms(1) u(3)] by blast
  show ?thesis using evs assms(1) by (auto simp: GET_def io_defs Inr x u right_answer_def)
qed

lemma page_config:
  assumes "cache_sound env cache" "presets_set env" "useGovernanceConfig env cache t url l = (Inr (dto, cache''), l'')"
  shows "served_by env (effective_url env t (Some url)) dto"
proof -
  obtain p r where pr: "request_params t url = (p, r)" by force
  obtain response cache' evs where g: "GET env cache (Inr (p, r)) l = (Inr (response, cache'), l @ evs)"
    "right_answer env p r response evs" using GET_run [OF assms(1,2)] by blast
  then have ok: "response = ConfigOk dto" using assms(3)
    by (simp add: useGovernanceConfig_def pr io_defs split: config_response.splits)
  have e: "or_default p (js ''mainnet'') = endpoint_name t" "effective_url env t r = effective_url env t (Some url)"
    using pr by (cases t; auto simp: request_params_def or_default_def effective_url_def)+
  have "t' = t" if "governanceConfigQuerySchema env (endpoint_name t) r = Inr (t', r')" for t' r'
    using that by (auto simp: governanceConfigQuerySchema_def Let_def split: if_splits option.splits)
  then show ?thesis using g(2) unfolding right_answer_def e(1) ok by (auto simp: e(2) split: sum.splits)
qed

section \<open>Properties\<close>

text \<open>C30. The route always answers, and with the configuration of the right node.  An invalid query is
  refused with status 400 and no read; a valid one makes at most one read, only at the URL it stands
  for (for a preset the configured URL of the cluster, whatever \<open>rpcUrl\<close> says; for a custom endpoint
  the trimmed \<open>rpcUrl\<close>), and is answered with a configuration that node served, now or when it was
  cached, or with status 500.  The cache keeps only such answers.  A page that asks for an endpoint
  gets a configuration of its node or an error.\<close>

theorem config_route_answers:
  assumes "cache_sound env cache" "presets_set env"
  shows "(\<exists>response cache' evs. GET env cache (Inr (endpointParam, rpcUrl)) l = (Inr (response, cache'), l @ evs) \<and>
      cache_sound env cache' \<and> right_answer env endpointParam rpcUrl response evs) \<and>
    (\<forall>dto cache' l'. useGovernanceConfig env cache t url l = (Inr (dto, cache'), l') \<longrightarrow>
      served_by env (effective_url env t (Some url)) dto)"
  using GET_run [OF assms] page_config [OF assms] by blast

definition sample_config_env :: config_env where
  "sample_config_env = \<lparr>cf_chain = http_env answer_404, cf_account = \<lambda>l u p. Inl (JsError (js ''not found'')),
     cf_valid_url = \<lambda>u. True, cf_enum_message = \<lambda>s. js ''Invalid option''\<rparr>"

theorem config_route_answers_witness:
  "\<exists>response cache' evs. GET sample_config_env Map.empty (Inr (Some (js ''localnet''), None)) [] = (Inr (response, cache'), evs) \<and>
     response = ConfigError 400 (js ''Invalid option'') \<and> evs = []"
proof -
  have "cache_sound sample_config_env Map.empty" by (simp add: cache_sound_def)
  moreover have "presets_set sample_config_env"
  proof -
    have "effective_url sample_config_env e None \<noteq> []" if "e \<noteq> CustomEndpoint" for e
      using that by (cases e) (simp_all add: effective_url_def sample_config_env_def RPC_URLS_def http_env_def getRpcUrls_def
          DEFAULT_RPC_URLS_def or_default_def)
    then show ?thesis by (simp add: presets_set_def)
  qed
  ultimately obtain response cache' evs where
    "GET sample_config_env Map.empty (Inr (Some (js ''localnet''), None)) [] = (Inr (response, cache'), [] @ evs)"
    "right_answer sample_config_env (Some (js ''localnet'')) None response evs"
    using config_route_answers by blast
  moreover have "governanceConfigQuerySchema sample_config_env (js ''localnet'') None = Inl (js ''Invalid option'')"
    by (simp add: governanceConfigQuerySchema_def parse_endpoint_def sample_config_env_def js_str)
  ultimately show ?thesis by (simp add: right_answer_def or_default_def)
qed

end
