(* ===== verification/Sentry_Filters.thy ===== *)
theory Sentry_Filters
  imports Regex
begin

text \<open>
  The filter of error reports (\<open>frontend/src/lib/sentryFilters.ts\<close>): crashes inside scripts that
  browser extensions inject are not reported, anything that may be ours is.  An event carries the
  chain of its exceptions, each with its mechanism and the file names of its frames.
\<close>

section \<open>Events\<close>

record mechanism =
  me_handled :: "bool option"
  me_parent_id :: "number option"

record exception_value =
  ex_mechanism :: "mechanism option"
  ex_filenames :: "jsstr option list"

type_synonym sentry_event = "exception_value list option"

section \<open>Operations\<close>

definition UNATTRIBUTABLE_FILENAMES :: "jsstr list" where
  "UNATTRIBUTABLE_FILENAMES = map js [''<anonymous>'', ''[native code]'', ''native'']"

definition alts :: "string list \<Rightarrow> re" where
  "alts ws = foldr (\<lambda>w r. Alt (word_ci w) r) (butlast ws) (word_ci (last ws))"

definition THIRD_PARTY_FILENAME_PATTERNS :: "re list" where
  "THIRD_PARTY_FILENAME_PATTERNS =
     [Cat (Bol False) (seq_re [word_ci ''app:///'', plus_re (Chr (\<lambda>c. c \<noteq> 47)), word_ci ''.js'', Eol False]),
      Cat (Bol False) (seq_re [word_ci ''app:///executors/'', plus_re digit, word_ci ''.js'', Eol False]),
      Cat (Bol False) (seq_re [alts [''chrome'', ''moz'', ''safari-web'', ''safari'', ''ms-browser'', ''opera''], word_ci ''-extension://'']),
      Cat (Bol False) (word_ci ''webkit-masked-url://''),
      Cat (Bol False) (seq_re [alts [''chrome'', ''resource'', ''extensions''], word_ci ''://'']),
      Cat (Bol False) (seq_re [plus_re (Chr (\<lambda>c. c \<noteq> 47 \<and> c \<noteq> 58 \<and> c \<noteq> 63 \<and> c \<noteq> 35)), word_ci ''.js'', Eol False])]"

text \<open>\<open>filename.replace(/[?#].*$/, "")\<close>.\<close>

definition QUERY_OR_FRAGMENT :: re where
  "QUERY_OR_FRAGMENT = seq_re [Chr (\<lambda>c. c = 63 \<or> c = 35), star any_char, Eol False]"

definition strip_query :: "jsstr \<Rightarrow> jsstr" where
  "strip_query s = (case re_exec QUERY_OR_FRAGMENT s of None \<Rightarrow> s | Some m \<Rightarrow> take (snd m) s @ re_rest (fst m))"

definition isThirdPartyFilename :: "jsstr \<Rightarrow> bool" where
  "isThirdPartyFilename filename =
     (let path = strip_query filename in list_ex (\<lambda>pattern. re_test pattern path) THIRD_PARTY_FILENAME_PATTERNS)"

definition getRootException :: "sentry_event \<Rightarrow> exception_value option" where
  "getRootException ev =
     (case ev of None \<Rightarrow> None
      | Some values \<Rightarrow>
          if values = [] then None
          else (case List.find (\<lambda>v. Option.bind (ex_mechanism v) me_parent_id = None) (rev values) of
                  Some v \<Rightarrow> Some v | None \<Rightarrow> Some (last values)))"

definition attributableFilenames :: "sentry_event \<Rightarrow> jsstr list" where
  "attributableFilenames ev =
     (let values = (case ev of Some vs \<Rightarrow> vs | None \<Rightarrow> []);
          names = concat (map ex_filenames values)
      in filter (\<lambda>f. f \<noteq> [] \<and> f \<notin> set UNATTRIBUTABLE_FILENAMES) (map the (filter (\<lambda>f. f \<noteq> None) names)))"

definition isThirdPartyScriptError :: "sentry_event \<Rightarrow> bool" where
  "isThirdPartyScriptError ev =
     (case getRootException ev of
        None \<Rightarrow> False
      | Some rootEx \<Rightarrow>
          if Option.bind (ex_mechanism rootEx) me_handled \<noteq> Some False then False
          else let filenames = attributableFilenames ev
               in if filenames = [] then False else list_all isThirdPartyFilename filenames)"

section \<open>Matches\<close>

text \<open>A one-or-more repetition of a character class consumes a non-empty run of it.\<close>

lemma plus_chr:
  assumes "st' \<in> set (re_match (plus_re (Chr P)) st)"
  shows "\<exists>w. w \<noteq> [] \<and> list_all P w \<and> re_rest st = w @ re_rest st'"
proof -
  have e: "re_match (Chr P) = step_chr P" by (simp add: fun_eq_iff)
  obtain m where m: "m \<in> set (times 1 (step_chr P) st)" "st' \<in> set (upto_times (length (re_rest st)) True (step_chr P) m)"
    using assms by (auto simp: plus_re_def repeat_re_def Let_def e)
  obtain u where u: "extends st m u" "list_all P u" "length u = 1" using times_chr [OF m(1)] by blast
  obtain v where v: "extends m st' v" "list_all P v" using upto_chr [OF m(2)] by blast
  show ?thesis using u v by (intro exI [of _ "u @ v"]) (auto simp: extends_def)
qed

lemma ci_head: "st' \<in> set (re_match (ci c) st) \<Longrightarrow> \<exists>x t. re_rest st = x # t \<and> ascii_fold [x] = ascii_fold [code c] \<and> re_rest st' = t"
  by (auto simp: ci_def step_chr_iff)

text \<open>A run of a class that must end before a dot cannot end inside a stretch without dots that is
  followed by a character outside the class.\<close>

lemma run_then_dot:
  assumes "re_rest st = u @ y # t" "\<not> P y" "list_all (\<lambda>c. c \<noteq> 46) (u @ [y])"
  shows "re_match (seq_re [plus_re (Chr P), word_ci (CHR ''.'' # s), r]) st = []"
proof (rule ccontr)
  assume "re_match (seq_re [plus_re (Chr P), word_ci (CHR ''.'' # s), r]) st \<noteq> []"
  then obtain st'' where "st'' \<in> set (re_match (seq_re [plus_re (Chr P), word_ci (CHR ''.'' # s), r]) st)"
    using last_in_set by blast
  then obtain m st' where m: "m \<in> set (re_match (plus_re (Chr P)) st)" "st' \<in> set (re_match (ci CHR ''.'') m)"
    by (auto simp: word_ci_def)
  obtain w where w: "w \<noteq> []" "list_all P w" "re_rest st = w @ re_rest m" using plus_chr [OF m(1)] by blast
  obtain x t' where x: "re_rest m = x # t'" "ascii_fold [x] = ascii_fold [46]"
    using ci_head [OF m(2)] by auto
  have dot: "x = 46" using x(2) by (auto simp: ascii_fold_def is_upper_def split: if_splits)
  have eq: "w @ x # t' = u @ y # t" using w(3) assms(1) x(1) by simp
  then obtain v where "w = u @ v \<and> v @ x # t' = y # t \<or> w @ v = u \<and> x # t' = v @ y # t"
    by (auto simp: append_eq_append_conv2)
  then consider "x \<in> set (u @ [y])" | "y \<in> set w" by (cases v) auto
  then show False using assms(2,3) dot w(2) by cases (auto simp: list_all_iff)
qed

lemma search_position:
  "re_search_from r bef s = Some (st, n) \<Longrightarrow>
   \<exists>i\<le>length s. n = length bef + i \<and> st \<in> set (re_match r \<lparr>re_before = rev (take i s) @ bef, re_rest = drop i s, re_groups = []\<rparr>)"
proof (induction s arbitrary: bef)
  case Nil
  then show ?case by (subst (asm) re_search_from.simps) (auto split: list.splits)
next
  case (Cons c s)
  show ?case
  proof (cases "re_match r \<lparr>re_before = bef, re_rest = c # s, re_groups = []\<rparr>")
    case Nil
    then have "re_search_from r (c # bef) s = Some (st, n)" using Cons.prems by (subst (asm) re_search_from.simps) simp
    from Cons.IH [OF this] obtain i where "i \<le> length s" "n = length (c # bef) + i"
      "st \<in> set (re_match r \<lparr>re_before = rev (take i s) @ c # bef, re_rest = drop i s, re_groups = []\<rparr>)" by blast
    then show ?thesis by (intro exI [of _ "Suc i"]) simp
  next
    case (Cons a list)
    then have "n = length bef" "st = a" using Cons.prems by (subst (asm) re_search_from.simps; simp)+
    then show ?thesis using Cons by (intro exI [of _ 0]) simp
  qed
qed

text \<open>The path keeps whatever comes before the first question mark or hash.\<close>

lemma strip_query_prefix:
  assumes "list_all (\<lambda>c. c \<noteq> 63 \<and> c \<noteq> 35) u"
  shows "\<exists>t. strip_query (u @ s) = u @ t"
proof (cases "re_exec QUERY_OR_FRAGMENT (u @ s)")
  case None
  then show ?thesis by (simp add: strip_query_def)
next
  case (Some m)
  obtain st n where m: "m = (st, n)" by force
  obtain i where i: "i \<le> length (u @ s)" "n = i"
    "st \<in> set (re_match QUERY_OR_FRAGMENT \<lparr>re_before = rev (take i (u @ s)), re_rest = drop i (u @ s), re_groups = []\<rparr>)"
    using search_position [of QUERY_OR_FRAGMENT "[]" "u @ s" st n] Some m by (auto simp: re_exec_def)
  obtain c t where c: "drop i (u @ s) = c # t" "c = 63 \<or> c = 35"
    using i(3) by (auto simp: QUERY_OR_FRAGMENT_def step_chr_iff)
  have "length u \<le> i"
  proof (rule ccontr)
    assume "\<not> length u \<le> i"
    then have "c = u ! i" "i < length u" using c(1) by (metis nth_via_drop not_le nth_append, simp)
    then show False using assms c(2) by (auto simp: list_all_length)
  qed
  then have "take n (u @ s) @ re_rest st = u @ take (i - length u) s @ re_rest st" using i(2) by simp
  then show ?thesis by (simp add: strip_query_def Some m)
qed

section \<open>Our own scripts\<close>

text \<open>The files of the application are served below \<open>app:///_next/\<close>.\<close>

definition own_script :: "jsstr \<Rightarrow> bool" where
  "own_script f \<longleftrightarrow> (\<exists>t. f = js ''app:///_next/'' @ t)"

lemmas match_defs = word_ci_def ci_def step_chr_def ascii_fold_def is_upper_def js_def alts_def

lemma test_anchored: "re_test (Cat (Bol False) r) s \<longleftrightarrow> re_match r \<lparr>re_before = [], re_rest = s, re_groups = []\<rparr> \<noteq> []"
  unfolding re_test_def re_exec_anchored by (auto split: list.splits)

lemma own_script_patterns:
  assumes "pattern \<in> set THIRD_PARTY_FILENAME_PATTERNS"
  shows "\<not> re_test pattern (js ''app:///_next/'' @ t)"
proof -
  let ?st = "\<lparr>re_before = [], re_rest = js ''app:///_next/'' @ t, re_groups = []\<rparr>"
  have 1: "re_match (seq_re [word_ci ''app:///'', plus_re (Chr (\<lambda>c. c \<noteq> 47)), word_ci ''.js'', Eol False]) ?st = []"
  proof -
    let ?st' = "\<lparr>re_before = rev (js ''app:///''), re_rest = js ''_next/'' @ t, re_groups = []\<rparr>"
    have "re_match (word_ci ''app:///'') ?st = [?st']" by (simp add: match_defs)
    moreover have "re_match (seq_re [plus_re (Chr (\<lambda>c. c \<noteq> 47)), word_ci ''.js'', Eol False]) ?st' = []"
      by (rule run_then_dot [where u = "js ''_next''" and y = 47 and t = t]) (simp_all add: js_def)
    ultimately show ?thesis by (simp add: seq_re.simps(2) [of "word_ci ''app:///''"] del: seq_re.simps)
  qed
  have 6: "re_match (seq_re [plus_re (Chr (\<lambda>c. c \<noteq> 47 \<and> c \<noteq> 58 \<and> c \<noteq> 63 \<and> c \<noteq> 35)), word_ci ''.js'', Eol False]) ?st = []"
    by (rule run_then_dot [where u = "js ''app''" and y = 58 and t = "js ''///_next/'' @ t"]) (simp_all add: js_def)
  have 2: "re_match (seq_re [word_ci ''app:///executors/'', plus_re digit, word_ci ''.js'', Eol False]) ?st = []"
    by (simp add: match_defs)
  have 3: "re_match (seq_re [alts [''chrome'', ''moz'', ''safari-web'', ''safari'', ''ms-browser'', ''opera''], word_ci ''-extension://'']) ?st = []"
    by (simp add: match_defs)
  have 4: "re_match (word_ci ''webkit-masked-url://'') ?st = []"
    by (simp add: match_defs)
  have 5: "re_match (seq_re [alts [''chrome'', ''resource'', ''extensions''], word_ci ''://'']) ?st = []"
    by (simp add: match_defs)
  show ?thesis using assms 1 2 3 4 5 6 unfolding THIRD_PARTY_FILENAME_PATTERNS_def
    by (auto simp only: test_anchored set_simps insert_iff empty_iff)
qed

lemma own_script_kept: "own_script f \<Longrightarrow> \<not> isThirdPartyFilename f"
proof -
  assume "own_script f"
  then obtain t where f: "f = js ''app:///_next/'' @ t" by (auto simp: own_script_def)
  have "list_all (\<lambda>c. c \<noteq> 63 \<and> c \<noteq> 35) (js ''app:///_next/'')" by (simp add: js_def)
  from strip_query_prefix [OF this] obtain t' where "strip_query f = js ''app:///_next/'' @ t'" unfolding f by blast
  then show ?thesis using own_script_patterns by (auto simp: isThirdPartyFilename_def Let_def list_ex_iff)
qed

definition crash :: "string \<Rightarrow> sentry_event" where
  "crash f = Some [\<lparr>ex_mechanism = Some \<lparr>me_handled = Some False, me_parent_id = None\<rparr>, ex_filenames = [Some (js f)]\<rparr>]"

text \<open>A provider script injected by a wallet is recognised.\<close>

lemma injected_script_dropped: "isThirdPartyScriptError (crash ''app:///inpage.js'')"
  by code_simp

text \<open>C33. Errors that may be ours are always reported.  An event is dropped only when the exception
  that was thrown was not handled and at least one frame names a script; an event in which any frame
  of any exception of the chain names a file of the application is never dropped, whatever query or
  fragment the file name carries; and a crash of an injected provider script is dropped.\<close>

theorem own_errors_reported:
  "(isThirdPartyScriptError ev \<longrightarrow>
      (\<exists>rootEx m. getRootException ev = Some rootEx \<and> ex_mechanism rootEx = Some m \<and> me_handled m = Some False) \<and>
      attributableFilenames ev \<noteq> []) \<and>
   ((\<exists>values value f. ev = Some values \<and> value \<in> set values \<and> Some f \<in> set (ex_filenames value) \<and> own_script f) \<longrightarrow>
      \<not> isThirdPartyScriptError ev) \<and>
   isThirdPartyScriptError (crash ''app:///inpage.js'')"
proof (intro conjI impI)
  show "isThirdPartyScriptError (crash ''app:///inpage.js'')" by (rule injected_script_dropped)
next
  assume "isThirdPartyScriptError ev"
  then show "\<exists>rootEx m. getRootException ev = Some rootEx \<and> ex_mechanism rootEx = Some m \<and> me_handled m = Some False"
    "attributableFilenames ev \<noteq> []"
    by (auto simp: isThirdPartyScriptError_def Let_def bind_eq_Some_conv split: option.splits if_splits)
next
  assume "\<exists>values value f. ev = Some values \<and> value \<in> set values \<and> Some f \<in> set (ex_filenames value) \<and> own_script f"
  then obtain vs v f where v: "ev = Some vs" "v \<in> set vs" "Some f \<in> set (ex_filenames v)" "own_script f" by blast
  have "f \<noteq> [] \<and> f \<notin> set UNATTRIBUTABLE_FILENAMES"
    using v(4) by (auto simp: own_script_def UNATTRIBUTABLE_FILENAMES_def js_def)
  then have "f \<in> set (attributableFilenames ev)"
    using v by (force simp: attributableFilenames_def Let_def)
  then show "\<not> isThirdPartyScriptError ev"
    using own_script_kept [OF v(4)] by (auto simp: isThirdPartyScriptError_def Let_def list_all_iff split: option.splits if_splits)
qed

theorem own_errors_reported_witness:
  "\<not> isThirdPartyScriptError (crash ''app:///_next/static/chunks/1.js?v=2'')"
proof -
  have "own_script (js ''app:///_next/static/chunks/1.js?v=2'')"
    by (simp add: own_script_def js_def)
  then show ?thesis using own_errors_reported [of "crash ''app:///_next/static/chunks/1.js?v=2''"]
    by (simp add: crash_def)
qed

end
