(* ===== verification/Wallet_Roles.thy ===== *)
theory Wallet_Roles
  imports Chain_Env Regex
begin

text \<open>
  What a connected wallet may do (\<open>frontend/src/lib/governance/role-detection.ts\<close>,
  \<open>hooks/useWalletRole.ts\<close>, \<open>hooks/useChainVoteAccounts.ts\<close>, \<open>hooks/useChainVoteAccount.ts\<close>) and
  which signing failures are cancellations by the user (\<open>lib/walletSigning.ts\<close>).
\<close>

section \<open>Roles\<close>

datatype wallet_role = RoleValidator | RoleStaker | RoleBoth | RoleNone

datatype view_type = ValidatorView | StakerView

definition mapChainVoteAccountDto :: "vote_account_info \<Rightarrow> chain_vote_account" where
  "mapChainVoteAccountDto v = \<lparr>cv_activeStake = va_activatedStake v, cv_voteAccount = va_votePubkey v, cv_nodePubkey = va_nodePubkey v\<rparr>"

definition useChainVoteAccounts :: "vote_account_info list \<Rightarrow> chain_vote_account list" where
  "useChainVoteAccounts current = map mapChainVoteAccountDto current"

definition useChainVoteAccount :: "chain_vote_account list \<Rightarrow> jsstr \<Rightarrow> chain_vote_account option" where
  "useChainVoteAccount accounts userPubKey = List.find (\<lambda>a. cv_nodePubkey a = userPubKey) accounts"

definition hasOnChainValidatorIdentity :: "chain_vote_account option \<Rightarrow> bool" where
  "hasOnChainValidatorIdentity a \<longleftrightarrow> a \<noteq> None"

definition determineWalletRole :: "'a list option \<Rightarrow> chain_vote_account option \<Rightarrow> wallet_role" where
  "determineWalletRole stakeAccounts chainVoteAccount =
     (let hasStake = (case stakeAccounts of Some s \<Rightarrow> s \<noteq> [] | None \<Rightarrow> False);
          hasIdentity = hasOnChainValidatorIdentity chainVoteAccount
      in if hasStake \<and> hasIdentity then RoleBoth
         else if hasIdentity then RoleValidator
         else if hasStake then RoleStaker
         else RoleStaker)"

definition getVoteModalNames :: "chain_vote_account option \<Rightarrow> jsstr \<times> jsstr" where
  "getVoteModalNames a =
     (if hasOnChainValidatorIdentity a then (js ''cast-vote'', js ''modify-vote'')
      else (js ''override-vote'', js ''modify-override-vote''))"

definition getDefaultView :: "wallet_role \<Rightarrow> view_type option" where
  "getDefaultView role =
     (case role of RoleValidator \<Rightarrow> Some ValidatorView | RoleStaker \<Rightarrow> Some StakerView
      | RoleBoth \<Rightarrow> Some ValidatorView | RoleNone \<Rightarrow> None)"

text \<open>The state of the hook and its effect, which runs when the queries or their data change.\<close>

record role_state =
  rs_walletRole :: wallet_role
  rs_selectedView :: "view_type option"

definition initial_role :: role_state where
  "initial_role = \<lparr>rs_walletRole = RoleStaker, rs_selectedView = Some StakerView\<rparr>"

definition role_effect :: "bool \<Rightarrow> 'a list option \<Rightarrow> chain_vote_account option \<Rightarrow> role_state \<Rightarrow> role_state" where
  "role_effect isLoading data chainVoteAccount st =
     (case data of
        None \<Rightarrow> st
      | Some stake_accounts \<Rightarrow>
          if isLoading then st
          else let role = determineWalletRole (Some stake_accounts) chainVoteAccount
               in \<lparr>rs_walletRole = role, rs_selectedView = getDefaultView role\<rparr>)"

section \<open>Cancelled signatures\<close>

text \<open>A thrown value: an object with the properties the check reads, or something else.\<close>

datatype js_value = StrVal jsstr | NumVal number | OtherVal

record thrown_object =
  th_code :: js_value
  th_message :: js_value
  th_name :: js_value

definition WALLET_SIGNING_CANCELLED_MESSAGE :: jsstr where
  "WALLET_SIGNING_CANCELLED_MESSAGE = js ''Transaction approval cancelled''"

definition WALLET_SIGNING_ERROR_NAMES :: "jsstr list" where
  "WALLET_SIGNING_ERROR_NAMES = map js [''WalletSignTransactionError'', ''WalletSignAllTransactionsError'', ''WalletSendTransactionError'']"

definition WALLET_CANCELLATION_MESSAGE :: re where
  "WALLET_CANCELLATION_MESSAGE =
     Alt (word_ci ''approval denied'') (Alt (word_ci ''popup closed'')
       (Alt (Cat (word_ci ''user '') (Alt (word_ci ''rejected'') (word_ci ''denied'')))
         (Alt (word_ci ''request rejected'')
           (seq_re [Alt (word_ci ''transaction'') (word_ci ''request''), word_ci '' '',
                    Alt (word_ci ''cancelled'') (word_ci ''canceled'')]))))"

definition isWalletSigningCancellation :: "thrown_object option \<Rightarrow> bool" where
  "isWalletSigningCancellation err =
     (case err of None \<Rightarrow> False
      | Some e \<Rightarrow>
          if (case th_code e of NumVal n \<Rightarrow> seq n (Num 4001) | StrVal s \<Rightarrow> s = js ''4001'' | OtherVal \<Rightarrow> False) then True
          else (case (th_name e, th_message e) of
                  (StrVal name, StrVal message) \<Rightarrow>
                    name \<in> set WALLET_SIGNING_ERROR_NAMES \<and> re_test WALLET_CANCELLATION_MESSAGE message
                | _ \<Rightarrow> False))"

section \<open>Laws\<close>

text \<open>A wallet is treated as a validator exactly when the node lists a vote account of it, in the
  role, in the view it starts with and in the dialogs it votes with.\<close>

lemma role_follows_identity:
  fixes stake :: "'a list option"
  assumes a: "a = useChainVoteAccount (useChainVoteAccounts current) user"
  shows "determineWalletRole stake a \<in> {RoleValidator, RoleBoth} \<longleftrightarrow> user \<in> va_nodePubkey ` set current"
    and "getDefaultView (determineWalletRole stake a) = Some ValidatorView \<longleftrightarrow> user \<in> va_nodePubkey ` set current"
    and "fst (getVoteModalNames a) = js ''cast-vote'' \<longleftrightarrow> user \<in> va_nodePubkey ` set current"
proof -
  have "a \<noteq> None \<longleftrightarrow> user \<in> va_nodePubkey ` set current"
    unfolding a useChainVoteAccount_def useChainVoteAccounts_def find_None_iff
    by (auto simp: mapChainVoteAccountDto_def intro: rev_image_eqI)
  then show "determineWalletRole stake a \<in> {RoleValidator, RoleBoth} \<longleftrightarrow> user \<in> va_nodePubkey ` set current"
    "getDefaultView (determineWalletRole stake a) = Some ValidatorView \<longleftrightarrow> user \<in> va_nodePubkey ` set current"
    "fst (getVoteModalNames a) = js ''cast-vote'' \<longleftrightarrow> user \<in> va_nodePubkey ` set current"
    by (auto simp: determineWalletRole_def getDefaultView_def getVoteModalNames_def hasOnChainValidatorIdentity_def Let_def
        split: option.splits)
qed

text \<open>A failure that names no signing error and carries no code of a cancellation is reported.\<close>

lemma other_failures_reported:
  assumes "th_code e = OtherVal" "th_name e \<notin> StrVal ` set WALLET_SIGNING_ERROR_NAMES"
  shows "\<not> isWalletSigningCancellation (Some e)"
  using assms by (auto simp: isWalletSigningCancellation_def split: js_value.splits)

end
