(* ===== verification/Dialogs.thy ===== *)
theory Dialogs
  imports Vote_Instructions Wallet_Roles
begin

text \<open>
  What the dialogs of \<open>frontend/src/components/modals\<close> have in common.  A dialog is a state with
  handlers: pressing its button, an edit by the user, and the callbacks with which the mutation
  library reports the outcome of a submission.  A handler returns the new state and the calls it makes
  to the outside, in order: notifications, error reports, closing the dialog, and the mutation itself.
  A session of a dialog is any interleaving of these events; a callback runs only for a mutation that
  is in flight.
\<close>

section \<open>Effects\<close>

datatype dialog_effect =
    ToastSuccess jsstr
  | ToastError jsstr
  | ToastInfo jsstr
  | CaptureException js_error
  | OnClose
  | MutateVote vote_kind vote_params
  | MutateOverride vote_kind vote_override_params
  | MutateSupport support_params
  | MutateCreate create_proposal_params

fun is_mutation :: "dialog_effect \<Rightarrow> bool" where
  "is_mutation (MutateVote k p) = True"
| "is_mutation (MutateOverride k p) = True"
| "is_mutation (MutateSupport p) = True"
| "is_mutation (MutateCreate p) = True"
| "is_mutation _ = False"

definition mutations :: "dialog_effect list \<Rightarrow> nat" where
  "mutations effs = length (filter is_mutation effs)"

lemma mutations_simps [simp]:
  "mutations [] = 0" "mutations (e # effs) = (if is_mutation e then Suc (mutations effs) else mutations effs)"
  "mutations (effs @ effs') = mutations effs + mutations effs'"
  by (auto simp: mutations_def)

text \<open>An error that reaches a dialog, with the \<open>code\<close> property a wallet may have put on it.\<close>

record mutation_error =
  me_error :: js_error
  me_code :: js_value

definition thrown_of :: "mutation_error \<Rightarrow> thrown_object" where
  "thrown_of e = \<lparr>th_code = me_code e, th_message = StrVal (err_message (me_error e)), th_name = StrVal (err_name (me_error e))\<rparr>"

datatype outcome = MutationSucceeded | MutationFailed mutation_error

text \<open>A string value that may be missing, as a condition and in a template.\<close>

definition is_set :: "jsstr option \<Rightarrow> bool" where
  "is_set x \<longleftrightarrow> x \<noteq> None \<and> x \<noteq> Some []"

definition template_opt :: "jsstr option \<Rightarrow> jsstr" where
  "template_opt x = (case x of Some s \<Rightarrow> s | None \<Rightarrow> js ''undefined'')"

section \<open>Sessions\<close>

inductive dialog_session ::
  "('e \<Rightarrow> 's \<Rightarrow> 's \<times> dialog_effect list) \<Rightarrow> (outcome \<Rightarrow> 's \<Rightarrow> 's \<times> dialog_effect list) \<Rightarrow>
   ('u \<Rightarrow> 's \<Rightarrow> 's \<times> dialog_effect list) \<Rightarrow> 's \<Rightarrow> 's \<Rightarrow> nat \<Rightarrow> dialog_effect list \<Rightarrow> bool"
  for press settle edit s0 where
  opened: "dialog_session press settle edit s0 s0 0 []"
| pressed: "dialog_session press settle edit s0 s k trail \<Longrightarrow> press e s = (s', effs) \<Longrightarrow>
    dialog_session press settle edit s0 s' (k + mutations effs) (trail @ effs)"
| settled: "dialog_session press settle edit s0 s (Suc k) trail \<Longrightarrow> settle r s = (s', effs) \<Longrightarrow>
    dialog_session press settle edit s0 s' (k + mutations effs) (trail @ effs)"
| edited: "dialog_session press settle edit s0 s k trail \<Longrightarrow> edit u s = (s', effs) \<Longrightarrow>
    dialog_session press settle edit s0 s' (k + mutations effs) (trail @ effs)"

text \<open>
  The contract of a form that submits: while it is busy its button does nothing, a press submits at
  most once and leaves the form busy if it does, a callback makes it idle again, and no edit submits.
\<close>

locale submit_form =
  fixes press :: "'e \<Rightarrow> 's \<Rightarrow> 's \<times> dialog_effect list"
    and settle :: "outcome \<Rightarrow> 's \<Rightarrow> 's \<times> dialog_effect list"
    and edit :: "'u \<Rightarrow> 's \<Rightarrow> 's \<times> dialog_effect list"
    and busy :: "'s \<Rightarrow> bool"
  assumes press_busy: "busy s \<Longrightarrow> press e s = (s, [])"
    and press_once: "press e s = (s', effs) \<Longrightarrow> mutations effs \<le> 1 \<and> (mutations effs = 1 \<longrightarrow> busy s')"
    and settle_idle: "settle r s = (s', effs) \<Longrightarrow> mutations effs = 0 \<and> \<not> busy s'"
    and edit_keeps: "edit u s = (s', effs) \<Longrightarrow> mutations effs = 0 \<and> busy s' = busy s"
begin

lemma one_in_flight:
  assumes "dialog_session press settle edit s0 s k trail" "\<not> busy s0"
  shows "k \<le> 1 \<and> (k = 1 \<longrightarrow> busy s)"
  using assms
proof induction
  case (pressed s k trail e s' effs)
  then show ?case using press_busy [of s e] press_once [of e s s' effs] by (cases "k = 1") auto
next
  case (settled s k trail r s' effs)
  then show ?case using settle_idle [of r s s' effs] by auto
next
  case (edited s k trail u s' effs)
  then show ?case using edit_keeps [of u s s' effs] by auto
qed simp

text \<open>A form that is busy without a mutation in flight stays busy, whatever the user does.\<close>

lemma stuck_forever:
  assumes "dialog_session press settle edit s0 s k trail" "busy s0"
  shows "busy s \<and> k = 0 \<and> mutations trail = 0"
  using assms
proof induction
  case (pressed s k trail e s' effs)
  then show ?case using press_busy [of s e] by auto
next
  case (edited s k trail u s' effs)
  then show ?case using edit_keeps [of u s s' effs] by auto
qed simp_all

end

text \<open>A form that always recovers: a press leaves it busy only if it has submitted.\<close>

locale responsive_form = submit_form +
  assumes press_settles: "press e s = (s', effs) \<Longrightarrow> \<not> busy s \<Longrightarrow> busy s' \<Longrightarrow> mutations effs = 1"
begin

lemma busy_iff_in_flight:
  assumes "dialog_session press settle edit s0 s k trail" "\<not> busy s0"
  shows "busy s \<longleftrightarrow> k = 1"
  using assms
proof induction
  case (pressed s k trail e s' effs)
  then have "k \<le> 1" using one_in_flight by blast
  then show ?case using pressed press_busy [of s e] press_once [of e s s' effs] press_settles [of e s s' effs]
    by (cases "busy s") auto
next
  case (settled s k trail r s' effs)
  then have "Suc k \<le> 1" using one_in_flight [OF settled.hyps(1)] by blast
  then show ?case using settled settle_idle [of r s s' effs] by auto
next
  case (edited s k trail u s' effs)
  then show ?case using edit_keeps [of u s s' effs] by auto
qed simp

end

text \<open>A property of every state of a session, and of everything the dialog does.\<close>

locale form_invariant =
  fixes press :: "'e \<Rightarrow> 's \<Rightarrow> 's \<times> dialog_effect list"
    and settle :: "outcome \<Rightarrow> 's \<Rightarrow> 's \<times> dialog_effect list"
    and edit :: "'u \<Rightarrow> 's \<Rightarrow> 's \<times> dialog_effect list"
    and inv :: "'s \<Rightarrow> bool"
    and ok :: "dialog_effect \<Rightarrow> bool"
  assumes press_inv: "press e s = (s', effs) \<Longrightarrow> inv s \<Longrightarrow> inv s' \<and> list_all ok effs"
    and settle_inv: "settle r s = (s', effs) \<Longrightarrow> inv s \<Longrightarrow> inv s' \<and> list_all ok effs"
    and edit_inv: "edit u s = (s', effs) \<Longrightarrow> inv s \<Longrightarrow> inv s' \<and> list_all ok effs"
begin

lemma session_invariant:
  assumes "dialog_session press settle edit s0 s k trail" "inv s0"
  shows "inv s \<and> list_all ok trail"
  using assms
proof induction
  case (pressed s k trail e s' effs)
  then show ?case using press_inv [of e s s' effs] by simp
next
  case (settled s k trail r s' effs)
  then show ?case using settle_inv [of r s s' effs] by simp
next
  case (edited s k trail u s' effs)
  then show ?case using edit_inv [of u s s' effs] by simp
qed simp

end

end
