(* ===== verification/Vote_Dialogs.thy ===== *)
theory Vote_Dialogs
  imports Dialogs Vote_Distribution Account_Reads
begin

text \<open>
  The four voting dialogs: \<open>components/modals/CastVoteModal.tsx\<close>, \<open>ModifyVoteModal.tsx\<close>,
  \<open>OverrideVoteModal.tsx\<close> and \<open>ModifyOverrideVoteModal.tsx\<close>.  The state of a dialog is a record of its
  React state, the vote form of \<open>useVoteDistribution\<close> included; what its hooks return at the moment of
  an event is the record \<open>dialog_env\<close>.  A press of the submit button reaches the handler only if the
  button is enabled (the form has no other way to submit).  Writing to the console is left out.
\<close>

section \<open>State\<close>

record stake_account_data =
  sa_id :: jsstr
  sa_stakeAccount :: jsstr
  sa_activeStake :: number
  sa_voteAccount :: "jsstr option"
  sa_state :: jsstr

record dialog_env =
  de_wallet :: "wallet option"
  de_role :: wallet_role
  de_hasVoted :: "bool option"
  de_isLoadingHasVoted :: bool
  de_stakeAccounts :: "stake_account_data list option"
  de_chainVoteAccount :: "chain_vote_account option"
  de_isLoadingChainVoteAccount :: bool

record dialog_props =
  dp_proposalId :: "jsstr option"
  dp_consensusResult :: "pubkey option"
  dp_initialVoteDist :: "vote_distribution option"

record vote_dialog =
  dg_id :: "jsstr option"
  dg_consensus :: "pubkey option"
  dg_isLoading :: bool
  dg_error :: "jsstr option"
  dg_dist :: vote_distribution

record override_dialog = vote_dialog +
  dg_stake :: "jsstr option"
  dg_confirmed :: bool

record modify_override_dialog = vote_dialog +
  mo_stake :: "jsstr option"
  mo_initial :: "vote_distribution option"

text \<open>The edits all four dialogs offer; the two drop-downs call \<open>handleProposalChange\<close> and the setter of
  the stake account.\<close>

datatype dialog_edit =
    EditProposal jsstr pubkey
  | EditOption vote_option jsstr
  | EditQuick vote_option
  | EditStake jsstr
  | EditConfirm bool

fun edit_vote :: "dialog_edit \<Rightarrow> 'a vote_dialog_scheme \<Rightarrow> 'a vote_dialog_scheme" where
  "edit_vote (EditProposal p c) st = st\<lparr>dg_id := Some p, dg_consensus := Some c\<rparr>"
| "edit_vote (EditOption opt raw) st = st\<lparr>dg_dist := useVoteDistribution (dg_dist st) (OptionChange opt raw)\<rparr>"
| "edit_vote (EditQuick opt) st = st\<lparr>dg_dist := useVoteDistribution (dg_dist st) (QuickSelect opt)\<rparr>"
| "edit_vote _ st = st"

text \<open>The callbacks of a mutation.\<close>

definition NCN_PROOF_NOT_FOUND_MESSAGE :: jsstr where
  "NCN_PROOF_NOT_FOUND_MESSAGE = js (''This account had no active stake in the proposal snapshot and cannot vote. '' @
     ''If you believe this to be an error, open an issue at https://github.com/solana-foundation/solana-governance/issues/new.'')"

definition vote_handleSuccess :: "jsstr \<Rightarrow> 'a vote_dialog_scheme \<Rightarrow> 'a vote_dialog_scheme \<times> dialog_effect list" where
  "vote_handleSuccess message st = (st\<lparr>dg_isLoading := False\<rparr>, [ToastSuccess message, OnClose])"

definition vote_handleError ::
  "jsstr \<Rightarrow> mutation_error \<Rightarrow> 'a vote_dialog_scheme \<Rightarrow> 'a vote_dialog_scheme \<times> dialog_effect list" where
  "vote_handleError message err st =
     (if isNcnProofNotFound (me_error err) then
        (st\<lparr>dg_isLoading := False\<rparr>, [ToastInfo NCN_PROOF_NOT_FOUND_MESSAGE])
      else if isWalletSigningCancellation (Some (thrown_of err)) then
        (st\<lparr>dg_isLoading := False\<rparr>, [ToastInfo WALLET_SIGNING_CANCELLED_MESSAGE])
      else (st\<lparr>dg_error := Some (err_message (me_error err)), dg_isLoading := False\<rparr>,
            [CaptureException (me_error err), ToastError message]))"

fun vote_settle ::
  "jsstr \<Rightarrow> jsstr \<Rightarrow> outcome \<Rightarrow> 'a vote_dialog_scheme \<Rightarrow> 'a vote_dialog_scheme \<times> dialog_effect list" where
  "vote_settle good bad MutationSucceeded st = vote_handleSuccess good st"
| "vote_settle good bad (MutationFailed err) st = vote_handleError bad err st"

section \<open>Casting and modifying a validator vote\<close>

text \<open>The first render, the effect of \<open>useVoteDistribution\<close> that adopts the initial split, and the effect
  of the dialog that runs because it is open.  The effects of a component run in the order of the
  hooks, so that of the vote form comes first.\<close>

definition initial_dist :: "vote_distribution option \<Rightarrow> vote_distribution" where
  "initial_dist initial = (case initial of Some d \<Rightarrow> d | None \<Rightarrow> DEFAULT_DISTRIBUTION)"

definition cast_initial :: "dialog_props \<Rightarrow> vote_dialog" where
  "cast_initial props =
     \<lparr>dg_id = dp_proposalId props, dg_consensus = dp_consensusResult props, dg_isLoading = False, dg_error = None,
      dg_dist = initial_dist (dp_initialVoteDist props)\<rparr>"

definition distribution_effect :: "vote_distribution option \<Rightarrow> 'a vote_dialog_scheme \<Rightarrow> 'a vote_dialog_scheme" where
  "distribution_effect initial st = st\<lparr>dg_dist := useVoteDistribution (dg_dist st) (InitialChanged (initial_dist initial))\<rparr>"

definition cast_opened :: "dialog_props \<Rightarrow> 'a vote_dialog_scheme \<Rightarrow> 'a vote_dialog_scheme" where
  "cast_opened props st =
     st\<lparr>dg_id := dp_proposalId props, dg_consensus := dp_consensusResult props,
        dg_dist := useVoteDistribution (dg_dist st) (Reset None), dg_error := None\<rparr>"

definition cast_mount :: "dialog_props \<Rightarrow> vote_dialog" where
  "cast_mount props = cast_opened props (distribution_effect (dp_initialVoteDist props) (cast_initial props))"

definition basis_points :: "number \<Rightarrow> number" where
  "basis_points percentage = percentage * Num 100"

definition cast_handleVote ::
  "vote_kind \<Rightarrow> dialog_env \<Rightarrow> vote_distribution \<Rightarrow> vote_dialog \<Rightarrow> vote_dialog \<times> dialog_effect list" where
  "cast_handleVote kind env d st =
     (case de_wallet env of
        None \<Rightarrow> (st, [ToastError (js ''Wallet not connected'')])
      | Some w \<Rightarrow>
          if \<not> is_set (dg_id st) then (st, [ToastError (js ''No proposal ID provided'')])
          else (case dg_consensus st of
            None \<Rightarrow> (st, [ToastError (js ''Couldn't obtain consensus result'')])
          | Some c \<Rightarrow>
              (case de_role env of
                 RoleNone \<Rightarrow> (st, [ToastError (js ''You are not authorized to vote'')])
               | RoleStaker \<Rightarrow>
                   (st\<lparr>dg_error := Some (js ''Staker can only cast an override vote''), dg_isLoading := False\<rparr>,
                    [ToastError (js ''Staker can only cast an override vote'')])
               | _ \<Rightarrow>
                   (st, [MutateVote kind \<lparr>vp_proposalId = the (dg_id st), vp_forVotesBp = basis_points (vd_for d),
                           vp_againstVotesBp = basis_points (vd_against d), vp_abstainVotesBp = basis_points (vd_abstain d),
                           vp_wallet = Some w, vp_consensusResult = Some c\<rparr>]))))"

definition cast_handleSubmit :: "vote_kind \<Rightarrow> dialog_env \<Rightarrow> vote_dialog \<Rightarrow> vote_dialog \<times> dialog_effect list" where
  "cast_handleSubmit kind env st =
     (if \<not> is_set (dg_id st) \<or> \<not> isValidDistribution (dg_dist st) \<or> dg_isLoading st then (st, [])
      else cast_handleVote kind env (dg_dist st) (st\<lparr>dg_isLoading := True, dg_error := None\<rparr>))"

definition cast_handleClose :: "'a vote_dialog_scheme \<Rightarrow> 'a vote_dialog_scheme \<times> dialog_effect list" where
  "cast_handleClose st =
     (st\<lparr>dg_id := None, dg_consensus := None, dg_dist := useVoteDistribution (dg_dist st) (Reset None), dg_error := None\<rparr>,
      [OnClose])"

definition cast_disabled :: "dialog_env \<Rightarrow> vote_dialog \<Rightarrow> bool" where
  "cast_disabled env st \<longleftrightarrow>
     \<not> is_set (dg_id st) \<or> \<not> isValidDistribution (dg_dist st) \<or> de_hasVoted env = Some True \<or> dg_isLoading st \<or>
     de_isLoadingHasVoted env"

definition cast_press :: "dialog_env \<Rightarrow> vote_dialog \<Rightarrow> vote_dialog \<times> dialog_effect list" where
  "cast_press env st = (if cast_disabled env st then (st, []) else cast_handleSubmit CastKind env st)"

definition cast_settle :: "dialog_props \<Rightarrow> outcome \<Rightarrow> vote_dialog \<Rightarrow> vote_dialog \<times> dialog_effect list" where
  "cast_settle props =
     vote_settle (js ''Vote cast successfully'') (js ''Error voting for proposal '' @ template_opt (dp_proposalId props))"

text \<open>The dialog that modifies a vote differs in its texts, in the mutation, and in the requirement
  that a vote exists (\<open>hasVoted\<close> counts as true until it is known).\<close>

definition modify_handleVote :: "dialog_env \<Rightarrow> vote_distribution \<Rightarrow> vote_dialog \<Rightarrow> vote_dialog \<times> dialog_effect list" where
  "modify_handleVote = cast_handleVote ModifyKind"

definition modify_handleSubmit :: "dialog_env \<Rightarrow> vote_dialog \<Rightarrow> vote_dialog \<times> dialog_effect list" where
  "modify_handleSubmit = cast_handleSubmit ModifyKind"

definition modify_mount :: "dialog_props \<Rightarrow> vote_dialog" where
  "modify_mount = cast_mount"

definition modify_disabled :: "dialog_env \<Rightarrow> vote_dialog \<Rightarrow> bool" where
  "modify_disabled env st \<longleftrightarrow>
     \<not> is_set (dg_id st) \<or> \<not> isValidDistribution (dg_dist st) \<or> de_hasVoted env = Some False \<or> dg_isLoading st \<or>
     de_isLoadingHasVoted env"

definition modify_press :: "dialog_env \<Rightarrow> vote_dialog \<Rightarrow> vote_dialog \<times> dialog_effect list" where
  "modify_press env st = (if modify_disabled env st then (st, []) else modify_handleSubmit env st)"

definition modify_settle :: "dialog_props \<Rightarrow> outcome \<Rightarrow> vote_dialog \<Rightarrow> vote_dialog \<times> dialog_effect list" where
  "modify_settle props =
     vote_settle (js ''Vote modified successfully'')
       (js ''Error modifying vote for proposal '' @ template_opt (dp_proposalId props))"

section \<open>Casting a stake override\<close>

definition override_initial :: "dialog_props \<Rightarrow> override_dialog" where
  "override_initial props =
     \<lparr>dg_id = dp_proposalId props, dg_consensus = dp_consensusResult props, dg_isLoading = False, dg_error = None,
      dg_dist = initial_dist (dp_initialVoteDist props), dg_stake = None, dg_confirmed = False\<rparr>"

definition override_opened :: "dialog_props \<Rightarrow> override_dialog \<Rightarrow> override_dialog" where
  "override_opened props st = (cast_opened props st)\<lparr>dg_stake := None, dg_confirmed := False\<rparr>"

definition override_mount :: "dialog_props \<Rightarrow> override_dialog" where
  "override_mount props = override_opened props (distribution_effect (dp_initialVoteDist props) (override_initial props))"

definition override_params ::
  "vote_distribution \<Rightarrow> wallet \<Rightarrow> jsstr \<Rightarrow> jsstr \<Rightarrow> pubkey \<Rightarrow> vote_override_params" where
  "override_params d w p stake c =
     \<lparr>op_proposalId = p, op_forVotesBp = basis_points (vd_for d), op_againstVotesBp = basis_points (vd_against d),
      op_abstainVotesBp = basis_points (vd_abstain d), op_stakeAccount = stake, op_wallet = Some w, op_consensusResult = Some c\<rparr>"

definition override_handleVote ::
  "dialog_env \<Rightarrow> vote_distribution \<Rightarrow> override_dialog \<Rightarrow> override_dialog \<times> dialog_effect list" where
  "override_handleVote env d st =
     (let refuse = (\<lambda>message. (st\<lparr>dg_isLoading := False\<rparr>, [ToastError message])) in
      case de_wallet env of
        None \<Rightarrow> refuse (js ''Wallet not connected'')
      | Some w \<Rightarrow>
          if \<not> is_set (dg_id st) then refuse (js ''No Proposal ID provided'')
          else (case dg_consensus st of
            None \<Rightarrow> refuse (js ''Couldn't obtain consensus result'')
          | Some c \<Rightarrow>
              if de_isLoadingChainVoteAccount env then refuse (js ''Loading wallet voting identity'')
              else if hasOnChainValidatorIdentity (de_chainVoteAccount env) \<and> \<not> dg_confirmed st
                then refuse (js ''Confirm the stake override vote path before signing'')
              else if de_role env \<noteq> RoleStaker then refuse (js ''You are not authorized to override vote'')
              else if de_stakeAccounts env = None then refuse (js ''No stake accounts found'')
              else (case dg_stake st of
                 None \<Rightarrow> refuse (js ''Not able to determine stake account'')
               | Some stake \<Rightarrow> (st, [MutateOverride CastKind (override_params d w (the (dg_id st)) stake c)]))))"

definition override_handleSubmit :: "dialog_env \<Rightarrow> override_dialog \<Rightarrow> override_dialog \<times> dialog_effect list" where
  "override_handleSubmit env st =
     (if \<not> is_set (dg_id st) \<or> \<not> isValidDistribution (dg_dist st) \<or> dg_stake st = None \<or> dg_isLoading st then (st, [])
      else override_handleVote env (dg_dist st) (st\<lparr>dg_isLoading := True, dg_error := None\<rparr>))"

definition override_handleClose :: "override_dialog \<Rightarrow> override_dialog \<times> dialog_effect list" where
  "override_handleClose st =
     (let (st', effs) = cast_handleClose st in (st'\<lparr>dg_stake := Some [], dg_confirmed := False\<rparr>, effs))"

definition override_disabled :: "dialog_env \<Rightarrow> override_dialog \<Rightarrow> bool" where
  "override_disabled env st \<longleftrightarrow>
     \<not> is_set (dg_id st) \<or> \<not> isValidDistribution (dg_dist st) \<or> dg_stake st = None \<or>
     de_isLoadingChainVoteAccount env \<or>
     (hasOnChainValidatorIdentity (de_chainVoteAccount env) \<and> \<not> dg_confirmed st) \<or> dg_isLoading st"

definition override_press :: "dialog_env \<Rightarrow> override_dialog \<Rightarrow> override_dialog \<times> dialog_effect list" where
  "override_press env st = (if override_disabled env st then (st, []) else override_handleSubmit env st)"

definition override_settle :: "dialog_props \<Rightarrow> outcome \<Rightarrow> override_dialog \<Rightarrow> override_dialog \<times> dialog_effect list" where
  "override_settle props =
     vote_settle (js ''Vote cast successfully'') (js ''Error voting for proposal '' @ template_opt (dp_proposalId props))"

fun override_edit :: "dialog_edit \<Rightarrow> override_dialog \<Rightarrow> override_dialog" where
  "override_edit (EditStake s) st = st\<lparr>dg_stake := Some s\<rparr>"
| "override_edit (EditConfirm b) st = st\<lparr>dg_confirmed := b\<rparr>"
| "override_edit u st = edit_vote u st"

section \<open>Modifying a stake override\<close>

definition modify_override_initial :: "dialog_props \<Rightarrow> modify_override_dialog" where
  "modify_override_initial props =
     \<lparr>dg_id = dp_proposalId props, dg_consensus = dp_consensusResult props, dg_isLoading = False, dg_error = None,
      dg_dist = DEFAULT_DISTRIBUTION, mo_stake = None, mo_initial = None\<rparr>"

definition modify_override_opened :: "dialog_props \<Rightarrow> modify_override_dialog \<Rightarrow> modify_override_dialog" where
  "modify_override_opened props st = (cast_opened props st)\<lparr>mo_stake := None\<rparr>"

definition modify_override_mount :: "dialog_props \<Rightarrow> modify_override_dialog" where
  "modify_override_mount props =
     modify_override_opened props (distribution_effect None (modify_override_initial props))"

text \<open>The effect that looks up the stored vote of the selected stake account.  When it finds one, the
  initial split of the form changes, and the effect of the form adopts it.\<close>

definition stored_distribution :: "chain_env \<Rightarrow> vote_override_data \<Rightarrow> js_error + vote_distribution" where
  "stored_distribution env v =
     res_bind (bn_toNumber env (vo_forVotesBp v)) (\<lambda>f.
     res_bind (bn_toNumber env (vo_againstVotesBp v)) (\<lambda>a.
     res_bind (bn_toNumber env (vo_abstainVotesBp v)) (\<lambda>b.
       Inr \<lparr>vd_for = f / Num 100, vd_against = a / Num 100, vd_abstain = b / Num 100\<rparr>)))"

definition stored_vote_effect ::
  "chain_env \<Rightarrow> vote_override_data list \<Rightarrow> modify_override_dialog \<Rightarrow> js_error + modify_override_dialog" where
  "stored_vote_effect env overrides st =
     (if \<not> is_set (mo_stake st) then Inr st
      else case List.find (\<lambda>v. Some (toBase58 env (vo_stakeAccount v)) = mo_stake st) overrides of
             None \<Rightarrow> Inr st
           | Some v \<Rightarrow> res_bind (stored_distribution env v) (\<lambda>d.
               Inr (distribution_effect (Some d) (st\<lparr>mo_initial := Some d\<rparr>))))"

definition modify_override_handleVote ::
  "dialog_env \<Rightarrow> vote_distribution \<Rightarrow> modify_override_dialog \<Rightarrow> modify_override_dialog \<times> dialog_effect list" where
  "modify_override_handleVote env d st =
     (let refuse = (\<lambda>message. (st\<lparr>dg_isLoading := False\<rparr>, [ToastError message])) in
      case de_wallet env of
        None \<Rightarrow> refuse (js ''Wallet not connected'')
      | Some w \<Rightarrow>
          if \<not> is_set (dg_id st) then refuse (js ''No proposal ID provided'')
          else (case dg_consensus st of
            None \<Rightarrow> refuse (js ''Couldn't obtain consensus result'')
          | Some c \<Rightarrow>
              if de_role env \<noteq> RoleStaker then (st, [ToastError (js ''You are not authorized to override vote'')])
              else if de_stakeAccounts env = None then refuse (js ''No stake accounts found'')
              else (case mo_stake st of
                 None \<Rightarrow> refuse (js ''Not able to determine stake account'')
               | Some stake \<Rightarrow> (st, [MutateOverride ModifyKind (override_params d w (the (dg_id st)) stake c)]))))"

definition modify_override_handleSubmit ::
  "dialog_env \<Rightarrow> modify_override_dialog \<Rightarrow> modify_override_dialog \<times> dialog_effect list" where
  "modify_override_handleSubmit env st =
     (if \<not> is_set (dg_id st) \<or> \<not> isValidDistribution (dg_dist st) \<or> mo_stake st = None \<or> dg_isLoading st then (st, [])
      else modify_override_handleVote env (dg_dist st) (st\<lparr>dg_isLoading := True, dg_error := None\<rparr>))"

definition modify_override_handleClose :: "modify_override_dialog \<Rightarrow> modify_override_dialog \<times> dialog_effect list" where
  "modify_override_handleClose st =
     (let (st', effs) = cast_handleClose st in (st'\<lparr>mo_stake := Some []\<rparr>, effs))"

definition modify_override_press :: "dialog_env \<Rightarrow> modify_override_dialog \<Rightarrow> modify_override_dialog \<times> dialog_effect list" where
  "modify_override_press env st =
     (if \<not> is_set (dg_id st) \<or> \<not> isValidDistribution (dg_dist st) \<or> mo_stake st = None \<or> dg_isLoading st then (st, [])
      else modify_override_handleSubmit env st)"

definition modify_override_settle ::
  "dialog_props \<Rightarrow> outcome \<Rightarrow> modify_override_dialog \<Rightarrow> modify_override_dialog \<times> dialog_effect list" where
  "modify_override_settle props =
     vote_settle (js ''Vote cast successfully'') (js ''Error modifying for proposal '' @ template_opt (dp_proposalId props))"

fun modify_override_edit :: "dialog_edit \<Rightarrow> modify_override_dialog \<Rightarrow> modify_override_dialog" where
  "modify_override_edit (EditStake s) st = st\<lparr>mo_stake := Some s\<rparr>"
| "modify_override_edit u st = edit_vote u st"

text \<open>The edits as handlers of a session; closing is one of them.\<close>

datatype session_edit = Edit dialog_edit | CloseDialog

fun cast_event :: "session_edit \<Rightarrow> vote_dialog \<Rightarrow> vote_dialog \<times> dialog_effect list" where
  "cast_event (Edit u) st = (edit_vote u st, [])"
| "cast_event CloseDialog st = cast_handleClose st"

fun override_event :: "session_edit \<Rightarrow> override_dialog \<Rightarrow> override_dialog \<times> dialog_effect list" where
  "override_event (Edit u) st = (override_edit u st, [])"
| "override_event CloseDialog st = override_handleClose st"

text \<open>In the last dialog the stored votes may also arrive or be read again at any time.\<close>

datatype modify_edit = ModifyEdit dialog_edit | StoredVotes "vote_override_data list" | CloseModify

fun modify_override_event ::
  "chain_env \<Rightarrow> modify_edit \<Rightarrow> modify_override_dialog \<Rightarrow> modify_override_dialog \<times> dialog_effect list" where
  "modify_override_event env (ModifyEdit u) st = (modify_override_edit u st, [])"
| "modify_override_event env (StoredVotes vs) st =
     ((case stored_vote_effect env vs st of Inl e \<Rightarrow> st | Inr st' \<Rightarrow> st'), [])"
| "modify_override_event env CloseModify st = modify_override_handleClose st"

section \<open>Laws\<close>

lemmas dialog_defs = cast_press_def cast_handleSubmit_def cast_handleVote_def cast_settle_def
  modify_press_def modify_handleSubmit_def modify_handleVote_def modify_settle_def
  override_press_def override_handleSubmit_def override_handleVote_def override_settle_def
  modify_override_press_def modify_override_handleSubmit_def modify_override_handleVote_def modify_override_settle_def
  cast_handleClose_def override_handleClose_def modify_override_handleClose_def
  vote_handleSuccess_def vote_handleError_def

lemma vote_settle_idle:
  "vote_settle good bad r st = (st', effs) \<Longrightarrow> mutations effs = 0 \<and> \<not> dg_isLoading st' \<and> dg_dist st' = dg_dist st"
  by (cases r) (auto simp: dialog_defs split: if_splits)

lemma edit_vote_loading [simp]: "dg_isLoading (edit_vote u st) = dg_isLoading st"
  by (cases u) auto

lemma override_edit_loading [simp]: "dg_isLoading (override_edit u st) = dg_isLoading st"
  by (cases u) auto

lemma modify_override_edit_loading [simp]: "dg_isLoading (modify_override_edit u st) = dg_isLoading st"
  by (cases u) auto

lemma stored_vote_effect_loading: "stored_vote_effect env vs st = Inr st' \<Longrightarrow> dg_isLoading st' = dg_isLoading st"
  by (auto simp: stored_vote_effect_def distribution_effect_def split: if_splits option.splits)

interpretation cast: submit_form cast_press "cast_settle props" cast_event dg_isLoading
proof (unfold_locales, goal_cases)
  case (2 e s s' effs)
  then show ?case by (auto simp: dialog_defs split: if_splits option.splits wallet_role.splits)
next
  case (3 r s s' effs)
  then show ?case using vote_settle_idle by (fastforce simp: cast_settle_def)
next
  case (4 u s s' effs)
  then show ?case by (cases u) (auto simp: dialog_defs)
qed (simp add: cast_press_def cast_disabled_def)

interpretation modify: submit_form modify_press "modify_settle props" cast_event dg_isLoading
proof (unfold_locales, goal_cases)
  case (2 e s s' effs)
  then show ?case by (auto simp: dialog_defs split: if_splits option.splits wallet_role.splits)
next
  case (3 r s s' effs)
  then show ?case using vote_settle_idle by (fastforce simp: modify_settle_def)
next
  case (4 u s s' effs)
  then show ?case by (cases u) (auto simp: dialog_defs)
qed (simp add: modify_press_def modify_disabled_def)

interpretation override: responsive_form override_press "override_settle props" override_event dg_isLoading
proof (unfold_locales, goal_cases)
  case (2 e s s' effs)
  then show ?case by (auto simp: dialog_defs Let_def split: if_splits option.splits)
next
  case (3 r s s' effs)
  then show ?case using vote_settle_idle by (fastforce simp: override_settle_def)
next
  case (4 u s s' effs)
  then show ?case by (cases u) (auto simp: dialog_defs)
next
  case (5 e s s' effs)
  then show ?case by (auto simp: dialog_defs Let_def split: if_splits option.splits)
qed (simp add: override_press_def override_disabled_def)

interpretation modify_override: submit_form modify_override_press "modify_override_settle props" "modify_override_event env" dg_isLoading
proof (unfold_locales, goal_cases)
  case (2 e s s' effs)
  then show ?case by (auto simp: dialog_defs Let_def split: if_splits option.splits)
next
  case (3 r s s' effs)
  then show ?case using vote_settle_idle by (fastforce simp: modify_override_settle_def)
next
  case (4 u s s' effs)
  then show ?case by (cases u) (auto simp: dialog_defs stored_vote_effect_loading split: sum.splits)
qed (simp add: modify_override_press_def)

text \<open>A submission whose basis points are whole percentages that sum to 100 percent.\<close>

definition whole_split :: "number \<Rightarrow> number \<Rightarrow> number \<Rightarrow> bool" where
  "whole_split x y z \<longleftrightarrow> (\<exists>f a b. 0 \<le> f \<and> 0 \<le> a \<and> 0 \<le> b \<and> f + a + b = 100 \<and>
     x = inum (100 * f) \<and> y = inum (100 * a) \<and> z = inum (100 * b) \<and> validateVoteBasisPoints x y z = Inr ())"

fun sound_submission :: "dialog_effect \<Rightarrow> bool" where
  "sound_submission (MutateVote k p) \<longleftrightarrow>
     whole_split (vp_forVotesBp p) (vp_againstVotesBp p) (vp_abstainVotesBp p) \<and>
     vp_wallet p \<noteq> None \<and> vp_consensusResult p \<noteq> None \<and> vp_proposalId p \<noteq> []"
| "sound_submission (MutateOverride k p) \<longleftrightarrow>
     whole_split (op_forVotesBp p) (op_againstVotesBp p) (op_abstainVotesBp p) \<and>
     op_wallet p \<noteq> None \<and> op_consensusResult p \<noteq> None \<and> op_proposalId p \<noteq> []"
| "sound_submission _ \<longleftrightarrow> True"

lemma valid_split_whole:
  assumes "split_ok d" "isValidDistribution d"
  shows "whole_split (basis_points (vd_for d)) (basis_points (vd_against d)) (basis_points (vd_abstain d))"
  using assms(1)
proof (rule split_okE)
  fix f a b assume d: "d = vsplit f a b" "0 \<le> f" "0 \<le> a" "0 \<le> b" "f + a + b \<le> 100"
  have sum: "f + a + b = 100" using assms(2) d by (simp add: isValidDistribution_def total_vsplit js_int)
  have eqs: "basis_points (vd_for d) = inum (100 * f)" "basis_points (vd_against d) = inum (100 * a)" "basis_points (vd_abstain d) = inum (100 * b)"
    using d by (simp_all add: basis_points_def vsplit_def js_int js_arith mult.commute)
  have "validateVoteBasisPoints (inum (100 * f)) (inum (100 * a)) (inum (100 * b)) = Inr ()"
    using validateVoteBasisPoints_iff [of "100 * f" "100 * a" "100 * b"] d sum by simp
  then show ?thesis unfolding whole_split_def eqs using d sum by blast
qed

lemma split_ok_edit: "split_ok (dg_dist st) \<Longrightarrow> split_ok (dg_dist (edit_vote u st))"
  by (cases u) (auto intro: split_ok_change simp: split_ok_const)

lemma sound_settle: "vote_settle good bad r st = (st', effs) \<Longrightarrow> list_all sound_submission effs"
  by (cases r) (auto simp: dialog_defs split: if_splits)

lemma cast_submission_sound:
  assumes "cast_handleSubmit kind e s = (s', effs)" "split_ok (dg_dist s)"
  shows "dg_dist s' = dg_dist s \<and> list_all sound_submission effs"
  using assms valid_split_whole [of "dg_dist s"]
  by (auto simp: cast_handleSubmit_def cast_handleVote_def is_set_def split: if_splits option.splits wallet_role.splits)

interpretation cast_split: form_invariant cast_press "cast_settle props" cast_event "split_ok \<circ> dg_dist" sound_submission
proof (unfold_locales, goal_cases)
  case (1 e s s' effs)
  then show ?case using cast_submission_sound [of CastKind e s s' effs]
    by (auto simp: cast_press_def split: if_splits)
next
  case (2 r s s' effs)
  then show ?case using vote_settle_idle sound_settle by (fastforce simp: cast_settle_def)
next
  case (3 u s s' effs)
  then show ?case by (cases u) (auto simp: cast_handleClose_def split_ok_edit resetDistribution_def split_ok_const)
qed

interpretation modify_split: form_invariant modify_press "modify_settle props" cast_event "split_ok \<circ> dg_dist" sound_submission
proof (unfold_locales, goal_cases)
  case (1 e s s' effs)
  then show ?case using cast_submission_sound [of ModifyKind e s s' effs]
    by (auto simp: modify_press_def modify_handleSubmit_def split: if_splits)
next
  case (2 r s s' effs)
  then show ?case using vote_settle_idle sound_settle by (fastforce simp: modify_settle_def)
next
  case (3 u s s' effs)
  then show ?case by (rule cast_split.edit_inv)
qed

lemma override_submission_sound:
  assumes "override_handleSubmit e s = (s', effs)" "split_ok (dg_dist s)"
  shows "dg_dist s' = dg_dist s \<and> list_all sound_submission effs"
  using assms valid_split_whole [of "dg_dist s"]
  by (auto simp: override_handleSubmit_def override_handleVote_def override_params_def is_set_def Let_def
      split: if_splits option.splits)

lemma override_edit_dist: "split_ok (dg_dist st) \<Longrightarrow> split_ok (dg_dist (override_edit u st))"
  by (cases u) (auto intro: split_ok_change simp: split_ok_const)

interpretation override_split: form_invariant override_press "override_settle props" override_event "split_ok \<circ> dg_dist" sound_submission
proof (unfold_locales, goal_cases)
  case (1 e s s' effs)
  then show ?case using override_submission_sound [of e s s' effs]
    by (auto simp: override_press_def split: if_splits)
next
  case (2 r s s' effs)
  then show ?case using vote_settle_idle sound_settle by (fastforce simp: override_settle_def)
next
  case (3 u s s' effs)
  then show ?case
    by (cases u) (auto simp: override_handleClose_def cast_handleClose_def override_edit_dist resetDistribution_def split_ok_const)
qed

lemma mount_split_ok:
  "split_ok (dg_dist (cast_mount props))" "split_ok (dg_dist (modify_mount props))" "split_ok (dg_dist (override_mount props))"
  by (simp_all add: cast_mount_def modify_mount_def override_mount_def override_opened_def cast_opened_def
      resetDistribution_def split_ok_const)

lemma mount_idle:
  "\<not> dg_isLoading (cast_mount props)" "\<not> dg_isLoading (modify_mount props)" "\<not> dg_isLoading (override_mount props)"
  "\<not> dg_isLoading (modify_override_mount props)"
  by (simp_all add: cast_mount_def modify_mount_def override_mount_def modify_override_mount_def override_opened_def
      modify_override_opened_def cast_opened_def distribution_effect_def cast_initial_def override_initial_def modify_override_initial_def)

section \<open>Properties\<close>

text \<open>C9. Whatever the user types, clicks and confirms, in any order and with any answers of the hooks,
  the dialogs for casting and modifying a validator vote and for casting an override hand over only
  votes of whole percentages that sum to 100 (so that the check of the transaction builders accepts
  them), with a wallet, a proposal and its consensus result, and never have two submissions in
  flight.\<close>

theorem dialogs_submit_valid_votes:
  assumes "dialog_session cast_press (cast_settle props) cast_event (cast_mount props) s k trail"
    and "dialog_session modify_press (modify_settle props) cast_event (modify_mount props) s' k' trail'"
    and "dialog_session override_press (override_settle props) override_event (override_mount props) s'' k'' trail''"
  shows "list_all sound_submission (trail @ trail' @ trail'') \<and> k \<le> 1 \<and> k' \<le> 1 \<and> k'' \<le> 1"
  using cast_split.session_invariant [OF assms(1)] modify_split.session_invariant [OF assms(2)]
    override_split.session_invariant [OF assms(3)] mount_split_ok
    cast.one_in_flight [OF assms(1)] modify.one_in_flight [OF assms(2)] override.one_in_flight [OF assms(3)] mount_idle
  by simp

definition sample_props :: dialog_props where
  "sample_props = \<lparr>dp_proposalId = Some (js ''prop''), dp_consensusResult = Some (PublicKey (js ''cons'')), dp_initialVoteDist = None\<rparr>"

definition sample_denv :: "wallet_role \<Rightarrow> dialog_env" where
  "sample_denv role =
     \<lparr>de_wallet = Some sample_wallet, de_role = role, de_hasVoted = Some False, de_isLoadingHasVoted = False,
      de_stakeAccounts = Some [], de_chainVoteAccount = None, de_isLoadingChainVoteAccount = False\<rparr>"

definition sample_cast_state :: vote_dialog where
  "sample_cast_state = edit_vote (EditQuick OptFor) (cast_mount sample_props)"

lemma sample_split_valid: "isValidDistribution (handleQuickSelect opt)"
  by (cases opt) (simp_all add: isValidDistribution_def totalPercentage_def handleQuickSelect_def js_int js_arith)

lemma sample_press:
  "\<exists>s p. cast_press (sample_denv RoleValidator) sample_cast_state = (s, [MutateVote CastKind p]) \<and> vp_forVotesBp p = inum 10000"
  by (simp add: cast_press_def cast_disabled_def cast_handleSubmit_def cast_handleVote_def sample_cast_state_def sample_denv_def
      cast_mount_def cast_opened_def distribution_effect_def cast_initial_def sample_props_def is_set_def sample_split_valid)
     (simp add: basis_points_def handleQuickSelect_def js_int js_arith)

theorem dialogs_submit_valid_votes_witness:
  "\<exists>s p. dialog_session cast_press (cast_settle sample_props) cast_event (cast_mount sample_props) s 1 [MutateVote CastKind p] \<and>
     whole_split (vp_forVotesBp p) (vp_againstVotesBp p) (vp_abstainVotesBp p)"
proof -
  obtain s p where run: "cast_press (sample_denv RoleValidator) sample_cast_state = (s, [MutateVote CastKind p])"
    using sample_press by blast
  have "dialog_session cast_press (cast_settle sample_props) cast_event (cast_mount sample_props) sample_cast_state 0 []"
    using dialog_session.edited [OF dialog_session.opened, of cast_event "Edit (EditQuick OptFor)" "cast_mount sample_props"
        sample_cast_state "[]" cast_press "cast_settle sample_props"] by (simp add: sample_cast_state_def)
  from dialog_session.pressed [OF this run]
  have "dialog_session cast_press (cast_settle sample_props) cast_event (cast_mount sample_props) s 1 [MutateVote CastKind p]" by simp
  with dialogs_submit_valid_votes [OF this dialog_session.opened dialog_session.opened] show ?thesis by auto
qed

text \<open>The override dialog always recovers: in every session it is loading exactly while a submission
  is in flight, so a refused submission never blocks it.\<close>

theorem override_dialog_recovers:
  assumes "dialog_session override_press (override_settle props) override_event (override_mount props) s k trail"
  shows "dg_isLoading s \<longleftrightarrow> k = 1"
  using override.busy_iff_in_flight [OF assms mount_idle(3)] .

theorem override_dialog_recovers_witness: "\<not> dg_isLoading (override_mount sample_props)"
  using override_dialog_recovers [OF dialog_session.opened, of sample_props] by simp

text \<open>The dialogs for validator votes do not: a submission that is refused because the wallet is gone,
  the consensus result is missing or the wallet has no role leaves the dialog loading although
  nothing is in flight.  From then on, whatever happens, it stays loading, submits nothing, and its
  button stays disabled.\<close>

theorem refused_vote_blocks_dialog:
  assumes "\<not> cast_disabled env st"
    and "de_wallet env = None \<or> dg_consensus st = None \<or> de_role env = RoleNone"
    and "cast_press env st = (st', effs)"
    and "dialog_session cast_press (cast_settle props) cast_event st' s k trail"
  shows "mutations effs = 0 \<and> dg_isLoading s \<and> mutations trail = 0 \<and> cast_disabled env' s"
proof -
  have "mutations effs = 0 \<and> dg_isLoading st'"
    using assms(1-3) by (auto simp: cast_press_def cast_disabled_def cast_handleSubmit_def cast_handleVote_def
        split: option.splits if_splits)
  then show ?thesis using cast.stuck_forever [OF assms(4)] by (simp add: cast_disabled_def)
qed

theorem refused_vote_blocks_dialog_witness:
  "dg_isLoading (fst (cast_press ((sample_denv RoleValidator)\<lparr>de_wallet := None\<rparr>) sample_cast_state))"
proof -
  let ?env = "(sample_denv RoleValidator)\<lparr>de_wallet := None\<rparr>"
  have "\<not> cast_disabled ?env sample_cast_state"
    by (simp add: cast_disabled_def sample_cast_state_def sample_denv_def cast_mount_def cast_opened_def distribution_effect_def
        cast_initial_def sample_props_def is_set_def sample_split_valid)
  from refused_vote_blocks_dialog [OF this _ surjective_pairing dialog_session.opened] show ?thesis by simp
qed

text \<open>The role that guards a submission comes from the verifier's summary of the wallet, the dialog
  from its identity on chain.  A wallet with a validator identity is offered the dialog for validator
  votes.  While no summary has been read its role is that of a staker, and that dialog submits
  nothing; once a summary has been read its role is that of a validator or of both, and the override
  dialog submits nothing, even after the user has confirmed that a stake override is meant.\<close>

theorem identity_and_role_disagree:
  assumes "hasOnChainValidatorIdentity (de_chainVoteAccount env)"
    and "de_role env = rs_walletRole (role_effect isLoading summary (de_chainVoteAccount env) initial_role)"
    and "cast_press env st = (st', effs)" "override_press env ot = (ot', oeffs)"
  shows "fst (getVoteModalNames (de_chainVoteAccount env)) = js ''cast-vote'' \<and>
    (if isLoading \<or> summary = None then mutations effs = 0 else mutations oeffs = 0)"
proof -
  have "de_role env = RoleStaker \<longleftrightarrow> isLoading \<or> summary = None"
    using assms(1,2)
    by (auto simp: role_effect_def initial_role_def determineWalletRole_def Let_def split: option.splits if_splits)
  moreover have "mutations effs = 0" if "de_role env = RoleStaker"
    using assms(3) that by (auto simp: cast_press_def cast_handleSubmit_def cast_handleVote_def split: if_splits option.splits)
  moreover have "mutations oeffs = 0" if "de_role env \<noteq> RoleStaker"
    using assms(4) that
    by (auto simp: override_press_def override_handleSubmit_def override_handleVote_def Let_def split: if_splits option.splits)
  ultimately show ?thesis using assms(1) by (simp add: getVoteModalNames_def)
qed

definition sample_validator_denv :: dialog_env where
  "sample_validator_denv =
     (sample_denv RoleBoth)\<lparr>de_chainVoteAccount := Some \<lparr>cv_activeStake = Num 5, cv_voteAccount = js ''vote'', cv_nodePubkey = js ''id''\<rparr>,
       de_stakeAccounts := Some [\<lparr>sa_id = js ''0'', sa_stakeAccount = js ''stake'', sa_activeStake = Num 7, sa_voteAccount = None, sa_state = js ''delegated''\<rparr>]\<rparr>"

definition sample_override_state :: override_dialog where
  "sample_override_state =
     override_edit (EditConfirm True) (override_edit (EditStake (js ''stake'')) (override_edit (EditQuick OptFor) (override_mount sample_props)))"

theorem identity_and_role_disagree_witness:
  "\<not> override_disabled sample_validator_denv sample_override_state \<and>
   mutations (snd (override_press sample_validator_denv sample_override_state)) = 0"
proof -
  have "mutations (snd (override_press sample_validator_denv sample_override_state)) = 0"
    using identity_and_role_disagree [OF _ _ surjective_pairing surjective_pairing, of sample_validator_denv False "Some [()]"
        sample_cast_state sample_override_state]
    by (simp add: sample_validator_denv_def sample_denv_def hasOnChainValidatorIdentity_def determineWalletRole_def role_effect_def Let_def)
  moreover have "\<not> override_disabled sample_validator_denv sample_override_state"
    by (simp add: override_disabled_def sample_override_state_def sample_validator_denv_def sample_denv_def override_mount_def
        override_opened_def cast_opened_def distribution_effect_def override_initial_def sample_props_def is_set_def sample_split_valid)
  ultimately show ?thesis by simp
qed

text \<open>What the dialog for modifying an override submits when the stored vote is left as it is.\<close>

definition resubmitted ::
  "chain_env \<Rightarrow> dialog_env \<Rightarrow> vote_override_data list \<Rightarrow> modify_override_dialog \<Rightarrow> dialog_effect list" where
  "resubmitted env denv overrides st =
     (case stored_vote_effect env overrides st of Inl e \<Rightarrow> [] | Inr st' \<Rightarrow> snd (modify_override_press denv st'))"

definition ready_to_modify ::
  "chain_env \<Rightarrow> dialog_env \<Rightarrow> vote_override_data list \<Rightarrow> vote_override_data \<Rightarrow> modify_override_dialog \<Rightarrow> bool" where
  "ready_to_modify env denv overrides v st \<longleftrightarrow>
     de_wallet denv \<noteq> None \<and> de_role denv = RoleStaker \<and> de_stakeAccounts denv \<noteq> None \<and>
     is_set (dg_id st) \<and> dg_consensus st \<noteq> None \<and> \<not> dg_isLoading st \<and> is_set (mo_stake st) \<and>
     List.find (\<lambda>v. Some (toBase58 env (vo_stakeAccount v)) = mo_stake st) overrides = Some v \<and>
     bn_toNumber env (vo_forVotesBp v) = Inr (inum (vo_forVotesBp v)) \<and>
     bn_toNumber env (vo_againstVotesBp v) = Inr (inum (vo_againstVotesBp v)) \<and>
     bn_toNumber env (vo_abstainVotesBp v) = Inr (inum (vo_abstainVotesBp v))"

lemma resubmitted_run:
  assumes "ready_to_modify env denv overrides v st"
    and "d = \<lparr>vd_for = inum (vo_forVotesBp v) / Num 100, vd_against = inum (vo_againstVotesBp v) / Num 100,
              vd_abstain = inum (vo_abstainVotesBp v) / Num 100\<rparr>" "isValidDistribution d"
  shows "resubmitted env denv overrides st =
    [MutateOverride ModifyKind (override_params d (the (de_wallet denv)) (the (dg_id st)) (the (mo_stake st)) (the (dg_consensus st)))]"
  using assms
  by (auto simp: resubmitted_def ready_to_modify_def stored_vote_effect_def stored_distribution_def distribution_effect_def
      initial_dist_def modify_override_press_def modify_override_handleSubmit_def modify_override_handleVote_def is_set_def Let_def)

lemma percent_of_bp: "0 \<le> f \<Longrightarrow> f \<le> 100 \<Longrightarrow> inum (100 * f) / Num 100 = inum f"
  by (simp add: inum_def to_double_of_int)

text \<open>Modifying an override starts from the stored vote: if its basis points are whole percentages
  that sum to 100, submitting the dialog without a change submits exactly the stored basis points.\<close>

theorem stored_override_resubmitted:
  assumes "ready_to_modify env denv overrides v st"
    and "vo_forVotesBp v = 100 * f" "vo_againstVotesBp v = 100 * a" "vo_abstainVotesBp v = 100 * b"
    and "0 \<le> f" "0 \<le> a" "0 \<le> b" "f + a + b = 100"
  shows "\<exists>p. resubmitted env denv overrides st = [MutateOverride ModifyKind p] \<and>
    op_forVotesBp p = inum (vo_forVotesBp v) \<and> op_againstVotesBp p = inum (vo_againstVotesBp v) \<and>
    op_abstainVotesBp p = inum (vo_abstainVotesBp v) \<and> Some (op_stakeAccount p) = mo_stake st"
proof -
  have d: "\<lparr>vd_for = inum (vo_forVotesBp v) / Num 100, vd_against = inum (vo_againstVotesBp v) / Num 100,
      vd_abstain = inum (vo_abstainVotesBp v) / Num 100\<rparr> = vsplit f a b"
    using assms by (simp add: vsplit_def percent_of_bp)
  have "isValidDistribution (vsplit f a b)" using assms by (simp add: isValidDistribution_def total_vsplit js_int)
  from resubmitted_run [OF assms(1) d [symmetric] this] show ?thesis
    using assms by (auto simp: override_params_def basis_points_def vsplit_def js_int js_arith ready_to_modify_def is_set_def mult.commute)
qed

text \<open>The roundings of one split with fractions of a percent.\<close>

lemma fl_29: "fl (29 / 100) = 5224175567749775 / 2 ^ 54"
  using fl_eqI [of "-2" "29 / 100" 5224175567749775] by (simp add: power_int_def field_simps)

lemma fl_9971: "fl (9971 / 100) = 7016467481954877 / 2 ^ 46"
  using fl_eqI [of 6 "9971 / 100" 7016467481954877] by (simp add: power_int_def field_simps)

lemma fl_percent_sum: "fl (5224175567749775 / 2 ^ 54 + 7016467481954877 / 2 ^ 46) = 100"
  using fl_eqI [of 6 "5224175567749775 / 2 ^ 54 + 7016467481954877 / 2 ^ 46" 7036874417766400]
  by (simp add: power_int_def field_simps)

lemma fl_29_back: "fl (5224175567749775 / 2 ^ 54 * 100) = 8162774324609023 / 2 ^ 48"
  using fl_eqI [of 4 "5224175567749775 / 2 ^ 54 * 100" 8162774324609023] by (simp add: power_int_def field_simps)

lemma fl_9971_back: "fl (7016467481954877 / 2 ^ 46 * 100) = 9971"
  using fl_eqI [of 13 "7016467481954877 / 2 ^ 46 * 100" "9971 * 2 ^ 39"] by (simp add: power_int_def field_simps)

lemma fl_bp_sum: "fl (8162774324609023 / 2 ^ 48 + 9971) = 10000"
  using fl_eqI [of 13 "8162774324609023 / 2 ^ 48 + 9971" "10000 * 2 ^ 39"] by (simp add: power_int_def field_simps)

lemma fractional_split:
  fixes d :: vote_distribution
  assumes d: "d = \<lparr>vd_for = inum 29 / Num 100, vd_against = inum 9971 / Num 100, vd_abstain = inum 0 / Num 100\<rparr>"
  shows "isValidDistribution d" "basis_points (vd_for d) = Num (8162774324609023 / 2 ^ 48)"
    "validateVoteBasisPoints (basis_points (vd_for d)) (basis_points (vd_against d)) (basis_points (vd_abstain d)) = Inr ()"
proof -
  have "vd_for d = Num (5224175567749775 / 2 ^ 54)" "vd_against d = Num (7016467481954877 / 2 ^ 46)" "vd_abstain d = Num 0"
    using to_double_small [of "29 / 100", unfolded fl_29] to_double_small [of "9971 / 100", unfolded fl_9971]
    by (simp_all add: d inum_def)
  note ds = this
  have hundred: "Num (5224175567749775 / 2 ^ 54) + Num (7016467481954877 / 2 ^ 46) = Num 100"
    using to_double_small [of "5224175567749775 / 2 ^ 54 + 7016467481954877 / 2 ^ 46", unfolded fl_percent_sum] by simp
  have "totalPercentage d = Num 100"
    unfolding totalPercentage_def ds hundred using to_double_of_int [of 100] by simp
  then show "isValidDistribution d" by (simp add: isValidDistribution_def seq_def)
  have f: "basis_points (vd_for d) = Num (8162774324609023 / 2 ^ 48)"
    using to_double_small [of "5224175567749775 / 2 ^ 54 * 100", unfolded fl_29_back] by (simp add: basis_points_def ds)
  then show "basis_points (vd_for d) = Num (8162774324609023 / 2 ^ 48)" .
  have a: "basis_points (vd_against d) = Num 9971" "basis_points (vd_abstain d) = Num 0"
    using to_double_small [of "7016467481954877 / 2 ^ 46 * 100", unfolded fl_9971_back] by (simp_all add: basis_points_def ds)
  have "Num (8162774324609023 / 2 ^ 48) + Num 9971 = Num 10000"
    using to_double_small [of "8162774324609023 / 2 ^ 48 + 9971", unfolded fl_bp_sum] by simp
  then show "validateVoteBasisPoints (basis_points (vd_for d)) (basis_points (vd_against d)) (basis_points (vd_abstain d)) = Inr ()"
    unfolding f a validateVoteBasisPoints_def using to_double_of_int [of 10000] by (simp add: seq_def)
qed

text \<open>Stored basis points that are not whole percentages are not kept: for 29, 9971 and 0 the dialog
  shows a valid split and the builders' check accepts what it submits, but the number submitted for
  the first option is below 29, because a hundredth of 29 is not a double.\<close>

theorem fractional_override_altered:
  assumes "ready_to_modify env denv overrides v st"
    and "vo_forVotesBp v = 29" "vo_againstVotesBp v = 9971" "vo_abstainVotesBp v = 0"
  shows "\<exists>p. resubmitted env denv overrides st = [MutateOverride ModifyKind p] \<and> op_forVotesBp p < inum 29 \<and>
    validateVoteBasisPoints (op_forVotesBp p) (op_againstVotesBp p) (op_abstainVotesBp p) = Inr ()"
proof -
  note frac = fractional_split [OF refl]
  have "resubmitted env denv overrides st = [MutateOverride ModifyKind (override_params
      \<lparr>vd_for = inum 29 / Num 100, vd_against = inum 9971 / Num 100, vd_abstain = inum 0 / Num 100\<rparr>
      (the (de_wallet denv)) (the (dg_id st)) (the (mo_stake st)) (the (dg_consensus st)))]"
    using resubmitted_run [OF assms(1) refl] frac(1) unfolding assms(2-4) by simp
  then show ?thesis using frac(2,3) by (simp add: override_params_def inum_def)
qed

definition stored_vote :: "int \<Rightarrow> int \<Rightarrow> int \<Rightarrow> vote_override_data" where
  "stored_vote f a b =
     \<lparr>vo_publicKey = PublicKey [], vo_delegator = PublicKey [], vo_stakeAccount = PublicKey (js ''stake''), vo_validator = PublicKey [],
      vo_proposal = PublicKey (js ''prop''), vo_voteAccountValidator = PublicKey [], vo_forVotesBp = f, vo_againstVotesBp = a,
      vo_abstainVotesBp = b, vo_forVotesLamports = 0, vo_againstVotesLamports = 0, vo_abstainVotesLamports = 0,
      vo_stakeAmount = 0, vo_voteOverrideTimestamp = 0, vo_bump = Num 0\<rparr>"

definition sample_modify_state :: modify_override_dialog where
  "sample_modify_state = modify_override_edit (EditStake (js ''stake'')) (modify_override_mount sample_props)"

lemma sample_ready: "ready_to_modify (sample_env True) (sample_denv RoleStaker) [stored_vote f a b] (stored_vote f a b) sample_modify_state"
  by (simp add: ready_to_modify_def sample_denv_def sample_modify_state_def modify_override_mount_def modify_override_opened_def
      cast_opened_def distribution_effect_def modify_override_initial_def sample_props_def is_set_def stored_vote_def sample_fields)

theorem stored_override_resubmitted_witness:
  "\<exists>p. resubmitted (sample_env True) (sample_denv RoleStaker) [stored_vote 7000 2000 1000] sample_modify_state = [MutateOverride ModifyKind p] \<and>
     op_forVotesBp p = inum 7000"
  using stored_override_resubmitted [OF sample_ready, of 7000 2000 1000 70 20 10] by (auto simp: stored_vote_def)

theorem fractional_override_altered_witness:
  "\<exists>p. resubmitted (sample_env True) (sample_denv RoleStaker) [stored_vote 29 9971 0] sample_modify_state = [MutateOverride ModifyKind p] \<and>
     op_forVotesBp p < inum 29"
  using fractional_override_altered [OF sample_ready, of 29 9971 0] by (auto simp: stored_vote_def)

end
