(* ===== verification/Proposal_Dialogs.thy ===== *)
theory Proposal_Dialogs
  imports Dialogs Proposal_Instructions Settings
begin

text \<open>
  The dialogs for supporting and creating a proposal and for the settings
  (\<open>components/modals/SupportProposalModal.tsx\<close>, \<open>CreateProposalModal.tsx\<close>, \<open>SettingsModal.tsx\<close>), with the
  contract of \<open>Dialogs\<close> for the two that submit.
\<close>

section \<open>Supporting a proposal\<close>

record support_dialog =
  sd_proposalId :: jsstr
  sd_isLoading :: bool
  sd_error :: "jsstr option"

definition support_opened :: "jsstr \<Rightarrow> support_dialog \<Rightarrow> support_dialog" where
  "support_opened initialProposalId st = st\<lparr>sd_proposalId := initialProposalId, sd_error := None\<rparr>"

definition support_mount :: "jsstr option \<Rightarrow> support_dialog" where
  "support_mount proposalId =
     (let initialProposalId = (case proposalId of Some p \<Rightarrow> p | None \<Rightarrow> [])
      in support_opened initialProposalId \<lparr>sd_proposalId = initialProposalId, sd_isLoading = False, sd_error = None\<rparr>)"

text \<open>The three requirements of the dialog are constants.\<close>

record support_requirements =
  hasActiveVoteAccount :: bool
  hasIdentityKeypair :: bool
  canSupportOnce :: bool

definition requirements :: support_requirements where
  "requirements = \<lparr>hasActiveVoteAccount = True, hasIdentityKeypair = True, canSupportOnce = True\<rparr>"

definition allRequirementsMet :: bool where
  "allRequirementsMet \<longleftrightarrow>
     list_all id [hasActiveVoteAccount requirements, hasIdentityKeypair requirements, canSupportOnce requirements]"

definition support_handleSubmit :: "wallet option \<Rightarrow> support_dialog \<Rightarrow> support_dialog \<times> dialog_effect list" where
  "support_handleSubmit w st =
     (if sd_proposalId st = [] \<or> \<not> allRequirementsMet \<or> sd_isLoading st then (st, [])
      else (st\<lparr>sd_isLoading := True, sd_error := None\<rparr>,
            [MutateSupport \<lparr>su_proposalId = sd_proposalId st, su_wallet = w\<rparr>]))"

definition support_press :: "wallet option \<Rightarrow> support_dialog \<Rightarrow> support_dialog \<times> dialog_effect list" where
  "support_press w st =
     (if sd_proposalId st = [] \<or> \<not> allRequirementsMet \<or> sd_isLoading st then (st, []) else support_handleSubmit w st)"

fun support_settle :: "outcome \<Rightarrow> support_dialog \<Rightarrow> support_dialog \<times> dialog_effect list" where
  "support_settle MutationSucceeded st =
     (st\<lparr>sd_isLoading := False\<rparr>, [ToastSuccess (js ''Proposal supported successfully''), OnClose])"
| "support_settle (MutationFailed err) st =
     (if isWalletSigningCancellation (Some (thrown_of err)) then
        (st\<lparr>sd_isLoading := False\<rparr>, [ToastInfo WALLET_SIGNING_CANCELLED_MESSAGE])
      else (st\<lparr>sd_error := Some (err_message (me_error err)), sd_isLoading := False\<rparr>,
            [CaptureException (me_error err), ToastError (js ''Error supporting proposalId '' @ sd_proposalId st)]))"

text \<open>The input is disabled while loading, and when the dialog was opened for a proposal.\<close>

datatype support_edit = SupportInput jsstr | CloseSupport

fun support_event :: "jsstr option \<Rightarrow> support_edit \<Rightarrow> support_dialog \<Rightarrow> support_dialog \<times> dialog_effect list" where
  "support_event initial (SupportInput s) st =
     (if sd_isLoading st \<or> is_set initial then (st, []) else (st\<lparr>sd_proposalId := s\<rparr>, []))"
| "support_event initial CloseSupport st = (st\<lparr>sd_proposalId := [], sd_error := None\<rparr>, [OnClose])"

interpretation support: responsive_form support_press support_settle "support_event initial" sd_isLoading
proof (unfold_locales, goal_cases)
  case (3 r s s' effs)
  then show ?case by (cases r) (auto split: if_splits)
next
  case (4 u s s' effs)
  then show ?case by (cases u) (auto split: if_splits)
qed (auto simp: support_press_def support_handleSubmit_def split: if_splits)

section \<open>Creating a proposal\<close>

record create_dialog =
  cr_title :: jsstr
  cr_description :: jsstr
  cr_isLoading :: bool
  cr_error :: "jsstr option"
  cr_touched :: bool

definition create_mount :: create_dialog where
  "create_mount = \<lparr>cr_title = [], cr_description = [], cr_isLoading = False, cr_error = None, cr_touched = False\<rparr>"

definition descriptionValidation :: "(jsstr \<Rightarrow> url_parts option) \<Rightarrow> create_dialog \<Rightarrow> url_validation" where
  "descriptionValidation parse_url st = validateProposalUrl parse_url (cr_description st)"

definition showDescriptionIssues :: "create_dialog \<Rightarrow> bool" where
  "showDescriptionIssues st \<longleftrightarrow> cr_touched st \<and> 0 < length (cr_description st)"

definition shown_issues :: "(jsstr \<Rightarrow> url_parts option) \<Rightarrow> create_dialog \<Rightarrow> jsstr list" where
  "shown_issues parse_url st =
     (if showDescriptionIssues st then map snd (v_errors (descriptionValidation parse_url st)) else [])
     @ (if showDescriptionIssues st \<and> v_ok (descriptionValidation parse_url st)
        then map snd (v_warnings (descriptionValidation parse_url st)) else [])"

definition create_handleSubmit ::
  "(jsstr \<Rightarrow> url_parts option) \<Rightarrow> wallet option \<Rightarrow> create_dialog \<Rightarrow> create_dialog \<times> dialog_effect list" where
  "create_handleSubmit parse_url w st =
     (let st1 = st\<lparr>cr_touched := True\<rparr> in
      if cr_title st = [] \<or> \<not> v_ok (descriptionValidation parse_url st) then (st1, [])
      else (st1\<lparr>cr_isLoading := True, cr_error := None\<rparr>,
            [MutateCreate \<lparr>cp_title = cr_title st, cp_description = cr_description st, cp_seed = None, cp_wallet = w\<rparr>]))"

definition isFormValid :: "(jsstr \<Rightarrow> url_parts option) \<Rightarrow> create_dialog \<Rightarrow> bool" where
  "isFormValid parse_url st \<longleftrightarrow> cr_title st \<noteq> [] \<and> v_ok (descriptionValidation parse_url st)"

definition create_press ::
  "(jsstr \<Rightarrow> url_parts option) \<Rightarrow> wallet option \<Rightarrow> create_dialog \<Rightarrow> create_dialog \<times> dialog_effect list" where
  "create_press parse_url w st =
     (if \<not> isFormValid parse_url st \<or> cr_isLoading st then (st, []) else create_handleSubmit parse_url w st)"

fun create_settle :: "outcome \<Rightarrow> create_dialog \<Rightarrow> create_dialog \<times> dialog_effect list" where
  "create_settle MutationSucceeded st =
     (st\<lparr>cr_isLoading := False\<rparr>, [ToastSuccess (js ''Proposal created successfully''), OnClose])"
| "create_settle (MutationFailed err) st =
     (if isWalletSigningCancellation (Some (thrown_of err)) then
        (st\<lparr>cr_isLoading := False\<rparr>, [ToastInfo WALLET_SIGNING_CANCELLED_MESSAGE])
      else (st\<lparr>cr_error := Some (err_message (me_error err)), cr_isLoading := False\<rparr>, [CaptureException (me_error err)]))"

datatype create_edit = TitleInput jsstr | DescriptionInput jsstr | DescriptionBlur | CloseCreate

fun create_event :: "create_edit \<Rightarrow> create_dialog \<Rightarrow> create_dialog \<times> dialog_effect list" where
  "create_event (TitleInput s) st = (st\<lparr>cr_title := s\<rparr>, [])"
| "create_event (DescriptionInput s) st = (st\<lparr>cr_description := s\<rparr>, [])"
| "create_event DescriptionBlur st = (st\<lparr>cr_touched := True\<rparr>, [])"
| "create_event CloseCreate st =
     (st\<lparr>cr_title := [], cr_description := [], cr_error := None, cr_touched := False\<rparr>, [OnClose])"

interpretation create: responsive_form "create_press parse_url" create_settle create_event cr_isLoading
proof (unfold_locales, goal_cases)
  case (3 r s s' effs)
  then show ?case by (cases r) (auto split: if_splits)
next
  case (4 u s s' effs)
  then show ?case by (cases u) auto
qed (auto simp: create_press_def create_handleSubmit_def isFormValid_def Let_def split: if_splits)

text \<open>A creation the builder does not reject for its title or its link.\<close>

fun acceptable_creation :: "(jsstr \<Rightarrow> url_parts option) \<Rightarrow> dialog_effect \<Rightarrow> bool" where
  "acceptable_creation parse_url (MutateCreate p) \<longleftrightarrow>
     cp_title p \<noteq> [] \<and> assertValidProposalUrl parse_url (cp_description p) = Inr (trim (cp_description p))"
| "acceptable_creation parse_url _ \<longleftrightarrow> True"

lemma assert_accepts:
  "v_ok (validateProposalUrl parse_url d) \<Longrightarrow> assertValidProposalUrl parse_url d = Inr (trim d)"
  by (auto simp: assertValidProposalUrl_def validateProposalUrl_def Let_def split: parsed_url.splits if_splits)

interpretation create_links: form_invariant "create_press parse_url" create_settle create_event "\<lambda>_. True" "acceptable_creation parse_url"
proof (unfold_locales, goal_cases)
  case (1 e s s' effs)
  then show ?case using assert_accepts
    by (auto simp: create_press_def create_handleSubmit_def descriptionValidation_def Let_def split: if_splits)
next
  case (2 r s s' effs)
  then show ?case by (cases r) (auto split: if_splits)
next
  case (3 u s s' effs)
  then show ?case by (cases u) auto
qed

section \<open>Settings\<close>

record settings_dialog =
  st_selectedEndpoint :: rpc_endpoint
  st_customUrl :: jsstr
  st_ncnApiUrlInput :: jsstr

definition settings_opened :: "endpoint_provider \<Rightarrow> ncn_provider \<Rightarrow> settings_dialog" where
  "settings_opened ep np =
     \<lparr>st_selectedEndpoint = endpointType (ep_state ep),
      st_customUrl = (if endpointType (ep_state ep) = CustomEndpoint then endpointUrl (ep_state ep) else []),
      st_ncnApiUrlInput = np_url np\<rparr>"

definition settings_canSave :: "(jsstr \<Rightarrow> bool) \<Rightarrow> settings_dialog \<Rightarrow> bool" where
  "settings_canSave isValidUrl st \<longleftrightarrow>
     (st_selectedEndpoint st \<noteq> CustomEndpoint \<or> st_customUrl st \<noteq> [] \<and> isValidUrl (st_customUrl st)) \<and>
     st_ncnApiUrlInput st \<noteq> [] \<and> isValidUrl (st_ncnApiUrlInput st)"

definition settings_handleSave ::
  "rpc_urls \<Rightarrow> (endpoint_state \<Rightarrow> jsstr) \<Rightarrow> (jsstr \<Rightarrow> bool) \<Rightarrow> settings_dialog \<Rightarrow> endpoint_provider \<Rightarrow> ncn_provider \<Rightarrow>
   endpoint_provider \<times> ncn_provider \<times> dialog_effect list" where
  "settings_handleSave urls stringify isValidUrl st ep np =
     (let url = (if st_selectedEndpoint st = CustomEndpoint then st_customUrl st else rpc_url_of urls (st_selectedEndpoint st))
      in (setEndpointData urls stringify (st_selectedEndpoint st) (Some url) ep,
          (if st_ncnApiUrlInput st \<noteq> [] \<and> isValidUrl (st_ncnApiUrlInput st)
           then setNcnApiUrlData (normalizeUrl (st_ncnApiUrlInput st)) np else np),
          [OnClose]))"

definition settings_handleClose :: "ncn_provider \<Rightarrow> settings_dialog \<Rightarrow> settings_dialog \<times> dialog_effect list" where
  "settings_handleClose np st =
     (st\<lparr>st_selectedEndpoint := Devnet, st_customUrl := [], st_ncnApiUrlInput := np_url np\<rparr>, [OnClose])"

section \<open>Properties\<close>

text \<open>C11. Creating a proposal: in every session of the dialog, everything it submits has a title and a link
  that the builder's own validation accepts (in its trimmed form), it is loading exactly while a
  submission is in flight, and so it never submits twice at once although its handler does not ask.
  The dialog for supporting a proposal has the same life cycle.\<close>

theorem proposal_dialogs_sound:
  assumes "dialog_session (create_press parse_url) create_settle create_event create_mount s k trail"
    and "dialog_session support_press support_settle (support_event initial) (support_mount initial) s' k' trail'"
  shows "list_all (acceptable_creation parse_url) trail \<and> k \<le> 1 \<and> k' \<le> 1 \<and>
    (cr_isLoading s \<longleftrightarrow> k = 1) \<and> (sd_isLoading s' \<longleftrightarrow> k' = 1)"
proof -
  have idle: "\<not> cr_isLoading create_mount" "\<not> sd_isLoading (support_mount initial)"
    by (simp_all add: create_mount_def support_mount_def support_opened_def Let_def)
  show ?thesis
    using create_links.session_invariant [OF assms(1)] create.one_in_flight [OF assms(1)] create.busy_iff_in_flight [OF assms(1)]
      support.one_in_flight [OF assms(2)] support.busy_iff_in_flight [OF assms(2)] idle by simp
qed

definition sample_create_state :: create_dialog where
  "sample_create_state = create_mount\<lparr>cr_title := js ''Title'', cr_description := sample_link\<rparr>"

theorem proposal_dialogs_sound_witness:
  "\<exists>s p. dialog_session (create_press github_parser) create_settle create_event create_mount s 1 [MutateCreate p] \<and>
     assertValidProposalUrl github_parser (cp_description p) = Inr (trim (cp_description p))"
proof -
  have ok: "v_ok (validateProposalUrl github_parser sample_link)"
    using sample_assert by (auto simp: assertValidProposalUrl_def Let_def split: if_splits)
  let ?s = "sample_create_state\<lparr>cr_touched := True, cr_isLoading := True, cr_error := None\<rparr>"
  let ?p = "\<lparr>cp_title = js ''Title'', cp_description = sample_link, cp_seed = None, cp_wallet = None\<rparr>"
  have run: "create_press github_parser None sample_create_state = (?s, [MutateCreate ?p])"
    using ok by (simp add: create_press_def create_handleSubmit_def isFormValid_def descriptionValidation_def
        sample_create_state_def create_mount_def Let_def)
  have "dialog_session (create_press github_parser) create_settle create_event create_mount
      (create_mount\<lparr>cr_title := js ''Title''\<rparr>) (0 + mutations []) ([] @ [])"
    by (rule dialog_session.edited [OF dialog_session.opened, where u = "TitleInput (js ''Title'')"]) simp
  from dialog_session.edited [OF this, of "DescriptionInput sample_link" sample_create_state "[]"]
  have "dialog_session (create_press github_parser) create_settle create_event create_mount sample_create_state 0 []"
    by (simp add: sample_create_state_def)
  from dialog_session.pressed [OF this run]
  have s: "dialog_session (create_press github_parser) create_settle create_event create_mount ?s 1 [MutateCreate ?p]" by simp
  from proposal_dialogs_sound [OF this dialog_session.opened, of None] show ?thesis using s
    by (intro exI [of _ ?s] exI [of _ ?p]) simp
qed

text \<open>Saving the settings as they are shown keeps the endpoint, in every session of its provider that has
  the configured URL for a preset, and the verifier URL if it has no trailing slash.\<close>

lemma settings_roundtrip:
  assumes "st = settings_opened ep np"
    and "endpointType (ep_state ep) \<noteq> CustomEndpoint \<longrightarrow> endpointUrl (ep_state ep) = rpc_url_of urls (endpointType (ep_state ep))"
    and "settings_handleSave urls stringify isValidUrl st ep np = (ep', np', effs)"
    and "np_url np = [] \<or> last (np_url np) \<noteq> 47"
  shows "ep_state ep' = ep_state ep \<and> np_url np' = np_url np"
proof -
  have "normalizeUrl (np_url np) = np_url np" using assms(4) by (auto simp: normalizeUrl_def)
  then show ?thesis using assms(1-3)
    by (auto simp: settings_handleSave_def settings_opened_def setEndpointData_def setNcnApiUrlData_def Let_def)
qed

end
