(* ===== verification/Modal_Flow.thy ===== *)
theory Modal_Flow
  imports Vote_Dialogs Proposal_Dialogs Proposals_Data
begin

text \<open>
  How a visitor gets to a dialog: the modal provider (\<open>contexts/ModalContext.tsx\<close>), the buttons that
  open dialogs (\<open>proposals/detail/CastVote.tsx\<close>, \<open>proposals/ProposalCard.tsx\<close>,
  \<open>proposals/SupportButton.tsx\<close>, the action buttons of \<open>proposals-table/ExternalProposalPanel.tsx\<close> and of
  \<open>governance/shared/GovernanceActions.tsx\<close>), the drop-downs inside the dialogs
  (\<open>VotingProposalsDropdown.tsx\<close>, \<open>StakeAccountsDropdown.tsx\<close>), and the hooks that say whether the visitor
  has already voted or supported (\<open>useHasUserVoted\<close>, \<open>useHasValidatorVoted\<close>, \<open>useHasUserSupported\<close>).  The
  query library is a parameter: it gets whether a query is enabled, its key and the value its function
  would return, and answers with the data it has and whether it is loading.
\<close>

section \<open>The modal provider\<close>

record modal_state =
  ms_type :: "jsstr option"
  ms_data :: "dialog_props option"

definition no_modal :: modal_state where
  "no_modal = \<lparr>ms_type = None, ms_data = None\<rparr>"

definition openModal :: "jsstr \<Rightarrow> dialog_props option \<Rightarrow> modal_state \<Rightarrow> modal_state" where
  "openModal type data st = \<lparr>ms_type = Some type, ms_data = data\<rparr>"

definition closeModal :: "modal_state \<Rightarrow> modal_state" where
  "closeModal st = \<lparr>ms_type = None, ms_data = None\<rparr>"

definition modal_isOpen :: "modal_state \<Rightarrow> jsstr option \<Rightarrow> bool" where
  "modal_isOpen st type = (if is_set type then ms_type st = type else ms_type st \<noteq> None)"

definition MODAL_COMPONENTS :: "jsstr list" where
  "MODAL_COMPONENTS = map js [''support-proposal'', ''create-proposal'', ''cast-vote'', ''override-vote'', ''modify-vote'',
     ''modify-override-vote'', ''settings'']"

definition empty_props :: dialog_props where
  "empty_props = \<lparr>dp_proposalId = None, dp_consensusResult = None, dp_initialVoteDist = None\<rparr>"

text \<open>The dialog the provider renders, freshly mounted, with the data of the call spread into its
  properties.\<close>

datatype active_modal =
    ActiveCast vote_dialog
  | ActiveModify vote_dialog
  | ActiveOverride override_dialog
  | ActiveModifyOverride modify_override_dialog
  | ActiveSupport support_dialog
  | ActiveCreate create_dialog
  | ActiveSettings

definition ActiveModal :: "modal_state \<Rightarrow> active_modal option" where
  "ActiveModal st =
     (let props = (case ms_data st of Some p \<Rightarrow> p | None \<Rightarrow> empty_props) in
      case ms_type st of
        None \<Rightarrow> None
      | Some t \<Rightarrow>
          if t = js ''support-proposal'' then Some (ActiveSupport (support_mount (dp_proposalId props)))
          else if t = js ''create-proposal'' then Some (ActiveCreate create_mount)
          else if t = js ''cast-vote'' then Some (ActiveCast (cast_mount props))
          else if t = js ''override-vote'' then Some (ActiveOverride (override_mount props))
          else if t = js ''modify-vote'' then Some (ActiveModify (modify_mount props))
          else if t = js ''modify-override-vote'' then Some (ActiveModifyOverride (modify_override_mount props))
          else if t = js ''settings'' then Some ActiveSettings
          else None)"

section \<open>The buttons of a proposal's page\<close>

record wallet_ctx =
  wc_publicKey :: "pubkey option"
  wc_connected :: bool

definition vote_props :: "chain_env \<Rightarrow> pubkey \<Rightarrow> pubkey \<Rightarrow> vote_distribution option \<Rightarrow> dialog_props" where
  "vote_props env proposal consensus initial =
     \<lparr>dp_proposalId = Some (toBase58 env proposal), dp_consensusResult = Some consensus, dp_initialVoteDist = initial\<rparr>"

fun choice :: "vote_option \<Rightarrow> vote_distribution" where
  "choice OptFor = \<lparr>vd_for = Num 100, vd_against = Num 0, vd_abstain = Num 0\<rparr>"
| "choice OptAgainst = \<lparr>vd_for = Num 0, vd_against = Num 100, vd_abstain = Num 0\<rparr>"
| "choice OptAbstain = \<lparr>vd_for = Num 0, vd_against = Num 0, vd_abstain = Num 100\<rparr>"

definition handleVoteButton ::
  "chain_env \<Rightarrow> chain_vote_account option \<Rightarrow> pubkey option \<Rightarrow> pubkey option \<Rightarrow> vote_option \<Rightarrow> modal_state \<Rightarrow> modal_state" where
  "handleVoteButton env chainVoteAccount proposal consensusResult opt st =
     (case (proposal, consensusResult) of
        (Some p, Some c) \<Rightarrow> openModal (fst (getVoteModalNames chainVoteAccount)) (Some (vote_props env p c (Some (choice opt)))) st
      | _ \<Rightarrow> st)"

definition cast_buttons_disabled :: "bool \<Rightarrow> pubkey option \<Rightarrow> bool \<Rightarrow> bool \<Rightarrow> bool \<Rightarrow> bool option \<Rightarrow> bool" where
  "cast_buttons_disabled disabled proposal isLoadingWalletRole isLoadingChainVoteAccount isLoadingHasUserVoted hasUserVoted \<longleftrightarrow>
     disabled \<or> proposal = None \<or> isLoadingWalletRole \<or> isLoadingChainVoteAccount \<or> isLoadingHasUserVoted \<or>
     hasUserVoted = Some True"

definition CastVoteWrapper_enabled :: "wallet_ctx \<Rightarrow> 'p option \<Rightarrow> bool" where
  "CastVoteWrapper_enabled w proposal \<longleftrightarrow> wc_connected w \<and> proposal \<noteq> None \<and> wc_publicKey w \<noteq> None"

section \<open>The card of a proposal\<close>

datatype proposal_action = ActCastVote | ActModifyVote | ActSupport | ActViewDetails

fun getProposalAction :: "proposal_status \<Rightarrow> proposal_action option" where
  "getProposalAction Voting = Some ActCastVote"
| "getProposalAction Supporting = Some ActSupport"
| "getProposalAction Discussion = Some ActViewDetails"
| "getProposalAction _ = None"

definition actionRequiresWallet :: "proposal_action \<Rightarrow> bool" where
  "actionRequiresWallet a \<longleftrightarrow> a \<noteq> ActViewDetails"

definition shouldShowModifyButton :: "proposal_status \<Rightarrow> bool" where
  "shouldShowModifyButton s \<longleftrightarrow> s = Voting"

definition getVotingStatusValue :: "proposal_status \<Rightarrow> jsstr option \<Rightarrow> jsstr" where
  "getVotingStatusValue status votingAvailableThroughText =
     (if status = Finalized \<or> status = Failed then js ''Ended''
      else if \<not> is_set votingAvailableThroughText \<or> votingAvailableThroughText = Some (js ''-'') then js ''Not Started Yet''
      else the votingAvailableThroughText)"

record card_env =
  ca_connected :: bool
  ca_isLoadingVoteIdentity :: bool
  ca_role :: wallet_role
  ca_chainVoteAccount :: "chain_vote_account option"

definition msg_not_connected :: jsstr where
  "msg_not_connected = js ''Wallet not connected, please connect your wallet to be able to perform these actions''"

datatype card_effect = CardToast jsstr | Navigate jsstr | OpenModal jsstr "dialog_props"

definition getProposalDetailPagePath :: "jsstr \<Rightarrow> jsstr" where
  "getProposalDetailPagePath proposalId = js ''/proposal/'' @ proposalId"

definition card_handleAction :: "chain_env \<Rightarrow> card_env \<Rightarrow> proposal_record \<Rightarrow> proposal_action \<Rightarrow> card_effect list" where
  "card_handleAction env c p a =
     (let proposalId = toBase58 env (rec_publicKey p) in
      if a = ActViewDetails then [Navigate (getProposalDetailPagePath proposalId)]
      else if \<not> ca_connected c then [CardToast msg_not_connected]
      else if ca_isLoadingVoteIdentity c then [CardToast (js ''Loading wallet voting identity'')]
      else if ca_role c = RoleStaker \<and> rec_status p = Supporting then [CardToast (js ''Only validators are allowed to support'')]
      else case (a, rec_consensusResult p) of
             (ActModifyVote, Some cr) \<Rightarrow> [OpenModal (snd (getVoteModalNames (ca_chainVoteAccount c))) (vote_props env (rec_publicKey p) cr None)]
           | (ActCastVote, Some cr) \<Rightarrow> [OpenModal (fst (getVoteModalNames (ca_chainVoteAccount c))) (vote_props env (rec_publicKey p) cr None)]
           | (ActSupport, _) \<Rightarrow> [OpenModal (js ''support-proposal'') (empty_props\<lparr>dp_proposalId := Some proposalId\<rparr>)]
           | _ \<Rightarrow> [])"

definition card_buttons_disabled :: "card_env \<Rightarrow> proposal_record \<Rightarrow> bool" where
  "card_buttons_disabled c p \<longleftrightarrow>
     (shouldShowModifyButton (rec_status p) \<or>
      (case getProposalAction (rec_status p) of None \<Rightarrow> False | Some a \<Rightarrow> actionRequiresWallet a)) \<and>
     (\<not> ca_connected c \<or> ca_isLoadingVoteIdentity c \<or> (ca_role c = RoleStaker \<and> rec_status p = Supporting))"

definition card_disabled_message :: "card_env \<Rightarrow> proposal_record \<Rightarrow> jsstr" where
  "card_disabled_message c p =
     (if \<not> card_buttons_disabled c p then []
      else if \<not> ca_connected c then msg_not_connected
      else if ca_isLoadingVoteIdentity c then js ''Loading wallet voting identity''
      else js ''Only validators are allowed to support'')"

text \<open>The two voting buttons in the table of proposals.\<close>

definition panel_buttons_disabled :: "bool \<Rightarrow> pubkey option \<Rightarrow> bool \<Rightarrow> bool" where
  "panel_buttons_disabled disabled consensusResult isLoadingVoteIdentity \<longleftrightarrow>
     disabled \<or> consensusResult = None \<or> isLoadingVoteIdentity"

definition panel_onClick :: "jsstr \<Rightarrow> jsstr option \<Rightarrow> pubkey option \<Rightarrow> bool \<Rightarrow> card_effect list" where
  "panel_onClick modalName proposalId consensusResult isLoadingVoteIdentity =
     (case consensusResult of
        Some c \<Rightarrow>
          if is_set proposalId
          then [OpenModal modalName \<lparr>dp_proposalId = proposalId, dp_consensusResult = Some c, dp_initialVoteDist = None\<rparr>]
          else if isLoadingVoteIdentity then [CardToast (js ''Loading wallet voting identity'')]
          else [CardToast (js ''Couldn't obtain consensus result'')]
      | None \<Rightarrow>
          if isLoadingVoteIdentity then [CardToast (js ''Loading wallet voting identity'')]
          else [CardToast (js ''Couldn't obtain consensus result'')])"

text \<open>The support button; \<open>None\<close> when nothing is rendered.\<close>

record support_button =
  sb_disabled :: bool
  sb_tooltip :: "jsstr option"
  sb_proposalId :: "jsstr option"

definition SupportButton ::
  "wallet_ctx \<Rightarrow> wallet_role \<Rightarrow> bool option \<Rightarrow> bool \<Rightarrow> jsstr option \<Rightarrow> proposal_status option \<Rightarrow> bool \<Rightarrow> support_button option" where
  "SupportButton w role hasUserSupported isLoadingHasUserSupported proposalId status disabledProps =
     (let isValidator = (role = RoleValidator \<or> role = RoleBoth);
          disabled = (disabledProps \<or> isLoadingHasUserSupported \<or> hasUserSupported = Some True \<or> \<not> wc_connected w \<or> \<not> isValidator);
          tooltip = (if hasUserSupported = Some True then js ''You have already supported this proposal''
                     else if \<not> isValidator \<and> wc_connected w
                     then js ''You are not authorized to support this proposal, only validators can support proposals''
                     else msg_not_connected);
          showTooltip = (\<not> (wc_connected w \<and> wc_publicKey w \<noteq> None \<and> isValidator) \<or> hasUserSupported = Some True)
      in if status \<noteq> Some Supporting then None
         else if \<not> is_set proposalId then Some \<lparr>sb_disabled = disabled, sb_tooltip = None, sb_proposalId = None\<rparr>
         else Some \<lparr>sb_disabled = disabled, sb_tooltip = (if showTooltip then Some tooltip else None), sb_proposalId = proposalId\<rparr>)"

text \<open>The actions of the dashboard: for each view the labels with the dialogs they open, without data.\<close>

definition getValidatorConfig :: "(jsstr \<times> jsstr) list" where
  "getValidatorConfig = [(js ''Create Proposal'', js ''create-proposal''), (js ''Support Proposal'', js ''support-proposal''),
     (js ''Cast Vote'', js ''cast-vote''), (js ''Modify Vote'', js ''modify-vote'')]"

definition getStakerConfig :: "(jsstr \<times> jsstr) list" where
  "getStakerConfig = [(js ''Cast Vote'', js ''override-vote''), (js ''Modify Vote'', js ''modify-override-vote'')]"

definition GovernanceActions :: "view_type \<Rightarrow> (jsstr \<times> jsstr) list" where
  "GovernanceActions view = (if view = ValidatorView then getValidatorConfig else getStakerConfig)"

section \<open>The drop-downs\<close>

definition dropdown_handleChange ::
  "chain_env \<Rightarrow> proposal_record list option \<Rightarrow> jsstr \<Rightarrow> dialog_edit option \<times> dialog_effect list" where
  "dropdown_handleChange env proposals value =
     (case proposals of
        None \<Rightarrow> (None, [])
      | Some ps \<Rightarrow>
          (case Option.bind (List.find (\<lambda>p. toBase58 env (rec_publicKey p) = value) ps) rec_consensusResult of
             Some c \<Rightarrow> (Some (EditProposal value c), [])
           | None \<Rightarrow> (None, [ToastError (js ''Couldn't obtain consensus result'')])))"

definition isAccountValid :: "jsstr list option \<Rightarrow> stake_account_data \<Rightarrow> bool" where
  "isAccountValid disabledAccounts a \<longleftrightarrow>
     \<not> (case disabledAccounts of Some ds \<Rightarrow> sa_stakeAccount a \<in> set ds | None \<Rightarrow> False) \<and> Num 0 < sa_activeStake a"

definition hasNoValidAccounts :: "bool \<Rightarrow> jsstr list option \<Rightarrow> stake_account_data list option \<Rightarrow> bool" where
  "hasNoValidAccounts isLoading disabledAccounts stakeAccounts \<longleftrightarrow>
     \<not> isLoading \<and> map_option (\<lambda>as. length (filter (isAccountValid disabledAccounts) as)) stakeAccounts = Some 0"

text \<open>The accounts each override dialog disables: those that have an override, and those that have none.\<close>

definition override_disabledAccounts :: "chain_env \<Rightarrow> vote_override_data list \<Rightarrow> jsstr list option" where
  "override_disabledAccounts env overrides = Some (map (\<lambda>v. toBase58 env (vo_stakeAccount v)) overrides)"

definition modify_disabledAccounts ::
  "chain_env \<Rightarrow> vote_override_data list \<Rightarrow> stake_account_data list option \<Rightarrow> jsstr list option" where
  "modify_disabledAccounts env overrides stakeAccounts =
     map_option (\<lambda>as. map sa_stakeAccount
       (filter (\<lambda>a. \<not> list_ex (\<lambda>v. toBase58 env (vo_stakeAccount v) = sa_stakeAccount a) overrides) as)) stakeAccounts"

section \<open>Has the visitor voted or supported?\<close>

type_synonym ('k, 'd) query_lib = "bool \<Rightarrow> 'k \<Rightarrow> 'd \<Rightarrow> 'd option \<times> bool"

definition fetchVoteAccountsEnabled :: "wallet_role \<Rightarrow> bool" where
  "fetchVoteAccountsEnabled role \<longleftrightarrow> role = RoleBoth \<or> role = RoleValidator"

definition fetchVoteOverrideEnabled :: "wallet_role \<Rightarrow> override_filters \<Rightarrow> bool" where
  "fetchVoteOverrideEnabled role filters \<longleftrightarrow> (role = RoleBoth \<or> role = RoleStaker) \<and> 0 < length filters"

type_synonym has_voted_key = "jsstr \<times> jsstr option \<times> nat \<times> bool"

definition useHasUserVoted ::
  "(has_voted_key, bool) query_lib \<Rightarrow> wallet_ctx \<Rightarrow> jsstr \<Rightarrow> vote_override_data list option \<times> bool \<Rightarrow>
   vote_account option \<times> bool \<Rightarrow> jsstr option \<Rightarrow> bool \<Rightarrow> bool option \<times> bool" where
  "useHasUserVoted useQuery w endpoint overridesQuery voteAccountQuery proposalPublicKey enabledProp =
     (let overrides = (case fst overridesQuery of Some vs \<Rightarrow> vs | None \<Rightarrow> []);
          voteAccount = fst voteAccountQuery;
          enabled = (wc_connected w \<and> wc_publicKey w \<noteq> None \<and> enabledProp \<and> is_set proposalPublicKey \<and>
                     \<not> snd overridesQuery \<and> \<not> snd voteAccountQuery);
          (data, isLoading) = useQuery enabled (endpoint, proposalPublicKey, length overrides, voteAccount \<noteq> None)
                                (getUserHasVoted overrides voteAccount)
      in (data, snd overridesQuery \<or> isLoading))"

definition useHasUserSupported ::
  "(jsstr \<times> jsstr option \<times> nat, bool) query_lib \<Rightarrow> wallet_ctx \<Rightarrow> jsstr \<Rightarrow> support_account_data list option \<times> bool \<Rightarrow>
   jsstr option \<Rightarrow> bool \<Rightarrow> bool option \<times> bool" where
  "useHasUserSupported useQuery w endpoint supportsQuery proposalPublicKey enabledProp =
     (let supports = (case fst supportsQuery of Some vs \<Rightarrow> vs | None \<Rightarrow> []);
          enabled = (wc_connected w \<and> wc_publicKey w \<noteq> None \<and> enabledProp \<and> is_set proposalPublicKey \<and> \<not> snd supportsQuery);
          (data, isLoading) = useQuery enabled (endpoint, proposalPublicKey, length supports) (getUserHasSupported supports)
      in (data, snd supportsQuery \<or> isLoading))"

text \<open>Here the key names the wallet, and the query function reads the vote account itself.\<close>

definition useHasValidatorVoted_enabled :: "wallet_ctx \<Rightarrow> wallet_role \<Rightarrow> jsstr option \<Rightarrow> bool \<Rightarrow> bool" where
  "useHasValidatorVoted_enabled w role proposalPublicKey enabledProp \<longleftrightarrow>
     wc_connected w \<and> wc_publicKey w \<noteq> None \<and> enabledProp \<and> is_set proposalPublicKey \<and>
     (role = RoleValidator \<or> role = RoleBoth)"

definition useHasValidatorVoted_query ::
  "read_env \<Rightarrow> jsstr \<Rightarrow> jsstr option \<Rightarrow> jsstr option \<Rightarrow> (read_event, bool) io" where
  "useHasValidatorVoted_query env endpoint proposalPublicKey userPubKey =
     io_bind (getValidatorProposalVoteAccount env endpoint proposalPublicKey userPubKey) (\<lambda>v. io_return (v \<noteq> None))"

section \<open>Properties\<close>

lemma default_not_valid: "\<not> isValidDistribution DEFAULT_DISTRIBUTION"
  by (simp add: isValidDistribution_def totalPercentage_def DEFAULT_DISTRIBUTION_def js_int js_arith)

text \<open>The three buttons of a proposal's page open the dialog of the wallet's voting path for that
  proposal, but the choice they pass is lost: the effect that runs because the dialog is open resets the
  vote form after the form has adopted the choice, so that every dialog starts with 0, 0 and 0, and
  its submit button is disabled.\<close>

theorem vote_button_choice_discarded:
  "case ActiveModal (handleVoteButton env a (Some p) (Some c) opt st) of
     Some (ActiveCast d) \<Rightarrow> hasOnChainValidatorIdentity a \<and> dg_id d = Some (toBase58 env p) \<and> dg_consensus d = Some c \<and>
       dg_dist d = DEFAULT_DISTRIBUTION \<and> cast_disabled denv d
   | Some (ActiveOverride d) \<Rightarrow> \<not> hasOnChainValidatorIdentity a \<and> dg_id d = Some (toBase58 env p) \<and> dg_consensus d = Some c \<and>
       dg_dist d = DEFAULT_DISTRIBUTION \<and> override_disabled denv d
   | _ \<Rightarrow> False"
  by (simp add: handleVoteButton_def openModal_def ActiveModal_def getVoteModalNames_def vote_props_def Let_def
      cast_mount_def override_mount_def cast_opened_def override_opened_def distribution_effect_def resetDistribution_def
      cast_disabled_def override_disabled_def default_not_valid)

text \<open>What the card of a proposal opens: only for a connected wallet whose identity is known, and
  never while its buttons are disabled; a voting dialog comes with the proposal and its consensus
  result and is the one of the wallet's voting path, and the dialog for support names the proposal.\<close>

theorem card_opens_matching_dialog:
  assumes "OpenModal name props \<in> set (card_handleAction env c p a)"
    and "getProposalAction (rec_status p) = Some a \<or> a = ActModifyVote \<and> shouldShowModifyButton (rec_status p)"
  shows "ca_connected c \<and> \<not> ca_isLoadingVoteIdentity c \<and> \<not> card_buttons_disabled c p \<and>
    dp_proposalId props = Some (toBase58 env (rec_publicKey p)) \<and> name \<in> set MODAL_COMPONENTS \<and>
    (if a = ActSupport then rec_status p = Supporting \<and> name = js ''support-proposal''
     else rec_status p = Voting \<and> rec_consensusResult p \<noteq> None \<and> dp_consensusResult props = rec_consensusResult p \<and>
       name = (if a = ActCastVote then fst else snd) (getVoteModalNames (ca_chainVoteAccount c)))"
proof -
  have open': "ca_connected c" "\<not> ca_isLoadingVoteIdentity c" "\<not> (ca_role c = RoleStaker \<and> rec_status p = Supporting)"
    and act: "a \<noteq> ActViewDetails"
    using assms(1) by (auto simp: card_handleAction_def Let_def split: if_splits)
  have st: "a = ActSupport \<and> rec_status p = Supporting \<or> a \<in> {ActCastVote, ActModifyVote} \<and> rec_status p = Voting"
    using assms(2) act by (cases "rec_status p") (auto simp: shouldShowModifyButton_def)
  have names: "name \<in> set MODAL_COMPONENTS" if "name \<in> {js ''support-proposal'', fst (getVoteModalNames x), snd (getVoteModalNames x)}" for x
    using that by (auto simp: MODAL_COMPONENTS_def getVoteModalNames_def split: if_splits)
  show ?thesis
    using assms(1) open' act st names [of "ca_chainVoteAccount c"]
    by (cases a; cases "rec_consensusResult p")
       (auto simp: card_handleAction_def card_buttons_disabled_def vote_props_def Let_def)
qed

definition sample_card :: "chain_vote_account option \<Rightarrow> card_env" where
  "sample_card a = \<lparr>ca_connected = True, ca_isLoadingVoteIdentity = False, ca_role = RoleStaker, ca_chainVoteAccount = a\<rparr>"

definition voting_record :: proposal_record where
  "voting_record =
     \<lparr>rec_publicKey = PublicKey (js ''prop''), rec_id = [], rec_proposalRef = None, rec_title = [], rec_description = [], rec_author = [],
      rec_creationEpoch = Num 0, rec_startEpoch = Num 0, rec_endEpoch = Num 0, rec_creationTimestamp = Num 0,
      rec_clusterSupportLamports = Num 0, rec_forVotesLamports = Num 0, rec_againstVotesLamports = Num 0,
      rec_abstainVotesLamports = Num 0, rec_voteCount = Num 0, rec_proposerStakeWeightBp = Num 0, rec_status = Voting,
      rec_voting = True, rec_finalized = False, rec_consensusResult = Some (PublicKey (js ''cons'')), rec_snapshotSlot = Num 0,
      rec_proposalBump = Num 0, rec_index = Num 0, rec_voteState = Voting, rec_lastUpdated = []\<rparr>"

theorem card_opens_matching_dialog_witness:
  "card_handleAction (sample_env True) (sample_card None) voting_record ActCastVote =
     [OpenModal (js ''override-vote'') (vote_props (sample_env True) (PublicKey (js ''prop'')) (PublicKey (js ''cons'')) None)] \<and>
   \<not> card_buttons_disabled (sample_card None) voting_record"
proof -
  have run: "card_handleAction (sample_env True) (sample_card None) voting_record ActCastVote =
     [OpenModal (js ''override-vote'') (vote_props (sample_env True) (PublicKey (js ''prop'')) (PublicKey (js ''cons'')) None)]"
    by (simp add: card_handleAction_def sample_card_def voting_record_def getVoteModalNames_def hasOnChainValidatorIdentity_def Let_def)
  have "getProposalAction (rec_status voting_record) = Some ActCastVote" by (simp add: voting_record_def)
  with card_opens_matching_dialog [of _ _ "sample_env True" "sample_card None" voting_record ActCastVote] run show ?thesis by simp
qed

definition has_override :: "chain_env \<Rightarrow> vote_override_data list \<Rightarrow> stake_account_data \<Rightarrow> bool" where
  "has_override env overrides a \<longleftrightarrow> (\<exists>v\<in>set overrides. toBase58 env (vo_stakeAccount v) = sa_stakeAccount a)"

text \<open>The two override dialogs divide the stake accounts of a wallet: an account with active stake can
  be chosen in the dialog that casts an override exactly when it has none yet, in the dialog that
  modifies one exactly when it has one; an account without active stake in neither.\<close>

theorem dropdowns_partition_accounts:
  assumes "a \<in> set accounts"
  shows "(isAccountValid (override_disabledAccounts env overrides) a \<longleftrightarrow> Num 0 < sa_activeStake a \<and> \<not> has_override env overrides a) \<and>
    (isAccountValid (modify_disabledAccounts env overrides (Some accounts)) a \<longleftrightarrow> Num 0 < sa_activeStake a \<and> has_override env overrides a)"
proof -
  have "isAccountValid (override_disabledAccounts env overrides) a \<longleftrightarrow> Num 0 < sa_activeStake a \<and> \<not> has_override env overrides a"
    by (auto simp: isAccountValid_def override_disabledAccounts_def has_override_def image_iff eq_commute)
  moreover have "sa_stakeAccount a \<in> sa_stakeAccount ` {a \<in> set accounts. \<not> list_ex (\<lambda>v. toBase58 env (vo_stakeAccount v) = sa_stakeAccount a) overrides} \<longleftrightarrow> \<not> has_override env overrides a"
    using assms(1) by (auto simp: has_override_def list_ex_iff image_iff)
  ultimately show ?thesis by (simp add: isAccountValid_def modify_disabledAccounts_def conj_commute)
qed

theorem dropdowns_partition_accounts_witness:
  "\<not> isAccountValid (override_disabledAccounts (sample_env True) [stored_vote 29 9971 0])
       \<lparr>sa_id = js ''0'', sa_stakeAccount = js ''stake'', sa_activeStake = Num 7, sa_voteAccount = None, sa_state = js ''delegated''\<rparr>"
  using dropdowns_partition_accounts
    [of "\<lparr>sa_id = js ''0'', sa_stakeAccount = js ''stake'', sa_activeStake = Num 7, sa_voteAccount = None, sa_state = js ''delegated''\<rparr>"
        "[\<lparr>sa_id = js ''0'', sa_stakeAccount = js ''stake'', sa_activeStake = Num 7, sa_voteAccount = None, sa_state = js ''delegated''\<rparr>]"
        "sample_env True" "[stored_vote 29 9971 0]"]
  by (simp add: stored_vote_def sample_fields has_override_def)

text \<open>Whether the visitor has voted is answered from the cache by a key that determines the answer.
  But the flag that the answer is still loading leaves out the vote account: while the vote account of
  a validator is being read, the query is disabled, for which the library reports no data and no
  loading, and then the buttons of the page are enabled and so is the submit button of a completed
  dialog.\<close>

theorem has_voted_flag_gap:
  assumes "wc_connected w" "\<forall>key v. useQuery False key v = (None, False)"
    and "useHasUserVoted useQuery w endpoint (overrides, False) (voteAccount, True) (Some pk) True = (data, isLoading)"
    and "de_hasVoted denv = data" "de_isLoadingHasVoted denv = isLoading"
    and "is_set (dg_id d)" "isValidDistribution (dg_dist d)" "\<not> dg_isLoading d"
  shows "\<not> cast_buttons_disabled False (Some p) False False isLoading data \<and> \<not> cast_disabled denv d \<and>
    (length vs = length vs' \<longrightarrow> (va = None \<longleftrightarrow> va' = None) \<longrightarrow> getUserHasVoted vs va = getUserHasVoted vs' va')"
  using assms by (auto simp: useHasUserVoted_def cast_buttons_disabled_def cast_disabled_def getUserHasVoted_def Let_def)

definition idle_library :: "(has_voted_key, bool) query_lib" where
  "idle_library enabled key v = (if enabled then Some v else None, False)"

theorem has_voted_flag_gap_witness:
  "\<not> cast_disabled ((sample_denv RoleValidator)\<lparr>de_hasVoted := None\<rparr>) sample_cast_state"
proof -
  let ?w = "\<lparr>wc_publicKey = Some (PublicKey (js ''id'')), wc_connected = True\<rparr>"
  have q: "useHasUserVoted idle_library ?w (js ''rpc'') (None, False) (None, True) (Some (js ''prop'')) True = (None, False)"
    by (simp add: useHasUserVoted_def idle_library_def Let_def)
  show ?thesis
    by (rule has_voted_flag_gap [of ?w idle_library, OF _ _ q, THEN conjunct2, THEN conjunct1])
       (simp_all add: idle_library_def sample_denv_def sample_cast_state_def cast_mount_def cast_opened_def
          distribution_effect_def cast_initial_def sample_props_def is_set_def sample_split_valid)
qed

end
