(* ===== verification/Stake_Accounts.thy ===== *)
theory Stake_Accounts
  imports Vote_Dialogs Validators
begin

text \<open>
  Stake: reading stake accounts and vote accounts from the node (\<open>data/getWalletStakeAccounts.ts\<close>,
  \<open>getDelegatedStakeAccounts.ts\<close>, \<open>getValidatorVoteAccounts.ts\<close>), the voting power shown for a wallet
  (\<open>hooks/useStakerVotingPower.ts\<close>, \<open>useValidatorVotingPower.ts\<close>), the votes of a stake account
  (\<open>hooks/useStakerVotedProposals.ts\<close>) and the state of the two account tables of the dashboard
  (\<open>governance/staker/StakeAccountsTable.tsx\<close>, \<open>governance/validator/VoteAccountsTable.tsx\<close>).  What the node
  answers is a record of answers; the parsed form of a stake account is a record of the optional
  fields the code looks at.
\<close>

section \<open>Reading\<close>

record parsed_delegation =
  pd_voter :: "jsstr option"
  pd_stake :: "jsstr option"

record parsed_stake =
  ps_type :: jsstr
  ps_delegation :: "parsed_delegation option"
  ps_authorized :: "(jsstr \<times> jsstr) option"

text \<open>The data of an account: parsed by the node, or its raw bytes.\<close>

datatype account_data = Parsed parsed_stake | RawData

datatype stake_event = ReadStakeAccounts jsstr nat "memcmp list" | ReadVoteAccounts jsstr

record stake_env =
  se_chain :: chain_env
  se_stakes :: "stake_event list \<Rightarrow> jsstr \<Rightarrow> nat \<Rightarrow> memcmp list \<Rightarrow> js_error + (pubkey \<times> account_data) list"
  se_votes :: "stake_event list \<Rightarrow> jsstr \<Rightarrow> js_error + raw_vote_accounts"

text \<open>\<open>parseFloat\<close>: the longest prefix that is a decimal literal.\<close>

definition exponent_prefix :: "jsstr \<Rightarrow> int" where
  "exponent_prefix s =
     (case s of [] \<Rightarrow> 0
      | e # t \<Rightarrow>
          if e \<noteq> 101 \<and> e \<noteq> 69 then 0
          else (let neg = (t \<noteq> [] \<and> hd t = 45);
                    ds = takeWhile is_digit (if t \<noteq> [] \<and> (hd t = 45 \<or> hd t = 43) then tl t else t)
                in if ds = [] then 0 else if neg then - int (dec_val ds) else int (dec_val ds)))"

definition float_prefix :: "jsstr \<Rightarrow> number" where
  "float_prefix s =
     (if startsWith s (js ''Infinity'') then Infinity
      else let ip = takeWhile is_digit s; r = dropWhile is_digit s;
               dot = (r \<noteq> [] \<and> hd r = 46);
               fp = (if dot then takeWhile is_digit (tl r) else []);
               r' = (if dot then dropWhile is_digit (tl r) else r)
           in if ip @ fp = [] then NaN
              else to_double (of_nat (dec_val (ip @ fp)) * 10 powi (exponent_prefix r' - int (length fp))))"

definition parseFloat :: "jsstr \<Rightarrow> number" where
  "parseFloat s = Js_String.signed float_prefix (trimStart s)"

definition isParsedStakeAccount :: "account_data \<Rightarrow> bool" where
  "isParsedStakeAccount d = (case d of Parsed _ \<Rightarrow> True | RawData \<Rightarrow> False)"

definition mapStakeAccountDto :: "chain_env \<Rightarrow> pubkey \<times> account_data \<Rightarrow> nat \<Rightarrow> js_error + stake_account_data" where
  "mapStakeAccountDto env raw index =
     (case snd raw of
        RawData \<Rightarrow> Inl (JsError (js ''Account is not a parsed stake account''))
      | Parsed p \<Rightarrow>
          Inr \<lparr>sa_id = dec index, sa_stakeAccount = toBase58 env (fst raw),
               sa_activeStake = (let stake = Option.bind (ps_delegation p) pd_stake in if is_set stake then parseFloat (the stake) else Num 0),
               sa_voteAccount = Option.bind (ps_delegation p) pd_voter, sa_state = ps_type p\<rparr>)"

definition getWalletStakeAccounts :: "stake_env \<Rightarrow> jsstr \<Rightarrow> jsstr option \<Rightarrow> (stake_event, stake_account_data list) io" where
  "getWalletStakeAccounts env endpoint userPubkey =
     io_bind (io_lift (new_Connection (se_chain env) endpoint)) (\<lambda>_.
     if \<not> is_set userPubkey then io_throw (JsError (js ''User public key is required''))
     else let fs = [\<lparr>mc_offset = 44, mc_bytes = the userPubkey\<rparr>] in
       io_bind (io_call (ReadStakeAccounts endpoint 200 fs) (\<lambda>l. se_stakes env l endpoint 200 fs)) (\<lambda>accs.
         io_lift (res_map (\<lambda>(i, acc). mapStakeAccountDto (se_chain env) acc i) (enumerate 0 accs))))"

record delegated_stake =
  ds_stakeAccount :: jsstr
  ds_voter :: "jsstr option"
  ds_amountSOL :: number
  ds_staker :: "jsstr option"
  ds_withdrawer :: "jsstr option"
  ds_state :: "jsstr option"

definition delegated_of :: "chain_env \<Rightarrow> pubkey \<times> account_data \<Rightarrow> delegated_stake" where
  "delegated_of env acc =
     (let parsed = (case snd acc of Parsed p \<Rightarrow> Some p | RawData \<Rightarrow> None);
          delegation = Option.bind parsed ps_delegation;
          stake = Option.bind delegation pd_stake;
          authorized = Option.bind parsed ps_authorized
      in \<lparr>ds_stakeAccount = toBase58 env (fst acc), ds_voter = Option.bind delegation pd_voter,
          ds_amountSOL = (if is_set stake then string_to_number (the stake) else Num 0) / Num 1000000000,
          ds_staker = map_option fst authorized, ds_withdrawer = map_option snd authorized,
          ds_state = map_option ps_type parsed\<rparr>)"

fun delegated_loop :: "stake_env \<Rightarrow> jsstr \<Rightarrow> vote_account_info list \<Rightarrow> (stake_event, delegated_stake list) io" where
  "delegated_loop env endpoint [] = io_return []"
| "delegated_loop env endpoint (vote # votes) =
     io_bind (io_lift (new_PublicKey (se_chain env) (va_votePubkey vote))) (\<lambda>voter.
     let fs = [\<lparr>mc_offset = 124, mc_bytes = toBase58 (se_chain env) voter\<rparr>] in
     io_bind (io_call (ReadStakeAccounts endpoint 200 fs) (\<lambda>l. se_stakes env l endpoint 200 fs)) (\<lambda>accs.
     io_bind (delegated_loop env endpoint votes) (\<lambda>rest.
       io_return (map (delegated_of (se_chain env)) accs @ rest))))"

definition getDelegatedStakeAccounts :: "stake_env \<Rightarrow> jsstr \<Rightarrow> jsstr option \<Rightarrow> (stake_event, delegated_stake list) io" where
  "getDelegatedStakeAccounts env endpoint identity =
     io_bind (io_lift (new_Connection (se_chain env) endpoint)) (\<lambda>_.
     if \<not> is_set identity then io_throw (JsError (js ''Validator identity public key is required''))
     else io_bind (io_call (ReadVoteAccounts endpoint) (\<lambda>l. se_votes env l endpoint)) (\<lambda>accounts.
       let validatorVotes = filter (\<lambda>v. Some (va_nodePubkey v) = identity) (rv_current accounts @ rv_delinquent accounts) in
       if length validatorVotes = 0 then io_return [] else delegated_loop env endpoint validatorVotes))"

definition mapValidatorVoteAccountDto :: "vote_account_info \<Rightarrow> chain_vote_account" where
  "mapValidatorVoteAccountDto raw =
     \<lparr>cv_activeStake = va_activatedStake raw, cv_voteAccount = va_votePubkey raw, cv_nodePubkey = va_nodePubkey raw\<rparr>"

definition getValidatorVoteAccounts :: "stake_env \<Rightarrow> jsstr \<Rightarrow> jsstr option \<Rightarrow> (stake_event, chain_vote_account option) io" where
  "getValidatorVoteAccounts env endpoint validatorPubkey =
     io_bind (io_lift (new_Connection (se_chain env) endpoint)) (\<lambda>_.
     if \<not> is_set validatorPubkey then io_throw (JsError (js ''User public key is required''))
     else io_bind (io_call (ReadVoteAccounts endpoint) (\<lambda>l. se_votes env l endpoint)) (\<lambda>accounts.
       io_return (map_option mapValidatorVoteAccountDto
         (List.find (\<lambda>acc. Some (va_nodePubkey acc) = validatorPubkey) (rv_current accounts)))))"

section \<open>Voting power\<close>

definition useStakerVotingPower :: "stake_account_data list option \<Rightarrow> number option" where
  "useStakerVotingPower stakeAccounts = map_option (foldl (\<lambda>acc curr. acc + sa_activeStake curr) (Num 0)) stakeAccounts"

definition useValidatorVotingPower :: "chain_vote_account option \<Rightarrow> number" where
  "useValidatorVotingPower voteAccount = (case voteAccount of Some a \<Rightarrow> or_zero (cv_activeStake a) | None \<Rightarrow> Num 0)"

section \<open>The votes of a stake account\<close>

definition stake_override_filters :: "stake_account_data \<Rightarrow> override_filters" where
  "stake_override_filters a = [(FStakeAccount, sa_stakeAccount a)]"

definition useStakerVotedProposals ::
  "chain_env \<Rightarrow> vote_override_data list option \<Rightarrow> proposal_record list option \<Rightarrow> js_error + vote_proposal_data list" where
  "useStakerVotedProposals env overrides proposals =
     (case overrides of None \<Rightarrow> Inl (JsError (js ''Unable to get vote accounts''))
      | Some vs \<Rightarrow> (case proposals of None \<Rightarrow> Inl (JsError (js ''Unable to get proposals''))
                   | Some ps \<Rightarrow> Inr (getVoteProposals env vs ps)))"

section \<open>The tables of the dashboard\<close>

definition stakeAmountOptions :: "jsstr list" where
  "stakeAmountOptions = map js [''All'', ''10000'', ''50000'', ''100000'', ''500000'']"

definition stakeStatusOptions :: "jsstr list" where
  "stakeStatusOptions = map js [''All'', ''delegated'', ''inactive'', ''initialized'', ''deactivating'', ''cooldown'']"

definition stakeSizeOptions :: "jsstr list" where
  "stakeSizeOptions = map js [''All'', ''1000'', ''10000'', ''100000'', ''1000000'']"

text \<open>The state of the table of stake accounts; sorting and column filters belong to the table library.\<close>

record stake_table =
  tb_searchValue :: jsstr
  tb_stakeSizeFilter :: jsstr
  tb_stakeStatusFilter :: jsstr
  tb_expanded :: "jsstr \<Rightarrow> bool"
  tb_selectedRow :: "stake_account_data option"

definition stake_table_init :: stake_table where
  "stake_table_init = \<lparr>tb_searchValue = [], tb_stakeSizeFilter = js ''All'', tb_stakeStatusFilter = js ''All'', tb_expanded = (\<lambda>_. False), tb_selectedRow = None\<rparr>"

definition stake_filteredData :: "stake_table \<Rightarrow> stake_account_data list \<Rightarrow> stake_account_data list" where
  "stake_filteredData st rows =
     (let needle = toLowerCase (tb_searchValue st);
          filtered = (if tb_searchValue st \<noteq> []
            then filter (\<lambda>row. str_includes (toLowerCase (sa_stakeAccount row)) needle \<or>
                   (case sa_voteAccount row of Some v \<Rightarrow> str_includes (toLowerCase v) needle | None \<Rightarrow> False)) rows
            else rows);
          filtered = (if tb_stakeSizeFilter st \<noteq> js ''All''
            then filter (\<lambda>row. parseFloat (tb_stakeSizeFilter st) * Num 1000000000 \<le> sa_activeStake row) filtered else filtered)
      in if tb_stakeStatusFilter st \<noteq> js ''All'' then filter (\<lambda>row. sa_state row = tb_stakeStatusFilter st) filtered else filtered)"

definition handleRowToggle :: "stake_account_data \<Rightarrow> jsstr \<Rightarrow> stake_table \<Rightarrow> stake_table" where
  "handleRowToggle rowData rowId st = st\<lparr>tb_expanded := (tb_expanded st)(rowId := \<not> tb_expanded st rowId), tb_selectedRow := Some rowData\<rparr>"

definition stake_handleReset :: "stake_table \<Rightarrow> stake_table" where
  "stake_handleReset st = st\<lparr>tb_searchValue := [], tb_stakeSizeFilter := js ''All'', tb_stakeStatusFilter := js ''All''\<rparr>"

definition vote_filteredData :: "chain_env \<Rightarrow> jsstr \<Rightarrow> jsstr \<Rightarrow> old_vote_account_data list \<Rightarrow> old_vote_account_data list" where
  "vote_filteredData env searchValue stakeSizeFilter rows =
     (let filtered = (if searchValue \<noteq> []
            then filter (\<lambda>row. str_includes (toLowerCase (toBase58 env (ova_voteAccount row))) (toLowerCase searchValue)) rows else rows)
      in if stakeSizeFilter \<noteq> js ''All'' then filter (\<lambda>row. parseFloat stakeSizeFilter * Num 1000000000 \<le> ova_activeStake row) filtered
         else filtered)"

section \<open>Laws\<close>

lemma float_prefix_dec: "float_prefix (dec n) = to_double (of_nat n)"
proof -
  obtain c cs where d: "dec n = c # cs" by (cases "dec n") auto
  have "\<not> startsWith (dec n) (js ''Infinity'')" using hd_dec [of n] by (auto simp: d js_def is_digit_def)
  moreover have dw: "dropWhile is_digit (dec n) = []" by (simp add: dec_digits)
  moreover have "dec n \<noteq> []" by (simp add: d)
  ultimately show ?thesis by (simp add: float_prefix_def exponent_prefix_def Let_def dw del: dropWhile_eq_Nil_conv)
qed

lemma parseFloat_dec: "parseFloat (dec n) = to_double (of_nat n)"
proof -
  obtain c cs where d: "dec n = c # cs" by (cases "dec n") auto
  have c: "is_digit c" using hd_dec [of n] d by simp
  have "trimStart (dec n) = dec n" using hd_dec [of n] by (intro trimStart_id) (simp add: not_space_digit)
  moreover have "Js_String.signed float_prefix (dec n) = float_prefix (dec n)" using c by (auto simp: Js_String.signed_def d is_digit_def)
  ultimately show ?thesis by (simp add: parseFloat_def float_prefix_dec)
qed

lemma parseFloat_dec_exact: "n < 2 ^ 53 \<Longrightarrow> parseFloat (dec n) = inum (int n)"
  unfolding parseFloat_dec inum_def using to_double_of_int [of "int n"] by simp

text \<open>The stake an account holds, as an integer, when the node prints it in decimal.\<close>

definition lamports_of :: "account_data \<Rightarrow> nat" where
  "lamports_of d = (case d of Parsed p \<Rightarrow> (case Option.bind (ps_delegation p) pd_stake of Some s \<Rightarrow> dec_val s | None \<Rightarrow> 0) | RawData \<Rightarrow> 0)"

definition decimal_stake :: "account_data \<Rightarrow> bool" where
  "decimal_stake d \<longleftrightarrow> (case d of Parsed p \<Rightarrow> (case Option.bind (ps_delegation p) pd_stake of Some s \<Rightarrow> s = dec (dec_val s) | None \<Rightarrow> True) | RawData \<Rightarrow> True)"

lemma mapped_stake:
  assumes "mapStakeAccountDto env (k, d) i = Inr a" "decimal_stake d" "lamports_of d < 2 ^ 53"
  shows "sa_activeStake a = inum (int (lamports_of d))" "sa_stakeAccount a = toBase58 env k" "sa_id a = dec i"
proof -
  obtain p where p: "d = Parsed p" using assms(1) by (cases d) (auto simp: mapStakeAccountDto_def)
  have "parseFloat s = inum (int (dec_val s))" if "s = dec (dec_val s)" "dec_val s < 2 ^ 53" for s
    using parseFloat_dec_exact [OF that(2)] that(1) by metis
  then show "sa_activeStake a = inum (int (lamports_of d))"
    using assms by (auto simp: mapStakeAccountDto_def p lamports_of_def decimal_stake_def is_set_def js_int Let_def dec_val_def split: option.splits)
  show "sa_stakeAccount a = toBase58 env k" "sa_id a = dec i" using assms(1) by (auto simp: mapStakeAccountDto_def p)
qed

lemma power_sum:
  assumes "length as = length ds" "\<forall>i<length ds. sa_activeStake (as ! i) = inum (int (ds ! i))" "m + sum_list ds < 2 ^ 53"
  shows "foldl (\<lambda>acc curr. acc + sa_activeStake curr) (inum (int m)) as = inum (int (m + sum_list ds))"
  using assms
proof (induction as ds arbitrary: m rule: list_induct2)
  case (Cons a as d ds)
  have "sa_activeStake a = inum (int d)" using Cons.prems(1) [rule_format, of 0] by simp
  moreover have "inum (int m) + inum (int d) = inum (int (m + d))" using Cons.prems(2) inum_arith(1) [of "int m" "int d"] by simp
  moreover have "\<forall>i<length ds. sa_activeStake (as ! i) = inum (int (ds ! i))" using Cons.prems(1) by auto
  ultimately show ?case using Cons.IH [of "m + d"] Cons.prems(2) by (simp add: add.assoc)
qed simp

text \<open>The voting power of a staker: the accounts are read once, by the wallet's key at the offset of the
  withdraw authority; the list shows each of them in the order of the node under its own address,
  and the power shown is the exact sum of their stakes (in lamports, below the limit of exact
  integers).\<close>

theorem staker_power_exact:
  assumes "getWalletStakeAccounts env endpoint (Some user) l = (Inr as, l')"
    and "se_stakes env l endpoint 200 [\<lparr>mc_offset = 44, mc_bytes = user\<rparr>] = Inr accs"
    and "\<forall>(k, d)\<in>set accs. decimal_stake d" "sum_list (map (lamports_of \<circ> snd) accs) < 2 ^ 53"
  shows "l' = l @ [ReadStakeAccounts endpoint 200 [\<lparr>mc_offset = 44, mc_bytes = user\<rparr>]] \<and>
    map sa_stakeAccount as = map (toBase58 (se_chain env) \<circ> fst) accs \<and> map sa_id as = map dec [0..<length accs] \<and>
    useStakerVotingPower (Some as) = Some (inum (int (sum_list (map (lamports_of \<circ> snd) accs))))"
proof -
  have l: "l' = l @ [ReadStakeAccounts endpoint 200 [\<lparr>mc_offset = 44, mc_bytes = user\<rparr>]]"
    and r: "res_map (\<lambda>(i, acc). mapStakeAccountDto (se_chain env) acc i) (enumerate 0 accs) = Inr as"
    using assms(1,2) unfolding getWalletStakeAccounts_def by (auto simp: io_success Let_def split: if_splits)
  have len: "length as = length accs" using res_map_length [OF r] by simp
  have dto: "mapStakeAccountDto (se_chain env) (accs ! i) i = Inr (as ! i)" if "i < length accs" for i
    using res_map_nth [OF r, of i] that by (simp add: nth_enumerate_eq)
  have el: "sa_activeStake (as ! i) = inum (int (lamports_of (snd (accs ! i)))) \<and> sa_stakeAccount (as ! i) = toBase58 (se_chain env) (fst (accs ! i)) \<and>
      sa_id (as ! i) = dec i" if i: "i < length accs" for i
  proof -
    have "lamports_of (snd (accs ! i)) \<le> sum_list (map (lamports_of \<circ> snd) accs)"
      using i by (intro member_le_sum_list) (auto intro: rev_image_eqI)
    moreover have "decimal_stake (snd (accs ! i))" using assms(3) nth_mem [OF i] by (cases "accs ! i") auto
    ultimately show ?thesis using mapped_stake [of "se_chain env" "fst (accs ! i)" "snd (accs ! i)" i "as ! i"] dto [OF i] assms(4) by simp
  qed
  have power: "useStakerVotingPower (Some as) = Some (inum (int (sum_list (map (lamports_of \<circ> snd) accs))))"
    using power_sum [of as "map (lamports_of \<circ> snd) accs" 0] el len assms(4) by (simp add: useStakerVotingPower_def js_int)
  have shown: "map sa_stakeAccount as = map (toBase58 (se_chain env) \<circ> fst) accs" "map sa_id as = map dec [0..<length accs]"
    by (rule nth_equalityI; use el len in simp)+
  show ?thesis by (intro conjI l shown power)
qed

definition sample_stake_env :: stake_env where
  "sample_stake_env =
     \<lparr>se_chain = sample_env True,
      se_stakes = \<lambda>l e n fs. Inr [(PublicKey (js ''a''), Parsed \<lparr>ps_type = js ''delegated'',
          ps_delegation = Some \<lparr>pd_voter = Some (js ''v''), pd_stake = Some (dec 1500000000)\<rparr>, ps_authorized = None\<rparr>),
        (PublicKey (js ''b''), Parsed \<lparr>ps_type = js ''initialized'', ps_delegation = None, ps_authorized = None\<rparr>)],
      se_votes = \<lambda>l e. Inr \<lparr>rv_current = [], rv_delinquent = []\<rparr>\<rparr>"

theorem staker_power_exact_witness:
  "\<exists>as. fst (getWalletStakeAccounts sample_stake_env (js ''rpc'') (Some (js ''me'')) []) = Inr as \<and>
     useStakerVotingPower (Some as) = Some (inum 1500000000)"
proof -
  let ?env = sample_stake_env and ?fs = "[\<lparr>mc_offset = 44, mc_bytes = js ''me''\<rparr>]"
  obtain accs where a: "se_stakes ?env [] (js ''rpc'') 200 ?fs = Inr accs" "\<forall>(k, d)\<in>set accs. decimal_stake d"
      "sum_list (map (lamports_of \<circ> snd) accs) = 1500000000"
    by (simp add: sample_stake_env_def decimal_stake_def lamports_of_def)
  obtain as l' where run: "getWalletStakeAccounts ?env (js ''rpc'') (Some (js ''me'')) [] = (Inr as, l')"
    by (simp add: getWalletStakeAccounts_def io_defs is_set_def sample_stake_env_def sample_fields mapStakeAccountDto_def Let_def)
  show ?thesis using staker_power_exact [OF run a(1,2)] a(3) unfolding run by simp
qed

text \<open>The reads for a validator: one read of the vote accounts, then one read for each vote account of the
  identity, at the offset of the delegation, in their order.\<close>

lemma delegated_loop_run:
  assumes "delegated_loop env endpoint votes l = (Inr ds, l')"
  shows "\<exists>voters. list_all2 (\<lambda>v k. new_PublicKey (se_chain env) (va_votePubkey v) = Inr k) votes voters \<and>
    l' = l @ map (\<lambda>k. ReadStakeAccounts endpoint 200 [\<lparr>mc_offset = 124, mc_bytes = toBase58 (se_chain env) k\<rparr>]) voters"
  using assms
proof (induction votes arbitrary: l ds l')
  case (Cons v votes)
  from Cons.prems obtain k ds' where k: "new_PublicKey (se_chain env) (va_votePubkey v) = Inr k" and
    run: "delegated_loop env endpoint votes (l @ [ReadStakeAccounts endpoint 200 [\<lparr>mc_offset = 124, mc_bytes = toBase58 (se_chain env) k\<rparr>]]) = (Inr ds', l')"
    by (auto simp: io_success Let_def)
  from Cons.IH [OF run] obtain voters where "list_all2 (\<lambda>v k. new_PublicKey (se_chain env) (va_votePubkey v) = Inr k) votes voters"
    "l' = (l @ [ReadStakeAccounts endpoint 200 [\<lparr>mc_offset = 124, mc_bytes = toBase58 (se_chain env) k\<rparr>]]) @
      map (\<lambda>k. ReadStakeAccounts endpoint 200 [\<lparr>mc_offset = 124, mc_bytes = toBase58 (se_chain env) k\<rparr>]) voters" by blast
  with k show ?case by (intro exI [of _ "k # voters"]) simp
qed (simp add: io_success)

lemma delegated_reads:
  assumes "getDelegatedStakeAccounts env endpoint (Some identity) l = (Inr ds, l')"
  shows "\<exists>accounts voters. se_votes env l endpoint = Inr accounts \<and>
    list_all2 (\<lambda>v k. new_PublicKey (se_chain env) (va_votePubkey v) = Inr k)
      (filter (\<lambda>v. va_nodePubkey v = identity) (rv_current accounts @ rv_delinquent accounts)) voters \<and>
    l' = l @ ReadVoteAccounts endpoint # map (\<lambda>k. ReadStakeAccounts endpoint 200 [\<lparr>mc_offset = 124, mc_bytes = toBase58 (se_chain env) k\<rparr>]) voters"
proof -
  let ?votes = "\<lambda>accounts. filter (\<lambda>v. va_nodePubkey v = identity) (rv_current accounts @ rv_delinquent accounts)"
  obtain accounts where a: "se_votes env l endpoint = Inr accounts" and
    run: "delegated_loop env endpoint (?votes accounts) (l @ [ReadVoteAccounts endpoint]) = (Inr ds, l')"
    using assms unfolding getDelegatedStakeAccounts_def
    by (auto simp: io_success Let_def filter_empty_conv split: if_splits)
  from delegated_loop_run [OF run] a show ?thesis by auto
qed

section \<open>The tables\<close>

definition matches_search :: "jsstr \<Rightarrow> stake_account_data \<Rightarrow> bool" where
  "matches_search needle row \<longleftrightarrow> str_includes (toLowerCase (sa_stakeAccount row)) (toLowerCase needle) \<or>
     (\<exists>v. sa_voteAccount row = Some v \<and> str_includes (toLowerCase v) (toLowerCase needle))"

lemma size_threshold: "n < 2 ^ 23 \<Longrightarrow> parseFloat (dec n) * Num 1000000000 = inum (int n * 1000000000)"
  using parseFloat_dec_exact [of n] by (simp add: js_int js_arith)

text \<open>What the table of stake accounts shows: for every choice of the two drop-downs and every search
  text, exactly the accounts whose address or vote account contains the text, whose stake is at least
  the chosen number of SOL (the labels say more than) and whose state is the chosen one, in their
  order; a reset shows them all and keeps the expanded rows; expanding a row twice changes nothing
  and never affects another row.\<close>

theorem stake_table_shows:
  assumes "tb_stakeSizeFilter st = js ''All'' \<and> n = 0 \<or> tb_stakeSizeFilter st = dec n \<and> tb_stakeSizeFilter st \<in> set stakeAmountOptions"
    and "\<forall>row\<in>set rows. sa_activeStake row = inum (lam row) \<and> 0 \<le> lam row"
  shows "stake_filteredData st rows =
      filter (\<lambda>row. (tb_searchValue st = [] \<or> matches_search (tb_searchValue st) row) \<and> int n * 1000000000 \<le> lam row \<and>
        (tb_stakeStatusFilter st = js ''All'' \<or> sa_state row = tb_stakeStatusFilter st)) rows \<and>
    stake_filteredData (stake_handleReset st) rows = rows \<and> tb_expanded (stake_handleReset st) = tb_expanded st \<and>
    tb_expanded (handleRowToggle r i (handleRowToggle r i st)) = tb_expanded st \<and>
    (i \<noteq> j \<longrightarrow> tb_expanded (handleRowToggle r i st) j = tb_expanded st j)"
proof -
  have opts: "n \<in> {10000, 50000, 100000, 500000}" if "tb_stakeSizeFilter st \<noteq> js ''All''"
  proof -
    have "dec n \<in> set stakeAmountOptions" "dec n \<noteq> js ''All''" using assms(1) that by auto
    then have "dec n \<in> {js ''10000'', js ''50000'', js ''100000'', js ''500000''}" by (auto simp: stakeAmountOptions_def)
    then have "dec_val (dec n) \<in> dec_val ` {js ''10000'', js ''50000'', js ''100000'', js ''500000''}" by blast
    then show ?thesis unfolding dec_val_dec by (simp add: dec_val_def js_def)
  qed
  have thr: "parseFloat (tb_stakeSizeFilter st) * Num 1000000000 = inum (int n * 1000000000)" if "tb_stakeSizeFilter st \<noteq> js ''All''"
    using size_threshold [of n] opts [OF that] assms(1) that by auto
  have all: "js ''All'' \<noteq> dec n" using hd_dec [of n] by (auto simp: js_def is_digit_def dest: sym)
  have size_ok: "(tb_stakeSizeFilter st = js ''All'' \<or> parseFloat (tb_stakeSizeFilter st) * Num 1000000000 \<le> sa_activeStake row) \<longleftrightarrow> int n * 1000000000 \<le> lam row"
    if "row \<in> set rows" for row
    using assms that thr all by (cases "tb_stakeSizeFilter st = js ''All''") auto
  have "stake_filteredData st rows =
      filter (\<lambda>row. (tb_searchValue st = [] \<or> matches_search (tb_searchValue st) row) \<and>
        (tb_stakeSizeFilter st = js ''All'' \<or> parseFloat (tb_stakeSizeFilter st) * Num 1000000000 \<le> sa_activeStake row) \<and>
        (tb_stakeStatusFilter st = js ''All'' \<or> sa_state row = tb_stakeStatusFilter st)) rows"
    by (auto simp: stake_filteredData_def matches_search_def [abs_def] Let_def conj_commute conj_left_commute intro!: filter_cong split: option.splits)
  also have "\<dots> = filter (\<lambda>row. (tb_searchValue st = [] \<or> matches_search (tb_searchValue st) row) \<and> int n * 1000000000 \<le> lam row \<and>
        (tb_stakeStatusFilter st = js ''All'' \<or> sa_state row = tb_stakeStatusFilter st)) rows"
    using size_ok by (intro filter_cong) auto
  finally show ?thesis by (simp add: stake_filteredData_def stake_handleReset_def handleRowToggle_def)
qed

theorem stake_table_shows_witness:
  "stake_filteredData (stake_table_init\<lparr>tb_stakeSizeFilter := js ''10000''\<rparr>)
     [\<lparr>sa_id = js ''0'', sa_stakeAccount = js ''a'', sa_activeStake = inum 10000000000000, sa_voteAccount = None, sa_state = js ''delegated''\<rparr>,
      \<lparr>sa_id = js ''1'', sa_stakeAccount = js ''b'', sa_activeStake = inum 9999999999999, sa_voteAccount = None, sa_state = js ''delegated''\<rparr>] =
     [\<lparr>sa_id = js ''0'', sa_stakeAccount = js ''a'', sa_activeStake = inum 10000000000000, sa_voteAccount = None, sa_state = js ''delegated''\<rparr>]"
proof -
  let ?a = "\<lparr>sa_id = js ''0'', sa_stakeAccount = js ''a'', sa_activeStake = inum 10000000000000, sa_voteAccount = None, sa_state = js ''delegated''\<rparr>"
  let ?b = "\<lparr>sa_id = js ''1'', sa_stakeAccount = js ''b'', sa_activeStake = inum 9999999999999, sa_voteAccount = None, sa_state = js ''delegated''\<rparr>"
  let ?lam = "\<lambda>row. if sa_id row = js ''0'' then 10000000000000 else 9999999999999"
  have d: "js ''10000'' = dec 10000" by (simp add: js_def dec.simps)
  have "js ''10000'' \<in> set stakeAmountOptions" by (simp add: stakeAmountOptions_def)
  then show ?thesis
    using stake_table_shows [THEN conjunct1, of "stake_table_init\<lparr>tb_stakeSizeFilter := js ''10000''\<rparr>" 10000 "[?a, ?b]" ?lam] d
    by (simp add: stake_table_init_def)
qed

end
