(* ===== verification/Mutations.thy ===== *)
theory Mutations
  imports Vote_Dialogs Proposal_Dialogs Proposal_Instructions Governance_Config
begin

text \<open>
  From a dialog to the chain: the mutations the dialogs trigger (\<open>hooks/useCastVote.ts\<close>,
  \<open>useModifyVote.ts\<close>, \<open>useCastVoteOverride.ts\<close>, \<open>useModifyVoteOverride.ts\<close>, \<open>useCreateProposal.ts\<close>,
  \<open>useSupportProposal.ts\<close> over \<open>data/*Mutation.ts\<close>) and the query of the snapshot
  (\<open>hooks/useSnapshotMeta.ts\<close>).  What the contexts provide at that moment is the record \<open>providers\<close>.
  The mutation library runs the function of a mutation once and hands its result, or what it threw,
  to the callbacks of the dialog.  The analytics calls of the hooks are left out.
\<close>

section \<open>The mutation functions\<close>

record network_meta =
  nm_network :: jsstr
  nm_slot :: "number option"
  nm_merkle_root :: jsstr
  nm_snapshot_hash :: jsstr
  nm_created_at :: jsstr
  nm_total_active_stake :: "number option"

record providers =
  pv_endpoint :: endpoint_state
  pv_network :: "jsstr option"
  pv_ncnApiUrl :: jsstr
  pv_config :: "governance_config_dto option"
  pv_meta :: "network_meta option"
  pv_chainVoteAccount :: "chain_vote_account option"

definition SNAPSHOT_SLOT_UNSET_MESSAGE :: jsstr where
  "SNAPSHOT_SLOT_UNSET_MESSAGE = js ''No snapshot slot has been set yet''"

text \<open>The four voting hooks build the same parameters of the builders.\<close>

definition voting_params :: "providers \<Rightarrow> js_error + blockchain_params" where
  "voting_params pv =
     res_bind (requireKnownSnapshotNetwork (pv_network pv)) (\<lambda>network.
       Inr \<lparr>bp_network = network, bp_endpoint = endpointUrl (pv_endpoint pv), bp_ncnApiUrl = Some (pv_ncnApiUrl pv)\<rparr>)"

definition castVoteMutation :: "chain_env \<Rightarrow> vote_params \<Rightarrow> blockchain_params \<Rightarrow> (event, transaction_result) io" where
  "castVoteMutation env p bp = castVote env p bp"

definition modifyVoteMutation :: "chain_env \<Rightarrow> vote_params \<Rightarrow> blockchain_params \<Rightarrow> (event, transaction_result) io" where
  "modifyVoteMutation env p bp = modifyVote env p bp"

definition castVoteOverrideMutation ::
  "chain_env \<Rightarrow> vote_override_params \<Rightarrow> blockchain_params \<Rightarrow> (event, transaction_result) io" where
  "castVoteOverrideMutation env p bp = castVoteOverride env p bp"

definition modifyVoteOverrideMutation ::
  "chain_env \<Rightarrow> vote_override_params \<Rightarrow> blockchain_params \<Rightarrow> (event, transaction_result) io" where
  "modifyVoteOverrideMutation env p bp = modifyVoteOverride env p bp"

definition useCastVote :: "chain_env \<Rightarrow> providers \<Rightarrow> vote_params \<Rightarrow> (event, transaction_result) io" where
  "useCastVote env pv p = io_bind (io_lift (voting_params pv)) (castVoteMutation env p)"

definition useModifyVote :: "chain_env \<Rightarrow> providers \<Rightarrow> vote_params \<Rightarrow> (event, transaction_result) io" where
  "useModifyVote env pv p = io_bind (io_lift (voting_params pv)) (modifyVoteMutation env p)"

definition useCastVoteOverride :: "chain_env \<Rightarrow> providers \<Rightarrow> vote_override_params \<Rightarrow> (event, transaction_result) io" where
  "useCastVoteOverride env pv p = io_bind (io_lift (voting_params pv)) (castVoteOverrideMutation env p)"

definition useModifyVoteOverride :: "chain_env \<Rightarrow> providers \<Rightarrow> vote_override_params \<Rightarrow> (event, transaction_result) io" where
  "useModifyVoteOverride env pv p = io_bind (io_lift (voting_params pv)) (modifyVoteOverrideMutation env p)"

text \<open>Creating a proposal takes the type of the endpoint for the network, which its builder ignores.\<close>

definition createProposalMutation ::
  "chain_env \<Rightarrow> (jsstr \<Rightarrow> url_parts option) \<Rightarrow> create_proposal_params \<Rightarrow> blockchain_params \<Rightarrow> (event, transaction_result) io" where
  "createProposalMutation env parse_url p bp = createProposal env parse_url p bp"

definition useCreateProposal ::
  "chain_env \<Rightarrow> (jsstr \<Rightarrow> url_parts option) \<Rightarrow> providers \<Rightarrow> create_proposal_params \<Rightarrow> (event, transaction_result) io" where
  "useCreateProposal env parse_url pv p =
     createProposalMutation env parse_url p
       \<lparr>bp_network = endpoint_name (endpointType (pv_endpoint pv)), bp_endpoint = endpointUrl (pv_endpoint pv), bp_ncnApiUrl = None\<rparr>"

definition support_config_of :: "governance_config_dto \<Rightarrow> support_config" where
  "support_config_of c =
     \<lparr>sc_discussionEpochs = gc_discussionEpochs c, sc_snapshotEpochExtension = gc_snapshotEpochExtension c,
      sc_snapshotSlotOffset = gc_snapshotSlotOffset c\<rparr>"

definition supportProposalMutation ::
  "chain_env \<Rightarrow> support_params \<Rightarrow> blockchain_params \<Rightarrow> number option \<Rightarrow> chain_vote_account option \<Rightarrow> governance_config_dto \<Rightarrow>
   (event, transaction_result) io" where
  "supportProposalMutation env p bp slot va config = supportProposal env p bp slot va (support_config_of config)"

definition useSupportProposal :: "chain_env \<Rightarrow> providers \<Rightarrow> support_params \<Rightarrow> (event, transaction_result) io" where
  "useSupportProposal env pv p =
     (case pv_config pv of
        None \<Rightarrow> io_throw (JsError (js ''Governance config not loaded''))
      | Some config \<Rightarrow>
          (case Option.bind (pv_meta pv) nm_slot of
             None \<Rightarrow> io_throw (JsError SNAPSHOT_SLOT_UNSET_MESSAGE)
           | Some slot \<Rightarrow>
               io_bind (io_lift (requireKnownSnapshotNetwork (pv_network pv))) (\<lambda>network.
                 supportProposalMutation env p
                   \<lparr>bp_network = network, bp_endpoint = endpointUrl (pv_endpoint pv), bp_ncnApiUrl = None\<rparr>
                   (Some slot) (pv_chainVoteAccount pv) config)))"

text \<open>The query of the snapshot.\<close>

definition useSnapshotMeta_enabled :: "providers \<Rightarrow> bool" where
  "useSnapshotMeta_enabled pv \<longleftrightarrow> isKnownSnapshotNetwork (pv_network pv)"

definition useSnapshotMeta_query ::
  "chain_env \<Rightarrow> (jsstr \<Rightarrow> js_error + network_meta) \<Rightarrow> providers \<Rightarrow> (event, network_meta) io" where
  "useSnapshotMeta_query env decode_meta pv =
     io_bind (io_lift (requireKnownSnapshotNetwork (pv_network pv))) (\<lambda>network.
       fetchNcnJson env decode_meta (pv_ncnApiUrl pv @ js ''/meta?network='' @ network)
         ((default_options (js ''snapshot meta info''))\<lparr>no_resource := Some SnapshotMeta, no_hasSignal := True\<rparr>))"

section \<open>Running what a dialog hands over\<close>

fun run_mutation ::
  "chain_env \<Rightarrow> (jsstr \<Rightarrow> url_parts option) \<Rightarrow> providers \<Rightarrow> dialog_effect \<Rightarrow> (event, transaction_result) io" where
  "run_mutation env parse_url pv (MutateVote CastKind p) = useCastVote env pv p"
| "run_mutation env parse_url pv (MutateVote ModifyKind p) = useModifyVote env pv p"
| "run_mutation env parse_url pv (MutateOverride CastKind p) = useCastVoteOverride env pv p"
| "run_mutation env parse_url pv (MutateOverride ModifyKind p) = useModifyVoteOverride env pv p"
| "run_mutation env parse_url pv (MutateSupport p) = useSupportProposal env pv p"
| "run_mutation env parse_url pv (MutateCreate p) = useCreateProposal env parse_url pv p"
| "run_mutation env parse_url pv _ = io_throw (JsError [])"

definition outcome_of :: "(js_error \<Rightarrow> js_value) \<Rightarrow> js_error + transaction_result \<Rightarrow> outcome" where
  "outcome_of codes r = (case r of Inr _ \<Rightarrow> MutationSucceeded | Inl e \<Rightarrow> MutationFailed \<lparr>me_error = e, me_code = codes e\<rparr>)"

lemma run_vote:
  "run_mutation env parse_url pv (MutateVote kind p) l =
     (case voting_params pv of Inl e \<Rightarrow> (Inl e, l) | Inr bp \<Rightarrow> vote_flow kind env p bp l)"
  "run_mutation env parse_url pv (MutateOverride kind q) l =
     (case voting_params pv of Inl e \<Rightarrow> (Inl e, l) | Inr bp \<Rightarrow> override_flow kind env q bp l)"
  by (cases kind; simp add: useCastVote_def useModifyVote_def useCastVoteOverride_def useModifyVoteOverride_def
      castVoteMutation_def modifyVoteMutation_def castVoteOverrideMutation_def modifyVoteOverrideMutation_def
      castVote_def modifyVote_def castVoteOverride_def modifyVoteOverride_def io_bind_def io_lift_def split: sum.splits)+


text \<open>What a successful run signed and submitted.\<close>

definition vote_call :: "vote_kind \<Rightarrow> int \<Rightarrow> int \<Rightarrow> int \<Rightarrow> ix_call" where
  "vote_call kind f a b = (case kind of CastKind \<Rightarrow> CastVoteIx f a b | ModifyKind \<Rightarrow> ModifyVoteIx f a b)"

fun override_call :: "vote_kind \<Rightarrow> int \<Rightarrow> int \<Rightarrow> int \<Rightarrow> ix_call \<Rightarrow> bool" where
  "override_call CastKind f a b (CastVoteOverrideIx f' a' b' nodes leaf) \<longleftrightarrow> f' = f \<and> a' = a \<and> b' = b"
| "override_call ModifyKind f a b (ModifyVoteOverrideIx f' a' b' nodes leaf) \<longleftrightarrow> f' = f \<and> a' = a \<and> b' = b"
| "override_call _ f a b _ \<longleftrightarrow> False"

lemma vote_flow_carries:
  assumes "vote_flow kind env p bp l = (Inr res, l')"
  shows "\<exists>w signer q f a b prog accs init evs hash ep t.
    vp_wallet p = Some w \<and> w_publicKey w = Some signer \<and> new_PublicKey env (vp_proposalId p) = Inr q \<and>
    bn_of_number env (vp_forVotesBp p) = Inr f \<and> bn_of_number env (vp_againstVotesBp p) = Inr a \<and>
    bn_of_number env (vp_abstainVotesBp p) = Inr b \<and> (''signer'', signer) \<in> set accs \<and> (''proposal'', q) \<in> set accs \<and>
    l' = l @ evs @ [SignRequest (new_transaction (init @ [ProgramIx prog (vote_call kind f a b) accs]) signer hash), SendRaw ep t] \<and>
    submissions evs = [] \<and> signed_ok env signer (SendRaw ep t)"
proof -
  from assms obtain w signer consensus ctx k1 init k2 ix sig where
    w: "vp_wallet p = Some w" "w_publicKey w = Some signer" and
    prep: "vote_prepare kind env p bp w signer consensus l = (Inr ctx, k1)" and
    init: "vote_init_instructions env signer consensus ctx k1 = (Inr init, k2)" and
    ix: "vote_instruction kind env p signer consensus ctx = Inr ix" and
    sub: "submit_transaction env w signer (prog_endpoint (vc_program ctx)) (init @ [ix]) k2 = (Inr sig, l')"
    unfolding vote_flow_def with_wallet_success by (auto simp: io_success split: option.splits)
  obtain e1 where e1: "k1 = l @ e1" "submissions e1 = []" using quiet_run [OF quiet_vote_prepare prep] by blast
  obtain e2 where e2: "k2 = k1 @ e2" "submissions e2 = []" using quiet_run [OF quiet_vote_init init] by blast
  obtain hash t where t: "l' = k2 @ [GetLatestBlockhash (prog_endpoint (vc_program ctx)),
      SignRequest (new_transaction (init @ [ix]) signer hash), SendRaw (prog_endpoint (vc_program ctx)) t]"
    "signed_ok env signer (SendRaw (prog_endpoint (vc_program ctx)) t)"
    using submit_success [OF sub] by blast
  have q: "new_PublicKey env (vp_proposalId p) = Inr (vc_proposal ctx)"
    using prep unfolding vote_prepare_def by (auto simp: io_bind_Inr_iff io_run_iff)
  obtain f a b accs where call: "bn_of_number env (vp_forVotesBp p) = Inr f" "bn_of_number env (vp_againstVotesBp p) = Inr a"
      "bn_of_number env (vp_abstainVotesBp p) = Inr b" "ix = ProgramIx (prog_id (vc_program ctx)) (vote_call kind f a b) accs"
      "(''signer'', signer) \<in> set accs" "(''proposal'', vc_proposal ctx) \<in> set accs"
    using ix unfolding vote_instruction_def build_ix_def vote_call_def by (auto split: sum.splits)
  have "l' = l @ (e1 @ e2 @ [GetLatestBlockhash (prog_endpoint (vc_program ctx))]) @
      [SignRequest (new_transaction (init @ [ProgramIx (prog_id (vc_program ctx)) (vote_call kind f a b) accs]) signer hash),
       SendRaw (prog_endpoint (vc_program ctx)) t]" using t(1) e1 e2 call(4) by simp
  moreover have "submissions (e1 @ e2 @ [GetLatestBlockhash (prog_endpoint (vc_program ctx))]) = []" using e1 e2 by simp
  ultimately show ?thesis using w q call t(2) by blast
qed

lemma override_flow_carries:
  assumes "override_flow kind env p bp l = (Inr res, l')"
  shows "\<exists>w signer q stake f a b prog call accs k hash ep t.
    op_wallet p = Some w \<and> w_publicKey w = Some signer \<and> new_PublicKey env (op_proposalId p) = Inr q \<and>
    new_PublicKey env (op_stakeAccount p) = Inr stake \<and>
    bn_of_number env (op_forVotesBp p) = Inr f \<and> bn_of_number env (op_againstVotesBp p) = Inr a \<and>
    bn_of_number env (op_abstainVotesBp p) = Inr b \<and> override_call kind f a b call \<and>
    {(''signer'', signer), (''proposal'', q), (''splStakeAccount'', stake)} \<subseteq> set accs \<and>
    l' = k @ [SignRequest (new_transaction [ProgramIx prog call accs] signer hash), SendRaw ep t] \<and>
    signed_ok env signer (SendRaw ep t)"
proof -
  from assms obtain w signer consensus ctx k1 k2 ix sig where
    w: "op_wallet p = Some w" "w_publicKey w = Some signer" and
    prep: "override_prepare kind env p bp w consensus l = (Inr ctx, k1)" and
    ix: "override_instruction kind env p signer consensus ctx = Inr ix" and
    sub: "submit_transaction env w signer (prog_endpoint (oc_program ctx)) [ix] k2 = (Inr sig, l')"
    unfolding override_flow_def with_wallet_success by (auto simp: io_success Let_def split: option.splits)
  obtain hash t where t: "l' = k2 @ [GetLatestBlockhash (prog_endpoint (oc_program ctx)),
      SignRequest (new_transaction [ix] signer hash), SendRaw (prog_endpoint (oc_program ctx)) t]"
    "signed_ok env signer (SendRaw (prog_endpoint (oc_program ctx)) t)"
    using submit_success [OF sub] by blast
  have q: "new_PublicKey env (op_proposalId p) = Inr (oc_proposal ctx)" "new_PublicKey env (op_stakeAccount p) = Inr (oc_stakeAccount ctx)"
    using prep unfolding override_prepare_def by (auto simp: io_bind_Inr_iff io_run_iff split: prod.splits)
  obtain f a b call accs where call: "bn_of_number env (op_forVotesBp p) = Inr f" "bn_of_number env (op_againstVotesBp p) = Inr a"
      "bn_of_number env (op_abstainVotesBp p) = Inr b" "ix = ProgramIx (prog_id (oc_program ctx)) call accs" "override_call kind f a b call"
      "{(''signer'', signer), (''proposal'', oc_proposal ctx), (''splStakeAccount'', oc_stakeAccount ctx)} \<subseteq> set accs"
    using ix unfolding override_instruction_def build_ix_def
    by (cases kind) (auto simp: Let_def)
  have "l' = (k2 @ [GetLatestBlockhash (prog_endpoint (oc_program ctx))]) @
      [SignRequest (new_transaction [ProgramIx (prog_id (oc_program ctx)) call accs] signer hash), SendRaw (prog_endpoint (oc_program ctx)) t]"
    using t(1) call(4) by simp
  then show ?thesis using w q call t(2) by blast
qed

text \<open>Big numbers represent safe integers exactly.\<close>

definition bn_of_number_exact :: "chain_env \<Rightarrow> bool" where
  "bn_of_number_exact env \<longleftrightarrow> (\<forall>n x. \<bar>n\<bar> < 2 ^ 53 \<longrightarrow> bn_of_number env (inum n) = Inr x \<longrightarrow> x = n)"

lemma valid_split:
  assumes "split_ok d" "isValidDistribution d"
  obtains f a b where "d = vsplit f a b" "0 \<le> f" "0 \<le> a" "0 \<le> b" "f + a + b = 100"
    "basis_points (vd_for d) = inum (100 * f)" "basis_points (vd_against d) = inum (100 * a)" "basis_points (vd_abstain d) = inum (100 * b)"
  using assms(1)
proof (rule split_okE)
  fix f a b assume d: "d = vsplit f a b" "0 \<le> f" "0 \<le> a" "0 \<le> b" "f + a + b \<le> 100"
  have "f + a + b = 100" using assms(2) d by (simp add: isValidDistribution_def total_vsplit js_int)
  moreover have "basis_points (vd_for d) = inum (100 * f)" "basis_points (vd_against d) = inum (100 * a)" "basis_points (vd_abstain d) = inum (100 * b)"
    using d by (simp_all add: basis_points_def vsplit_def js_int js_arith mult.commute)
  ultimately show thesis using d that by blast
qed

lemma exact_split:
  assumes "bn_of_number_exact env" "0 \<le> f" "0 \<le> a" "0 \<le> b" "f + a + b = 100"
    and "bn_of_number env (inum (100 * f)) = Inr f'" "bn_of_number env (inum (100 * a)) = Inr a'" "bn_of_number env (inum (100 * b)) = Inr b'"
  shows "f' = 100 * f" "a' = 100 * a" "b' = 100 * b"
  using assms(2-) assms(1) [unfolded bn_of_number_exact_def, rule_format] by simp_all

lemma cast_submits:
  assumes "cast_handleSubmit kind denv s = (s', effs)" "e \<in> set effs" "is_mutation e"
  obtains w c where "de_wallet denv = Some w" "dg_consensus s = Some c" "isValidDistribution (dg_dist s)"
    "e = MutateVote kind \<lparr>vp_proposalId = the (dg_id s), vp_forVotesBp = basis_points (vd_for (dg_dist s)),
       vp_againstVotesBp = basis_points (vd_against (dg_dist s)), vp_abstainVotesBp = basis_points (vd_abstain (dg_dist s)),
       vp_wallet = Some w, vp_consensusResult = Some c\<rparr>"
  using assms by (auto simp: cast_handleSubmit_def cast_handleVote_def split: if_splits option.splits wallet_role.splits)

lemma override_submits:
  assumes "override_press denv s = (s', effs)" "e \<in> set effs" "is_mutation e"
  obtains w c stake where "de_wallet denv = Some w" "dg_consensus s = Some c" "dg_stake s = Some stake" "isValidDistribution (dg_dist s)"
    "e = MutateOverride CastKind (override_params (dg_dist s) w (the (dg_id s)) stake c)"
  using assms by (auto simp: override_press_def override_handleSubmit_def override_handleVote_def Let_def split: if_splits option.splits)

section \<open>Properties\<close>

text \<open>C7. What the form shows is what is signed: at any point of any session of the dialogs for casting and
  modifying a validator vote, if the submit button triggers a mutation and it succeeds, then the form
  showed whole percentages that sum to 100, and the wallet was asked to sign, for its own account and
  for the proposal selected in the dialog, a vote of exactly these percentages in basis points, which
  is the only thing submitted.  The dialog then reports success and closes.\<close>

theorem displayed_vote_is_signed:
  assumes "bn_of_number_exact env"
    and "kind = CastKind \<and> dialog_session cast_press (cast_settle props) cast_event (cast_mount props) s k trail \<and> cast_press denv s = (s', effs) \<or>
         kind = ModifyKind \<and> dialog_session modify_press (modify_settle props) cast_event (modify_mount props) s k trail \<and> modify_press denv s = (s', effs)"
    and "e \<in> set effs" "is_mutation e" "run_mutation env parse_url pv e l = (Inr res, l')"
  shows "\<exists>f a b w signer q prog accs init evs hash ep t.
    dg_dist s = vsplit f a b \<and> 0 \<le> f \<and> 0 \<le> a \<and> 0 \<le> b \<and> f + a + b = 100 \<and>
    de_wallet denv = Some w \<and> w_publicKey w = Some signer \<and> new_PublicKey env (the (dg_id s)) = Inr q \<and>
    (''signer'', signer) \<in> set accs \<and> (''proposal'', q) \<in> set accs \<and>
    l' = l @ evs @ [SignRequest (new_transaction (init @ [ProgramIx prog (vote_call kind (100 * f) (100 * a) (100 * b)) accs]) signer hash),
                    SendRaw ep t] \<and>
    submissions evs = [] \<and> signed_ok env signer (SendRaw ep t) \<and>
    OnClose \<in> set (snd ((case kind of CastKind \<Rightarrow> cast_settle | ModifyKind \<Rightarrow> modify_settle) props (outcome_of codes (Inr res)) s'))"
proof -
  have ok: "split_ok (dg_dist s)" and sub: "cast_handleSubmit kind denv s = (s', effs)"
    using assms(2,3) cast_split.session_invariant [of props "cast_mount props" s k trail] modify_split.session_invariant [of props "modify_mount props" s k trail]
      mount_split_ok [of props]
    by (auto simp: cast_press_def modify_press_def modify_handleSubmit_def split: if_splits)
  obtain w c where w: "de_wallet denv = Some w" and valid: "isValidDistribution (dg_dist s)" and
    e: "e = MutateVote kind \<lparr>vp_proposalId = the (dg_id s), vp_forVotesBp = basis_points (vd_for (dg_dist s)),
       vp_againstVotesBp = basis_points (vd_against (dg_dist s)), vp_abstainVotesBp = basis_points (vd_abstain (dg_dist s)),
       vp_wallet = Some w, vp_consensusResult = Some c\<rparr>" (is "e = MutateVote kind ?p")
    using cast_submits [OF sub assms(3,4)] by metis
  obtain f a b where d: "dg_dist s = vsplit f a b" "0 \<le> f" "0 \<le> a" "0 \<le> b" "f + a + b = 100"
    "vp_forVotesBp ?p = inum (100 * f)" "vp_againstVotesBp ?p = inum (100 * a)" "vp_abstainVotesBp ?p = inum (100 * b)"
    using valid_split [OF ok valid] by (metis vote_params.select_convs(2-4))
  obtain bp where "vote_flow kind env ?p bp l = (Inr res, l')"
    using assms(5) unfolding e run_vote by (auto split: sum.splits)
  from vote_flow_carries [OF this] obtain w' signer q f' a' b' prog accs init evs hash ep t where
    r: "vp_wallet ?p = Some w'" "w_publicKey w' = Some signer" "new_PublicKey env (vp_proposalId ?p) = Inr q"
      "bn_of_number env (vp_forVotesBp ?p) = Inr f'" "bn_of_number env (vp_againstVotesBp ?p) = Inr a'"
      "bn_of_number env (vp_abstainVotesBp ?p) = Inr b'" "(''signer'', signer) \<in> set accs" "(''proposal'', q) \<in> set accs"
      "l' = l @ evs @ [SignRequest (new_transaction (init @ [ProgramIx prog (vote_call kind f' a' b') accs]) signer hash), SendRaw ep t]"
      "submissions evs = []" "signed_ok env signer (SendRaw ep t)"
    by blast
  have bps: "f' = 100 * f" "a' = 100 * a" "b' = 100 * b"
    using exact_split [OF assms(1) d(2-5)] r(4-6) unfolding d(6-8) by blast+
  have "w' = w" "new_PublicKey env (the (dg_id s)) = Inr q" using r(1,3) by simp_all
  moreover have "OnClose \<in> set (snd ((case kind of CastKind \<Rightarrow> cast_settle | ModifyKind \<Rightarrow> modify_settle) props (outcome_of codes (Inr res)) s'))"
    by (simp add: outcome_of_def cast_settle_def modify_settle_def vote_handleSuccess_def split: vote_kind.splits)
  ultimately show ?thesis using d(1-5) w r(2,7-11) unfolding bps by blast
qed

definition sample_providers :: providers where
  "sample_providers =
     \<lparr>pv_endpoint = \<lparr>endpointType = Mainnet, endpointUrl = js ''https://rpc''\<rparr>, pv_network = Some (js ''mainnet''), pv_ncnApiUrl = js ''https://ncn'',
      pv_config = None, pv_meta = None, pv_chainVoteAccount = None\<rparr>"

lemma sample_bn_of_number: "bn_of_number_exact (sample_env b)"
  by (simp add: bn_of_number_exact_def sample_fields inum_def)

lemma sample_voting_params:
  "voting_params sample_providers = Inr \<lparr>bp_network = js ''mainnet'', bp_endpoint = js ''https://rpc'', bp_ncnApiUrl = Some (js ''https://ncn'')\<rparr>"
  by (simp add: voting_params_def sample_providers_def requireKnownSnapshotNetwork_def isKnownSnapshotNetwork_def CLUSTER_GENESIS_HASHES_def)

lemma sample_whole_bps: "validateVoteBasisPoints (inum 10000) (inum 0) (inum 0) = Inr ()"
  by (simp add: validateVoteBasisPoints_def js_int js_arith)

definition sample_submission :: vote_params where
  "sample_submission = \<lparr>vp_proposalId = js ''prop'', vp_forVotesBp = inum 10000, vp_againstVotesBp = inum 0, vp_abstainVotesBp = inum 0,
     vp_wallet = Some sample_wallet, vp_consensusResult = Some (PublicKey (js ''cons''))\<rparr>"

lemma sample_cast_press:
  "cast_press (sample_denv RoleValidator) sample_cast_state = (sample_cast_state\<lparr>dg_isLoading := True, dg_error := None\<rparr>, [MutateVote CastKind sample_submission])"
  by (simp add: cast_press_def cast_disabled_def cast_handleSubmit_def cast_handleVote_def sample_cast_state_def sample_denv_def
      cast_mount_def cast_opened_def distribution_effect_def cast_initial_def sample_props_def is_set_def sample_split_valid sample_submission_def)
     (simp add: basis_points_def handleQuickSelect_def js_int js_arith)

lemma sample_cast_session:
  "dialog_session cast_press (cast_settle sample_props) cast_event (cast_mount sample_props) sample_cast_state 0 []"
  using dialog_session.edited [OF dialog_session.opened, of cast_event "Edit (EditQuick OptFor)" "cast_mount sample_props"
      sample_cast_state "[]" cast_press "cast_settle sample_props"] by (simp add: sample_cast_state_def)

lemma sample_submission_run:
  "\<exists>res l'. run_mutation (sample_env True) parse_url sample_providers (MutateVote CastKind sample_submission) [] = (Inr res, l')"
  unfolding run_vote sample_voting_params
  by (simp add: sample_submission_def vote_flow_def vote_prepare_def sample_eval sample_defs sample_whole_bps Let_def is_positive_inum)

theorem displayed_vote_is_signed_witness:
  "\<exists>l' evs prog accs init signer hash ep t.
     snd (run_mutation (sample_env True) (\<lambda>_. None) sample_providers (MutateVote CastKind sample_submission) []) = l' \<and>
     l' = evs @ [SignRequest (new_transaction (init @ [ProgramIx prog (CastVoteIx 10000 0 0) accs]) signer hash), SendRaw ep t] \<and>
     submissions evs = []"
proof -
  obtain res l' where run: "run_mutation (sample_env True) (\<lambda>_. None) sample_providers (MutateVote CastKind sample_submission) [] = (Inr res, l')"
    using sample_submission_run by blast
  have s: "CastKind = CastKind \<and> dialog_session cast_press (cast_settle sample_props) cast_event (cast_mount sample_props) sample_cast_state 0 [] \<and>
      cast_press (sample_denv RoleValidator) sample_cast_state =
        (sample_cast_state\<lparr>dg_isLoading := True, dg_error := None\<rparr>, [MutateVote CastKind sample_submission]) \<or>
    CastKind = ModifyKind \<and> dialog_session modify_press (modify_settle sample_props) cast_event (modify_mount sample_props) sample_cast_state 0 [] \<and>
      modify_press (sample_denv RoleValidator) sample_cast_state =
        (sample_cast_state\<lparr>dg_isLoading := True, dg_error := None\<rparr>, [MutateVote CastKind sample_submission])"
    using sample_cast_session sample_cast_press by simp
  have dist: "vsplit f a b = dg_dist sample_cast_state \<Longrightarrow> f = 100 \<and> a = 0 \<and> b = 0" for f a b
    by (simp add: sample_cast_state_def vsplit_def handleQuickSelect_def inum_def)
  have mem: "MutateVote CastKind sample_submission \<in> set [MutateVote CastKind sample_submission]" by simp
  obtain f a b prog accs init evs signer hash ep t where r: "dg_dist sample_cast_state = vsplit f a b" "submissions evs = []"
      "l' = [] @ evs @ [SignRequest (new_transaction (init @ [ProgramIx prog (vote_call CastKind (100 * f) (100 * a) (100 * b)) accs]) signer hash),
         SendRaw ep t]"
    using displayed_vote_is_signed [OF sample_bn_of_number s mem _ run, of "\<lambda>_. StrVal []"] unfolding is_mutation.simps by blast
  have "vote_call CastKind (100 * f) (100 * a) (100 * b) = CastVoteIx 10000 0 0" using dist [OF r(1) [symmetric]] by (simp add: vote_call_def)
  with r(2,3) show ?thesis unfolding run snd_conv by (metis append_Nil)
qed

text \<open>C8. The same for a stake override: at any point of any session of its dialog, a mutation that
  succeeds ends with the wallet being asked to sign, for its own account, the selected proposal and
  the selected stake account, an override of exactly the percentages the form shows, and with the
  submission of what it signed.\<close>

theorem displayed_override_is_signed:
  assumes "bn_of_number_exact env"
    and "dialog_session override_press (override_settle props) override_event (override_mount props) s k trail"
    and "override_press denv s = (s', effs)" "e \<in> set effs" "is_mutation e" "run_mutation env parse_url pv e l = (Inr res, l')"
  shows "\<exists>f a b w signer q stake prog call accs pre hash ep t.
    dg_dist s = vsplit f a b \<and> 0 \<le> f \<and> 0 \<le> a \<and> 0 \<le> b \<and> f + a + b = 100 \<and>
    de_wallet denv = Some w \<and> w_publicKey w = Some signer \<and> new_PublicKey env (the (dg_id s)) = Inr q \<and>
    new_PublicKey env (the (dg_stake s)) = Inr stake \<and> override_call CastKind (100 * f) (100 * a) (100 * b) call \<and>
    {(''signer'', signer), (''proposal'', q), (''splStakeAccount'', stake)} \<subseteq> set accs \<and>
    l' = pre @ [SignRequest (new_transaction [ProgramIx prog call accs] signer hash), SendRaw ep t] \<and>
    signed_ok env signer (SendRaw ep t)"
proof -
  have ok: "split_ok (dg_dist s)" using override_split.session_invariant [OF assms(2)] mount_split_ok by simp
  obtain w c st where w: "de_wallet denv = Some w" and st: "dg_stake s = Some st" and valid: "isValidDistribution (dg_dist s)" and
    e: "e = MutateOverride CastKind (override_params (dg_dist s) w (the (dg_id s)) st c)" (is "e = MutateOverride CastKind ?p")
    using override_submits [OF assms(3-5)] by metis
  obtain f a b where d: "dg_dist s = vsplit f a b" "0 \<le> f" "0 \<le> a" "0 \<le> b" "f + a + b = 100"
    "op_forVotesBp ?p = inum (100 * f)" "op_againstVotesBp ?p = inum (100 * a)" "op_abstainVotesBp ?p = inum (100 * b)"
    using valid_split [OF ok valid] unfolding override_params_def vote_override_params.select_convs by metis
  obtain bp where "override_flow CastKind env ?p bp l = (Inr res, l')"
    using assms(6) unfolding e run_vote by (auto split: sum.splits)
  from override_flow_carries [OF this] obtain w' signer q stake f' a' b' prog call accs pre hash ep t where
    r: "op_wallet ?p = Some w'" "w_publicKey w' = Some signer" "new_PublicKey env (op_proposalId ?p) = Inr q"
      "new_PublicKey env (op_stakeAccount ?p) = Inr stake" "bn_of_number env (op_forVotesBp ?p) = Inr f'"
      "bn_of_number env (op_againstVotesBp ?p) = Inr a'" "bn_of_number env (op_abstainVotesBp ?p) = Inr b'"
      "override_call CastKind f' a' b' call" "{(''signer'', signer), (''proposal'', q), (''splStakeAccount'', stake)} \<subseteq> set accs"
      "l' = pre @ [SignRequest (new_transaction [ProgramIx prog call accs] signer hash), SendRaw ep t]" "signed_ok env signer (SendRaw ep t)"
    by blast
  have bps: "f' = 100 * f" "a' = 100 * a" "b' = 100 * b"
    using exact_split [OF assms(1) d(2-5)] r(5-7) unfolding d(6-8) by blast+
  have "w' = w" "new_PublicKey env (the (dg_id s)) = Inr q" "new_PublicKey env (the (dg_stake s)) = Inr stake"
    using r(1,3,4) st by (simp_all add: override_params_def)
  then show ?thesis using d(1-5) w r(2,8-11) unfolding bps by blast
qed

definition sample_override_submission :: vote_override_params where
  "sample_override_submission = \<lparr>op_proposalId = js ''prop'', op_forVotesBp = inum 10000, op_againstVotesBp = inum 0, op_abstainVotesBp = inum 0,
     op_stakeAccount = js ''stake'', op_wallet = Some sample_wallet, op_consensusResult = Some (PublicKey (js ''cons''))\<rparr>"

lemma sample_override_press:
  "override_press (sample_denv RoleStaker) sample_override_state =
     (sample_override_state\<lparr>dg_isLoading := True, dg_error := None\<rparr>, [MutateOverride CastKind sample_override_submission])"
  by (simp add: override_press_def override_disabled_def override_handleSubmit_def override_handleVote_def sample_override_state_def sample_denv_def
      override_mount_def override_opened_def cast_opened_def distribution_effect_def override_initial_def sample_props_def is_set_def
      sample_split_valid sample_override_submission_def override_params_def hasOnChainValidatorIdentity_def Let_def)
     (simp add: basis_points_def handleQuickSelect_def js_int js_arith)

lemma sample_override_session:
  "dialog_session override_press (override_settle sample_props) override_event (override_mount sample_props) sample_override_state 0 []"
proof -
  let ?session = "dialog_session override_press (override_settle sample_props) override_event (override_mount sample_props)"
  have step: "?session s 0 [] \<Longrightarrow> ?session (override_edit u s) 0 []" for s u
    using dialog_session.edited [of _ _ override_event _ s 0 "[]" "Edit u" "override_edit u s" "[]"] by simp
  show ?thesis unfolding sample_override_state_def by (intro step dialog_session.opened)
qed

lemma sample_override_submission_run:
  "\<exists>res l'. run_mutation (sample_env True) parse_url sample_providers (MutateOverride CastKind sample_override_submission) [] = (Inr res, l')"
  unfolding run_vote sample_voting_params
  by (simp add: sample_override_submission_def override_flow_def override_prepare_def override_network_def sample_eval sample_defs sample_whole_bps
      Let_def is_positive_inum)

theorem displayed_override_is_signed_witness:
  "\<exists>l' prog call accs pre hash ep t.
     snd (run_mutation (sample_env True) (\<lambda>_. None) sample_providers (MutateOverride CastKind sample_override_submission) []) = l' \<and>
     l' = pre @ [SignRequest (new_transaction [ProgramIx prog call accs] (PublicKey (js ''id'')) hash), SendRaw ep t] \<and>
     override_call CastKind 10000 0 0 call \<and> (''splStakeAccount'', PublicKey (js ''stake'')) \<in> set accs"
proof -
  obtain res l' where run: "run_mutation (sample_env True) (\<lambda>_. None) sample_providers (MutateOverride CastKind sample_override_submission) [] = (Inr res, l')"
    using sample_override_submission_run by blast
  have mem: "MutateOverride CastKind sample_override_submission \<in> set [MutateOverride CastKind sample_override_submission]" by simp
  obtain f a b w signer stake prog call accs pre hash ep t where r: "dg_dist sample_override_state = vsplit f a b"
      "de_wallet (sample_denv RoleStaker) = Some w" "w_publicKey w = Some signer"
      "new_PublicKey (sample_env True) (the (dg_stake sample_override_state)) = Inr stake"
      "override_call CastKind (100 * f) (100 * a) (100 * b) call" "(''splStakeAccount'', stake) \<in> set accs"
      "l' = pre @ [SignRequest (new_transaction [ProgramIx prog call accs] signer hash), SendRaw ep t]"
    using displayed_override_is_signed [OF sample_bn_of_number sample_override_session sample_override_press mem _ run]
    unfolding is_mutation.simps insert_subset by blast
  have "f = 100 \<and> a = 0 \<and> b = 0"
    using r(1) [symmetric] by (simp add: sample_override_state_def vsplit_def handleQuickSelect_def inum_def)
  moreover have "signer = PublicKey (js ''id'')" using r(2,3) by (auto simp: sample_denv_def sample_wallet_def)
  moreover have "stake = PublicKey (js ''stake'')" using r(4) by (simp add: sample_override_state_def sample_fields)
  ultimately show ?thesis using r(5-7) unfolding run snd_conv by (auto intro!: exI)
qed

text \<open>C10. Nothing happens on a network the verifier does not know: while the network of a custom endpoint is
  unknown, every vote, override and support handed over by a dialog fails before any request,
  signature or submission, votes and overrides with the message for that case, supports with it or
  with the one that the configuration or the snapshot slot is missing; the query of the snapshot is
  disabled.  The voting dialog then shows the message, reports the error and is idle again.\<close>

theorem unknown_network_refuses_votes:
  assumes "\<not> isKnownSnapshotNetwork (pv_network pv)"
  shows "run_mutation env parse_url pv (MutateVote kind p) l = (Inl (JsError SNAPSHOT_UNAVAILABLE_MESSAGE), l) \<and>
    run_mutation env parse_url pv (MutateOverride kind q) l = (Inl (JsError SNAPSHOT_UNAVAILABLE_MESSAGE), l) \<and>
    (\<exists>m. run_mutation env parse_url pv (MutateSupport u) l = (Inl (JsError m), l) \<and>
       m \<in> {js ''Governance config not loaded'', SNAPSHOT_SLOT_UNSET_MESSAGE, SNAPSHOT_UNAVAILABLE_MESSAGE}) \<and>
    \<not> useSnapshotMeta_enabled pv \<and>
    vote_settle good bad (outcome_of (\<lambda>_. OtherVal) (Inl (JsError SNAPSHOT_UNAVAILABLE_MESSAGE))) st =
      (st\<lparr>dg_error := Some SNAPSHOT_UNAVAILABLE_MESSAGE, dg_isLoading := False\<rparr>,
       [CaptureException (JsError SNAPSHOT_UNAVAILABLE_MESSAGE), ToastError bad])"
proof -
  have vp: "voting_params pv = Inl (JsError SNAPSHOT_UNAVAILABLE_MESSAGE)"
    using assms by (simp add: voting_params_def requireKnownSnapshotNetwork_def)
  have "\<exists>m. useSupportProposal env pv u l = (Inl (JsError m), l) \<and>
       m \<in> {js ''Governance config not loaded'', SNAPSHOT_SLOT_UNSET_MESSAGE, SNAPSHOT_UNAVAILABLE_MESSAGE}"
    using assms by (simp add: useSupportProposal_def requireKnownSnapshotNetwork_def io_defs split: option.splits)
  moreover have "\<not> isWalletSigningCancellation (Some (thrown_of \<lparr>me_error = JsError SNAPSHOT_UNAVAILABLE_MESSAGE, me_code = OtherVal\<rparr>))"
    by (rule other_failures_reported) (auto simp: thrown_of_def WALLET_SIGNING_ERROR_NAMES_def)
  ultimately show ?thesis
    using assms unfolding run_vote vp
    by (simp add: useSnapshotMeta_enabled_def outcome_of_def vote_handleError_def)
qed

theorem unknown_network_refuses_votes_witness:
  "run_mutation (sample_env True) (\<lambda>_. None) (sample_providers\<lparr>pv_network := None\<rparr>) (MutateVote CastKind sample_submission) [] =
     (Inl (JsError SNAPSHOT_UNAVAILABLE_MESSAGE), [])"
  by (rule unknown_network_refuses_votes [THEN conjunct1]) (simp add: isKnownSnapshotNetwork_def)

end
