(* ===== verification/Query_Client.thy ===== *)
theory Query_Client
  imports Stake_Accounts Mutations Dates
begin

text \<open>
  The query client all pages share (\<open>app/providers.tsx\<close>, \<open>helpers/query/constants.ts\<close>): when a failed
  query is repeated, which failures are reported and how, what is kept in local storage, and the keys
  under which the hooks store their answers in the one cache.  The query library is not modelled: it
  calls the given functions.  It compares keys by their JSON text, in which a missing value in a list
  is \<open>null\<close>; a key is therefore a list of JSON values.
\<close>

section \<open>Names of queries\<close>

definition GET_ALL_PROPOSALS :: jsstr where "GET_ALL_PROPOSALS = js ''GET_ALL_PROPOSALS''"
definition GET_VOTE_ACCOUNTS :: jsstr where "GET_VOTE_ACCOUNTS = js ''GET_VOTE_ACCOUNTS''"
definition GET_DEPRECATED_VOTE_ACCOUNTS :: jsstr where "GET_DEPRECATED_VOTE_ACCOUNTS = js ''GET_DEPRECATED_VOTE_ACCOUNTS''"
definition GET_VALIDATOR_PROPOSAL_VOTE_ACCOUNTS :: jsstr where
  "GET_VALIDATOR_PROPOSAL_VOTE_ACCOUNTS = js ''GET_VALIDATOR_PROPOSAL_VOTE_ACCOUNTS''"
definition GET_WALLET_VOTE_OVERRIDE_ACCOUNTS :: jsstr where
  "GET_WALLET_VOTE_OVERRIDE_ACCOUNTS = js ''GET_WALLET_VOTE_OVERRIDE_ACCOUNTS''"
definition GET_WALLET_SUPPORT_ACCOUNTS :: jsstr where "GET_WALLET_SUPPORT_ACCOUNTS = js ''GET_WALLET_SUPPORT_ACCOUNTS''"
definition GET_VALIDATOR_HAS_VOTED :: jsstr where "GET_VALIDATOR_HAS_VOTED = js ''GET_VALIDATOR_HAS_VOTED''"
definition GET_STAKE_ACCOUNTS :: jsstr where "GET_STAKE_ACCOUNTS = js ''GET_STAKE_ACCOUNTS''"
definition GET_DELEGATED_STAKE_ACCOUNTS :: jsstr where "GET_DELEGATED_STAKE_ACCOUNTS = js ''GET_DELEGATED_STAKE_ACCOUNTS''"
definition GET_EPOCH_INFO :: jsstr where "GET_EPOCH_INFO = js ''GET_EPOCH_INFO''"
definition GET_GOVERNANCE_CONFIG :: jsstr where "GET_GOVERNANCE_CONFIG = js ''GET_GOVERNANCE_CONFIG''"
definition GET_PROPOSAL_DOCUMENT :: jsstr where "GET_PROPOSAL_DOCUMENT = js ''GET_PROPOSAL_DOCUMENT''"

section \<open>Failures\<close>

definition query_retry_policy :: "nat \<Rightarrow> js_error \<Rightarrow> bool" where
  "query_retry_policy failureCount error \<longleftrightarrow> classifyNcnFailure error = None \<and> failureCount < 3"

definition ncnFailureTags :: "js_error \<Rightarrow> (jsstr \<times> jsstr) list" where
  "ncnFailureTags error =
     (case error of
        NcnApiHttpError m status r host b \<Rightarrow> [(js ''ncn_status'', dec_int status), (js ''ncn_host'', host)]
      | NcnApiNetworkError m u host \<Rightarrow> [(js ''ncn_host'', host)]
      | _ \<Rightarrow> [])"

record capture =
  cap_level :: "jsstr option"
  cap_tags :: "(jsstr \<times> jsstr) list"
  cap_extra :: "jsstr option"
  cap_fingerprint :: "jsstr list option"

definition failure_kind_name :: "ncn_failure_kind \<Rightarrow> jsstr" where
  "failure_kind_name k = (case k of NetworkFailure \<Rightarrow> js ''network'' | UpstreamFailure \<Rightarrow> js ''upstream'' | RequestFailure \<Rightarrow> js ''request'')"

definition query_onError :: "js_error \<Rightarrow> jsstr \<Rightarrow> capture option" where
  "query_onError error queryKey =
     (if isNcnProofNotFound error then None
      else if queryKey = GET_PROPOSAL_DOCUMENT then None
      else
        let kind = classifyNcnFailure error;
            tags = (js ''query_key'', queryKey) # ncnFailureTags error
        in if queryKey = GET_GOVERNANCE_CONFIG \<and> kind = Some NetworkFailure then None
           else case error of
             NcnApiHttpError m status r h snippet \<Rightarrow>
               let extra = (if snippet \<noteq> [] then Some snippet else None) in
               if kind = Some NetworkFailure \<or> kind = Some UpstreamFailure
               then Some \<lparr>cap_level = Some (js ''warning''), cap_tags = tags @ [(js ''failure_kind'', failure_kind_name (the kind))], cap_extra = extra,
                          cap_fingerprint = Some [js ''ncn-upstream-error'', queryKey, dec_int status]\<rparr>
               else Some \<lparr>cap_level = None, cap_tags = tags @ [(js ''failure_kind'', js ''request'')], cap_extra = extra,
                          cap_fingerprint = Some [js ''ncn-request-error'', queryKey, dec_int status]\<rparr>
           | _ \<Rightarrow>
               if kind = Some NetworkFailure \<or> kind = Some UpstreamFailure
               then Some \<lparr>cap_level = Some (js ''warning''), cap_tags = tags @ [(js ''failure_kind'', failure_kind_name (the kind))], cap_extra = None,
                          cap_fingerprint = Some [js ''network-failure'', queryKey]\<rparr>
               else Some \<lparr>cap_level = None, cap_tags = tags, cap_extra = None, cap_fingerprint = None\<rparr>)"

section \<open>Keys\<close>

datatype key_part = KStr jsstr | KNum rat | KNull | KFilters "(jsstr \<times> jsstr) list"

definition key_opt :: "jsstr option \<Rightarrow> key_part" where
  "key_opt x = (case x of Some s \<Rightarrow> KStr s | None \<Rightarrow> KNull)"

definition key_num :: "number option \<Rightarrow> key_part" where
  "key_num x = (case x of Some (Num r) \<Rightarrow> KNum r | _ \<Rightarrow> KNull)"

fun override_field_name :: "override_field \<Rightarrow> jsstr" where
  "override_field_name FDelegator = js ''delegator''"
| "override_field_name FProposal = js ''proposal''"
| "override_field_name FValidator = js ''validator''"
| "override_field_name FStakeAccount = js ''stakeAccount''"

fun support_field_name :: "support_field \<Rightarrow> jsstr" where
  "support_field_name SFProposal = js ''proposal''"
| "support_field_name SFValidator = js ''validator''"

text \<open>The queries whose function is determined by its inputs, with these inputs.\<close>

datatype query =
    StakeAccountsQ jsstr "jsstr option"
  | DelegatedQ jsstr "jsstr option"
  | ValidatorVoteQ jsstr "jsstr option"
  | OverridesQ jsstr override_filters
  | SupportsQ jsstr "(support_field \<times> jsstr) list"
  | ProposalVoteQ jsstr "jsstr option" "jsstr option"
  | HasValidatorVotedQ jsstr "jsstr option" "jsstr option"
  | VotesQ jsstr
  | VoteAccountsQ jsstr
  | ValidatorsQ jsstr
  | RawVoteAccountsQ jsstr
  | EpochInfoQ jsstr
  | ChainVoteAccountsQ jsstr
  | SnapshotMetaQ "jsstr option" jsstr
  | WalletSummaryQ "jsstr option" "jsstr option" jsstr "number option"
  | DocumentQ jsstr
  | ConfigQ rpc_endpoint jsstr

fun query_key :: "query \<Rightarrow> key_part list" where
  "query_key (StakeAccountsQ endpoint user) = [KStr GET_STAKE_ACCOUNTS, KStr endpoint, key_opt user]"
| "query_key (DelegatedQ endpoint user) = [KStr GET_DELEGATED_STAKE_ACCOUNTS, key_opt user, KStr endpoint]"
| "query_key (ValidatorVoteQ endpoint user) = [KStr GET_WALLET_VOTE_OVERRIDE_ACCOUNTS, KStr endpoint, key_opt user]"
| "query_key (OverridesQ endpoint filters) =
     [KStr GET_WALLET_VOTE_OVERRIDE_ACCOUNTS, KStr endpoint, KFilters (map (map_prod override_field_name id) filters)]"
| "query_key (SupportsQ endpoint filters) =
     [KStr GET_WALLET_SUPPORT_ACCOUNTS, KStr endpoint, KFilters (map (map_prod support_field_name id) filters)]"
| "query_key (ProposalVoteQ endpoint proposal user) =
     [KStr GET_VALIDATOR_PROPOSAL_VOTE_ACCOUNTS, KStr endpoint, key_opt proposal, key_opt user]"
| "query_key (HasValidatorVotedQ endpoint proposal user) = [KStr GET_VALIDATOR_HAS_VOTED, KStr endpoint, key_opt proposal, key_opt user]"
| "query_key (VotesQ endpoint) = [KStr (js ''proposalsVotes''), KStr endpoint]"
| "query_key (VoteAccountsQ endpoint) = [KStr GET_DEPRECATED_VOTE_ACCOUNTS, KStr endpoint]"
| "query_key (ValidatorsQ endpoint) = [KStr (js ''validators''), KStr endpoint]"
| "query_key (RawVoteAccountsQ endpoint) = [KStr GET_VOTE_ACCOUNTS, KStr endpoint]"
| "query_key (EpochInfoQ endpoint) = [KStr GET_EPOCH_INFO, KStr endpoint]"
| "query_key (ChainVoteAccountsQ endpoint) = [KStr (js ''chain_vote_accounts''), KStr endpoint]"
| "query_key (SnapshotMetaQ network api) = [KStr (js ''snapshot_meta''), key_opt network, KStr api]"
| "query_key (WalletSummaryQ network user api slot) = [KStr (js ''vote_wallet_summary''), key_opt network, key_opt user, KStr api, key_num slot]"
| "query_key (DocumentQ url) = [KStr GET_PROPOSAL_DOCUMENT, KStr url]"
| "query_key (ConfigQ t url) =
     (if t \<noteq> CustomEndpoint then [KStr GET_GOVERNANCE_CONFIG, KStr (endpoint_name t)]
      else [KStr GET_GOVERNANCE_CONFIG, KStr (endpoint_name t), KStr url])"

text \<open>The condition under which the hook enables the query (apart from a flag of its caller).\<close>

fun query_enabled :: "query \<Rightarrow> bool" where
  "query_enabled (StakeAccountsQ endpoint user) \<longleftrightarrow> is_set user"
| "query_enabled (DelegatedQ endpoint user) \<longleftrightarrow> is_set user"
| "query_enabled (ValidatorVoteQ endpoint user) \<longleftrightarrow> is_set user"
| "query_enabled (ProposalVoteQ endpoint proposal user) \<longleftrightarrow> user \<noteq> None \<and> is_set proposal"
| "query_enabled (HasValidatorVotedQ endpoint proposal user) \<longleftrightarrow> user \<noteq> None \<and> is_set proposal"
| "query_enabled (SnapshotMetaQ network api) \<longleftrightarrow> isKnownSnapshotNetwork network"
| "query_enabled (WalletSummaryQ network user api slot) \<longleftrightarrow> isKnownSnapshotNetwork network \<and> slot \<noteq> None \<and> is_set user"
| "query_enabled _ \<longleftrightarrow> True"

definition shouldDehydrateQuery :: "query \<Rightarrow> bool" where
  "shouldDehydrateQuery q \<longleftrightarrow> hd (query_key q) = KStr GET_GOVERNANCE_CONFIG"

text \<open>The inputs a query function uses: a preset endpoint stands for its own URL.\<close>

fun query_inputs :: "query \<Rightarrow> query" where
  "query_inputs (ConfigQ t url) = ConfigQ t (if t = CustomEndpoint then url else [])"
| "query_inputs q = q"

text \<open>A slot read from the verifier is a finite number.\<close>

fun finite_slot :: "query \<Rightarrow> bool" where
  "finite_slot (WalletSummaryQ network user api slot) \<longleftrightarrow> (\<exists>r. slot = Some (Num r))"
| "finite_slot _ \<longleftrightarrow> True"

lemmas query_names = GET_ALL_PROPOSALS_def GET_VOTE_ACCOUNTS_def GET_DEPRECATED_VOTE_ACCOUNTS_def
  GET_VALIDATOR_PROPOSAL_VOTE_ACCOUNTS_def GET_WALLET_VOTE_OVERRIDE_ACCOUNTS_def GET_WALLET_SUPPORT_ACCOUNTS_def
  GET_VALIDATOR_HAS_VOTED_def GET_STAKE_ACCOUNTS_def GET_DELEGATED_STAKE_ACCOUNTS_def GET_EPOCH_INFO_def
  GET_GOVERNANCE_CONFIG_def GET_PROPOSAL_DOCUMENT_def

section \<open>One cache for all queries\<close>

text \<open>The cache maps a key to the query that filled the entry; entries may be filled by any usable query
  and removed at any time.\<close>

inductive cache_session :: "('q \<Rightarrow> 'k) \<Rightarrow> ('q \<Rightarrow> bool) \<Rightarrow> ('k \<Rightarrow> 'q option) \<Rightarrow> bool" for key usable where
  empty: "cache_session key usable (\<lambda>_. None)"
| filled: "cache_session key usable c \<Longrightarrow> usable q \<Longrightarrow> cache_session key usable (c(key q := Some q))"
| removed: "cache_session key usable c \<Longrightarrow> cache_session key usable (c(k := None))"

locale keyed_queries =
  fixes key :: "'q \<Rightarrow> 'k" and usable :: "'q \<Rightarrow> bool" and inputs :: "'q \<Rightarrow> 'i"
  assumes key_determines: "usable q \<Longrightarrow> usable q' \<Longrightarrow> key q = key q' \<Longrightarrow> inputs q = inputs q'"
begin

lemma entry_filled_by:
  assumes "cache_session key usable c" "c k = Some q"
  shows "usable q \<and> key q = k"
  using assms by (induction arbitrary: k) (auto split: if_splits)

lemma hit_has_own_inputs:
  assumes "cache_session key usable c" "usable q" "c (key q) = Some q'"
  shows "inputs q' = inputs q"
  using entry_filled_by [OF assms(1,3)] key_determines [of q' q] assms(2) by blast

end

lemma key_opt_inject [simp]: "key_opt x = key_opt y \<longleftrightarrow> x = y" "key_opt x \<noteq> KFilters fs" "KFilters fs \<noteq> key_opt x"
  by (auto simp: key_opt_def split: option.splits)

lemma key_num_inject: "key_num (Some (Num r)) = key_num (Some (Num r')) \<longleftrightarrow> r = r'"
  by (simp add: key_num_def)

lemma override_filters_inject [simp]: "map (map_prod override_field_name id) fs = map (map_prod override_field_name id) gs \<longleftrightarrow> fs = gs"
proof -
  have "inj override_field_name" by (rule injI, case_tac x; case_tac y) (simp_all add: js_def)
  then show ?thesis by (simp add: inj_map_eq_map prod.inj_map)
qed

lemma support_filters_inject [simp]: "map (map_prod support_field_name id) fs = map (map_prod support_field_name id) gs \<longleftrightarrow> fs = gs"
proof -
  have "inj support_field_name" by (rule injI, case_tac x; case_tac y) (simp_all add: js_def)
  then show ?thesis by (simp add: inj_map_eq_map prod.inj_map)
qed

lemma endpoint_name_inject [simp]: "endpoint_name s = endpoint_name t \<longleftrightarrow> s = t"
  by (cases s; cases t) (simp_all add: js_def)

lemma query_key_determines:
  assumes "finite_slot q" "finite_slot q'" "query_key q = query_key q'"
  shows "query_inputs q = query_inputs q'"
  using assms by (cases q; cases q') (simp_all add: query_names key_num_inject split: if_splits, auto simp: key_num_inject)

interpretation queries: keyed_queries query_key "\<lambda>q. query_enabled q \<and> finite_slot q" query_inputs
  by unfold_locales (auto intro: query_key_determines)

section \<open>Properties\<close>



lemma dec_int_inject: "dec_int i = dec_int j \<longleftrightarrow> i = j"
proof -
  have nat: "dec m = dec n \<longleftrightarrow> m = n" for m n by (metis dec_val_dec)
  have "dec n \<noteq> 45 # s" for n s using hd_dec [of n] by (auto simp: is_digit_def)
  then show ?thesis by (auto simp: dec_int_def nat dest: sym)
qed

text \<open>What is reported for the two errors of the verifier client.\<close>

definition upstream_status :: "int \<Rightarrow> bool" where
  "upstream_status s \<longleftrightarrow> 500 \<le> s \<or> s \<in> set UPSTREAM_STATUSES"

lemma http_report:
  assumes "query_onError (NcnApiHttpError m s p h b) k = Some r"
  shows "cap_fingerprint r = Some [if upstream_status s then js ''ncn-upstream-error'' else js ''ncn-request-error'', k, dec_int s]"
    "cap_tags r = [(js ''query_key'', k), (js ''ncn_status'', dec_int s), (js ''ncn_host'', h),
       (js ''failure_kind'', if upstream_status s then js ''upstream'' else js ''request'')]"
proof -
  have c: "classifyNcnFailure (NcnApiHttpError m s p h b) = Some (if upstream_status s then UpstreamFailure else RequestFailure)"
    by (simp add: classifyNcnFailure_def upstream_status_def)
  show "cap_fingerprint r = Some [if upstream_status s then js ''ncn-upstream-error'' else js ''ncn-request-error'', k, dec_int s]"
    "cap_tags r = [(js ''query_key'', k), (js ''ncn_status'', dec_int s), (js ''ncn_host'', h),
       (js ''failure_kind'', if upstream_status s then js ''upstream'' else js ''request'')]"
    using assms unfolding query_onError_def c Let_def
    by (cases "upstream_status s"; auto simp: failure_kind_name_def ncnFailureTags_def split: if_splits)+
qed

lemma network_report:
  assumes "query_onError (NcnApiNetworkError m u h) k = Some r"
  shows "cap_tags r = [(js ''query_key'', k), (js ''ncn_host'', h), (js ''failure_kind'', js ''network'')]"
  using assms by (auto simp: query_onError_def classifyNcnFailure_def failure_kind_name_def ncnFailureTags_def Let_def split: if_splits)

text \<open>C23. Which failures of queries are reported: all but a missing proof, a document that could not be
  read from GitHub, and a configuration that could not be reached.  A report is a warning exactly for
  failures of the network or of a hop of the verifier; refused requests of our own stay errors.
  Reports of refused requests are grouped exactly by their query and status.  A query is never
  repeated for a failure of the verifier client, which has repeated it already, and never more than
  three times.\<close>

theorem query_failures_reported:
  "(query_onError e k = None \<longleftrightarrow> isNcnProofNotFound e \<or> k = GET_PROPOSAL_DOCUMENT \<or>
      k = GET_GOVERNANCE_CONFIG \<and> classifyNcnFailure e = Some NetworkFailure) \<and>
   (\<forall>r. query_onError e k = Some r \<longrightarrow>
      (cap_level r = Some (js ''warning'') \<longleftrightarrow> classifyNcnFailure e \<in> {Some NetworkFailure, Some UpstreamFailure}) \<and>
      (cap_fingerprint r = None \<longleftrightarrow> classifyNcnFailure e = None)) \<and>
   (\<forall>r r'. query_onError (NcnApiHttpError m s p h b) k = Some r \<longrightarrow> query_onError (NcnApiHttpError m' s' p' h' b') k' = Some r' \<longrightarrow>
      (cap_fingerprint r = cap_fingerprint r' \<longleftrightarrow> k = k' \<and> s = s')) \<and>
   (query_retry_policy n e \<longrightarrow> n < 3 \<and> (\<forall>m s p h b u. e \<noteq> NcnApiHttpError m s p h b \<and> e \<noteq> NcnApiNetworkError m u h))"
proof (intro conjI allI impI)
  show "query_onError e k = None \<longleftrightarrow> isNcnProofNotFound e \<or> k = GET_PROPOSAL_DOCUMENT \<or>
      k = GET_GOVERNANCE_CONFIG \<and> classifyNcnFailure e = Some NetworkFailure"
    by (auto simp: query_onError_def Let_def split: js_error.splits)
next
  fix r assume "query_onError e k = Some r"
  then show "cap_level r = Some (js ''warning'') \<longleftrightarrow> classifyNcnFailure e \<in> {Some NetworkFailure, Some UpstreamFailure}"
    by (cases e) (auto simp: query_onError_def Let_def split: if_splits)
next
  fix r assume "query_onError e k = Some r"
  then show "cap_fingerprint r = None \<longleftrightarrow> classifyNcnFailure e = None"
    by (cases e) (auto simp: query_onError_def classifyNcnFailure_def Let_def split: if_splits)
next
  fix r r' assume "query_onError (NcnApiHttpError m s p h b) k = Some r" "query_onError (NcnApiHttpError m' s' p' h' b') k' = Some r'"
  then show "cap_fingerprint r = cap_fingerprint r' \<longleftrightarrow> k = k' \<and> s = s'"
    by (auto simp: http_report(1) dec_int_inject)
qed (auto simp: query_retry_policy_def classifyNcnFailure_def)

theorem query_failures_reported_witness:
  "query_onError (NcnApiHttpError (js ''no'') 400 None (js ''h'') []) (js ''snapshot_meta'') \<noteq> None \<and>
   query_onError (NcnApiHttpError (js ''no'') 404 (Some StakeAccountProof) (js ''h'') []) (js ''snapshot_meta'') = None"
  using query_failures_reported [of "NcnApiHttpError (js ''no'') 400 None (js ''h'') []" "js ''snapshot_meta''"]
    query_failures_reported [of "NcnApiHttpError (js ''no'') 404 (Some StakeAccountProof) (js ''h'') []" "js ''snapshot_meta''"]
  by (simp add: classifyNcnFailure_def UPSTREAM_STATUSES_def query_names)

text \<open>The tags of a report name hosts only: for an error of the verifier client about a URL whose host is
  known, every tag is the query, the status, the kind of failure or that host.\<close>

lemma tags_name_hosts_only:
  assumes "url_host env url = Some host"
    and "e = new_NcnApiHttpError env label status url statusText snippet resource \<or> e = new_NcnApiNetworkError env message url"
    and "query_onError e k = Some r"
  shows "snd ` set (cap_tags r) \<subseteq> {k, dec_int status, host, js ''network'', js ''upstream'', js ''request''}"
  using assms(3) assms(2)
  by (auto simp: new_NcnApiHttpError_def new_NcnApiNetworkError_def hostOf_def assms(1) Let_def dest!: http_report(2) network_report)

section \<open>Queries with a guard of their own\<close>

record voter_summary =
  vsum_network :: jsstr
  vsum_snapshot_slot :: number
  vsum_voting_wallet :: jsstr
  vsum_stake_accounts :: "(number \<times> jsstr \<times> jsstr) list"
  vsum_vote_accounts :: "(number \<times> jsstr) list"

definition getVoterWalletSummary ::
  "chain_env \<Rightarrow> (jsstr \<Rightarrow> js_error + voter_summary) \<Rightarrow> jsstr \<Rightarrow> jsstr option \<Rightarrow> number \<Rightarrow> jsstr option \<Rightarrow> (event, voter_summary) io" where
  "getVoterWalletSummary env decode network walletAddress slot ncnApiUrl =
     (case walletAddress of
        None \<Rightarrow> io_throw (JsError (js ''Wallet not connected''))
      | Some w \<Rightarrow>
          fetchNcnJson env decode
            (api_base ncnApiUrl @ js ''/voter/'' @ w @ js ''?network='' @ network @ js ''&slot='' @ number_to_string slot)
            ((default_options (js ''voter summary''))\<lparr>no_resource := Some VoterSummary, no_hasSignal := True\<rparr>))"

definition useVoterWalletSummary_enabled :: "jsstr option \<Rightarrow> number option \<Rightarrow> jsstr option \<Rightarrow> bool" where
  "useVoterWalletSummary_enabled network slot userPubKey \<longleftrightarrow> isKnownSnapshotNetwork network \<and> slot \<noteq> None \<and> is_set userPubKey"

definition useVoterWalletSummary_query ::
  "chain_env \<Rightarrow> (jsstr \<Rightarrow> js_error + voter_summary) \<Rightarrow> jsstr option \<Rightarrow> number option \<Rightarrow> jsstr option \<Rightarrow> jsstr option \<Rightarrow> (event, voter_summary) io" where
  "useVoterWalletSummary_query env decode network slot userPubKey ncnApiUrl =
     (if \<not> isKnownSnapshotNetwork network \<or> slot = None then io_throw (JsError (js ''Snapshot slot not loaded''))
      else getVoterWalletSummary env decode (the network) userPubKey (the slot) ncnApiUrl)"

definition useEpochToDate_enabled :: "number option \<Rightarrow> bool \<Rightarrow> epoch_info option \<Rightarrow> bool" where
  "useEpochToDate_enabled epoch isLoadingEpochInfo epochData \<longleftrightarrow> epoch \<noteq> None \<and> \<not> isLoadingEpochInfo \<and> epochData \<noteq> None"

definition useEpochToDate_query :: "date_env \<Rightarrow> number option \<Rightarrow> epoch_info option \<Rightarrow> (date_event, number option) io" where
  "useEpochToDate_query env epoch epochData =
     (case (epoch, epochData) of
        (Some e, Some info) \<Rightarrow> io_bind (epochToDate env e info) (\<lambda>d. io_return (Some d))
      | _ \<Rightarrow> io_return None)"

text \<open>The guards inside the query functions are never what an enabled query meets: an enabled summary query
  is the request for the wallet, and an enabled date query has a date unless the connection fails.\<close>

lemma enabled_queries_pass_guards:
  shows "useVoterWalletSummary_enabled network slot user \<Longrightarrow>
      useVoterWalletSummary_query env decode network slot user url = getVoterWalletSummary env decode (the network) (Some (the user)) (the slot) url"
    and "useEpochToDate_enabled epoch loading epochData \<Longrightarrow>
      useEpochToDate_query denv epoch epochData = io_bind (epochToDate denv (the epoch) (the epochData)) (\<lambda>d. io_return (Some d))"
  by (auto simp: useVoterWalletSummary_enabled_def useVoterWalletSummary_query_def is_set_def useEpochToDate_enabled_def
      useEpochToDate_query_def split: option.splits)

end
