(* ===== verification/Formatting.thy ===== *)
theory Formatting
  imports Stake_Accounts
begin

text \<open>
  Amounts, percentages and addresses as the pages show them (\<open>lib/governance/formatters.ts\<close>,
  \<open>helpers/number.ts\<close>, \<open>helpers/shorteners.ts\<close>, \<open>roundDecimals\<close> of \<open>lib/helpers.ts\<close>), the page numbers of the
  pagination controls (\<open>components/ui/AppPagniation.tsx\<close>) and the figures on top of the dashboard
  (\<open>governance/shared/DashboardStats.tsx\<close>).  The platform formatter for \<open>en-US\<close> rounds to the nearest
  multiple of the last shown place, the larger one on a tie, and groups digits by three.
\<close>

section \<open>The platform formatter\<close>

fun group3_rev :: "jsstr \<Rightarrow> jsstr" where
  "group3_rev (a # b # c # d # s) = a # b # c # 44 # group3_rev (d # s)"
| "group3_rev s = s"

definition group3 :: "jsstr \<Rightarrow> jsstr" where
  "group3 s = rev (group3_rev (rev s))"

definition fixed_grouped :: "nat \<Rightarrow> rat \<Rightarrow> jsstr" where
  "fixed_grouped d r = (let s = fixed_rat d r in group3 (takeWhile (\<lambda>c. c \<noteq> 46) s) @ dropWhile (\<lambda>c. c \<noteq> 46) s)"

text \<open>\<open>Intl.NumberFormat("en-US")\<close> with exactly \<open>d\<close> fraction digits, and with at most three.\<close>

fun intl_fixed :: "nat \<Rightarrow> number \<Rightarrow> jsstr" where
  "intl_fixed d (Num r) = (if r < 0 then 45 # fixed_grouped d (- r) else fixed_grouped d r)"
| "intl_fixed d Infinity = [8734]"
| "intl_fixed d NegInfinity = [45, 8734]"
| "intl_fixed d NaN = js ''NaN''"

definition drop_zeros :: "jsstr \<Rightarrow> jsstr" where
  "drop_zeros s = (let t = rev (dropWhile (\<lambda>c. c = 48) (rev s)) in if t \<noteq> [] \<and> last t = 46 then butlast t else t)"

fun toLocaleString_en :: "number \<Rightarrow> jsstr" where
  "toLocaleString_en (Num r) = drop_zeros (intl_fixed 3 (Num r))"
| "toLocaleString_en x = intl_fixed 0 x"

section \<open>Amounts and addresses\<close>

definition LAMPORTS_PER_SOL :: number where
  "LAMPORTS_PER_SOL = Num 1000000000"

definition isValidNumber :: "number option \<Rightarrow> bool" where
  "isValidNumber v = (case v of Some x \<Rightarrow> x \<noteq> NaN | None \<Rightarrow> False)"

definition formatSOL :: "number \<Rightarrow> jsstr" where
  "formatSOL lamports =
     (let sol = lamports / LAMPORTS_PER_SOL in
      if Num 1000000000 \<le> sol then toFixed 2 (sol / Num 1000000000) @ js ''B''
      else if Num 10000000 \<le> sol then toFixed 2 (sol / Num 1000000) @ js ''M''
      else intl_fixed 2 sol)"

definition formatPercentage :: "number \<Rightarrow> nat option \<Rightarrow> jsstr" where
  "formatPercentage percentage decimals =
     js ''('' @ toFixed (case decimals of Some d \<Rightarrow> d | None \<Rightarrow> 0) percentage @ js ''%)''"

definition formatAddress :: "jsstr \<Rightarrow> nat \<Rightarrow> jsstr" where
  "formatAddress address n =
     (if address = [] then [] else if length address \<le> n * 2 then address
      else take n address @ js ''...'' @ (if n = 0 then address else drop (length address - n) address))"

definition formatCommission :: "number option \<Rightarrow> jsstr" where
  "formatCommission commission = (case commission of None \<Rightarrow> js ''N/A'' | Some c \<Rightarrow> number_to_string c @ js ''%'')"

text \<open>A value that is shown: text, or a number left to the renderer.\<close>

datatype shown = ShownText jsstr | ShownNumber number

definition formatOptionalSlot :: "number option \<Rightarrow> shown" where
  "formatOptionalSlot slot = (if isValidNumber slot then ShownNumber (the slot) else ShownText (js ''-''))"

definition formatOptionalCount :: "number option \<Rightarrow> shown" where
  "formatOptionalCount n = (if isValidNumber n then ShownNumber (the n) else ShownText (js ''-''))"

record lamports_display =
  ld_value :: jsstr
  ld_rawValue :: "jsstr option"
  ld_showRaw :: bool

definition formatLamportsDisplay :: "number option \<Rightarrow> lamports_display" where
  "formatLamportsDisplay lamports =
     (if \<not> isValidNumber lamports then \<lparr>ld_value = js ''-'', ld_rawValue = None, ld_showRaw = False\<rparr>
      else let sol = the lamports / LAMPORTS_PER_SOL;
               compact = formatSOL (the lamports);
               rawValue = intl_fixed 2 sol;
               showRaw = (Num 10000000 \<le> sol)
           in \<lparr>ld_value = (if str_includes compact (js ''SOL'') then compact else compact @ js '' SOL''),
               ld_rawValue = (if showRaw then Some (rawValue @ js '' SOL'') else None), ld_showRaw = showRaw\<rparr>)"

definition without_dot_zero :: "jsstr \<Rightarrow> jsstr" where
  "without_dot_zero s = (if endsWith s (js ''.0'') then take (length s - 2) s else s)"

definition formatNumber :: "number \<Rightarrow> jsstr" where
  "formatNumber num =
     (if Num 1000000000 \<le> num then without_dot_zero (toFixed 1 (num / Num 1000000000)) @ js ''B''
      else if Num 1000000 \<le> num then without_dot_zero (toFixed 1 (num / Num 1000000)) @ js ''M''
      else toLocaleString_en num)"

text \<open>\<open>substring\<close> takes a negative bound as zero.\<close>

definition shortenPublicKey :: "jsstr \<Rightarrow> jsstr" where
  "shortenPublicKey pk = take 6 pk @ js ''...'' @ drop (length pk - 6) pk"

definition shortenMediumPublickKey :: "jsstr \<Rightarrow> jsstr" where
  "shortenMediumPublickKey pk = take 10 pk @ js ''...'' @ drop (length pk - 10) pk"

definition roundDecimals :: "jsstr \<Rightarrow> number" where
  "roundDecimals num = math_abs (string_to_number (toFixed 2 (parseFloat num)))"

definition supportPhaseRequirementCopy :: "number \<Rightarrow> jsstr" where
  "supportPhaseRequirementCopy thresholdPercent =
     js ''The support phase requires '' @ number_to_string thresholdPercent @
     js ''% of total validator stake expressing support for the proposal before it can move on to discussion and voting phase''"

section \<open>Page numbers\<close>

datatype page_item = Dots | Page int

fun with_dots :: "int \<Rightarrow> int list \<Rightarrow> page_item list" where
  "with_dots lastPage [] = []"
| "with_dots lastPage (p # ps) =
     (if lastPage \<noteq> 0 \<and> lastPage + 1 < p then [Dots] else []) @ Page p # with_dots p ps"

definition getPaginationRange :: "int \<Rightarrow> int \<Rightarrow> page_item list" where
  "getPaginationRange totalPages page =
     (if totalPages \<le> 5 then map (\<lambda>i. Page (int i + 1)) [0..<nat totalPages]
      else let pageNumbers = [1, 2, page, totalPages - 1, totalPages];
               sortedPages = filter (\<lambda>p. 1 \<le> p \<and> p \<le> totalPages) (sort (remdups pageNumbers))
           in with_dots 0 sortedPages)"

definition prev_disabled :: "int \<Rightarrow> bool" where
  "prev_disabled page = (page = 1)"

definition next_disabled :: "int \<Rightarrow> int \<Rightarrow> bool" where
  "next_disabled totalPages page = (page = totalPages)"

section \<open>The dashboard\<close>

record dashboard_env =
  de_endpointType :: jsstr
  de_network :: "known_network option"
  de_isResolvingNetwork :: bool
  de_slot :: "number option"
  de_isLoadingSnapshotMeta :: bool
  de_isErrorSnapshotMeta :: bool
  de_validators :: "validator list option"
  de_isLoadingValidators :: bool
  de_stakeAccounts :: "stake_account_data list option"
  de_isLoadingStakeAccounts :: bool
  de_votingPower :: number
  de_isLoadingVotingPower :: bool

record stat_entry =
  st_label :: jsstr
  st_value :: shown
  st_mobileValue :: "shown option"
  st_rawValue :: "jsstr option"
  st_showRaw :: bool
  st_isLoading :: bool

definition snapshotSlotValue :: "dashboard_env \<Rightarrow> shown" where
  "snapshotSlotValue e =
     (if de_isErrorSnapshotMeta e \<or> \<not> isKnownSnapshotNetwork (map_option network_name (de_network e)) then ShownText (js ''Unavailable'') else formatOptionalSlot (de_slot e))"

definition dashboard_totalStaked :: "dashboard_env \<Rightarrow> number" where
  "dashboard_totalStaked e =
     (case de_stakeAccounts e of None \<Rightarrow> Num 0 | Some as \<Rightarrow> or_zero (foldl (\<lambda>acc curr. acc + sa_activeStake curr) (Num 0) as))"

definition network_shown :: "dashboard_env \<Rightarrow> shown" where
  "network_shown e = ShownText (case de_network e of Some n \<Rightarrow> network_name n | None \<Rightarrow> de_endpointType e)"

definition stat_plain :: "string \<Rightarrow> shown \<Rightarrow> bool \<Rightarrow> stat_entry" where
  "stat_plain label v loading =
     \<lparr>st_label = js label, st_value = v, st_mobileValue = None, st_rawValue = None, st_showRaw = False, st_isLoading = loading\<rparr>"

definition stat_lamports :: "string \<Rightarrow> number \<Rightarrow> bool \<Rightarrow> stat_entry" where
  "stat_lamports label v loading =
     (let d = formatLamportsDisplay (Some v) in
      \<lparr>st_label = js label, st_value = ShownText (ld_value d), st_mobileValue = None, st_rawValue = ld_rawValue d,
       st_showRaw = ld_showRaw d, st_isLoading = loading\<rparr>)"

definition DashboardStats :: "dashboard_env \<Rightarrow> bool \<Rightarrow> bool \<Rightarrow> stat_entry list" where
  "DashboardStats e validatorView isLoadingProps =
     (let isLoading = (de_isLoadingSnapshotMeta e \<or> de_isLoadingValidators e \<or> de_isLoadingStakeAccounts e \<or> isLoadingProps);
          net = (stat_plain ''Network'' (network_shown e) (de_isResolvingNetwork e))\<lparr>st_mobileValue := Some (network_shown e)\<rparr>;
          snap = stat_plain ''Snapshot Slot'' (snapshotSlotValue e) (de_isLoadingSnapshotMeta e \<or> de_isResolvingNetwork e)
      in if validatorView
         then [net, snap, stat_lamports ''Delegations Received'' (de_votingPower e) (de_isLoadingVotingPower e),
               stat_plain ''Vote Accounts'' (formatOptionalCount (Some (Num 321))) isLoading]
         else [net, snap, stat_lamports ''Total Staked'' (dashboard_totalStaked e) (de_isLoadingStakeAccounts e),
               stat_plain ''Active Validators'' (formatOptionalCount (map_option (\<lambda>vs. Num (of_nat (length vs))) (de_validators e)))
                 (de_isLoadingValidators e)])"

section \<open>What an amount says\<close>

text \<open>The reader of a shown amount: its digits with two of them after the point, times the unit of its
  suffix.\<close>

definition shown_unit :: "jsstr \<Rightarrow> rat" where
  "shown_unit s = (if s \<noteq> [] \<and> last s = 66 then 10 ^ 9 else if s \<noteq> [] \<and> last s = 77 then 10 ^ 6 else 1)"

definition shown_value :: "jsstr \<Rightarrow> rat" where
  "shown_value s = of_nat (dec_val (filter is_digit s)) / 100 * shown_unit s"

lemma filter_group3 [simp]: "filter is_digit (group3 s) = filter is_digit s"
proof -
  have "filter is_digit (group3_rev t) = filter is_digit t" for t
    by (induction t rule: group3_rev.induct) (auto simp: is_digit_def)
  then show ?thesis by (simp add: group3_def flip: rev_filter)
qed

lemma dec_val_padded: "dec_val (replicate k 48 @ s) = dec_val s"
proof -
  have "dec_val_acc 0 (replicate k 48) = 0" by (induction k) auto
  then show ?thesis by (simp add: dec_val_def dec_val_acc_append)
qed

lemma filter_dec: "filter is_digit (dec n) = dec n"
  by (simp add: filter_id_conv dec_digits)

lemma fixed_parts:
  obtains z a b where "fixed_rat (Suc d) r = a @ 46 # b" "a @ b = replicate z 48 @ dec (nat \<lfloor>r * 10 ^ Suc d + 1 / 2\<rfloor>)" "b \<noteq> []"
proof -
  define m where "m = dec (nat \<lfloor>r * 10 ^ Suc d + 1 / 2\<rfloor>)"
  define s where "s = replicate (Suc (Suc d) - length m) 48 @ m"
  have "fixed_rat (Suc d) r = take (length s - Suc d) s @ 46 # drop (length s - Suc d) s"
    by (simp add: fixed_rat_def Let_def s_def m_def)
  moreover have "length s - Suc d < length s" by (simp add: s_def)
  then have "drop (length s - Suc d) s \<noteq> []" by simp
  ultimately show ?thesis using that [of "take (length s - Suc d) s" "drop (length s - Suc d) s"]
    by (metis append_take_drop_id s_def m_def)
qed

lemma fixed_digits: "dec_val (filter is_digit (fixed_rat (Suc d) r)) = nat \<lfloor>r * 10 ^ Suc d + 1 / 2\<rfloor>"
proof -
  obtain z a b where s: "fixed_rat (Suc d) r = a @ 46 # b" "a @ b = replicate z 48 @ dec (nat \<lfloor>r * 10 ^ Suc d + 1 / 2\<rfloor>)"
    by (rule fixed_parts)
  have "filter is_digit (fixed_rat (Suc d) r) = filter is_digit (a @ b)" by (simp add: s(1) is_digit_def)
  also have "\<dots> = a @ b" unfolding s(2) filter_append filter_dec by (simp add: is_digit_def)
  finally show ?thesis using dec_val_padded s(2) by simp
qed

lemma grouped_digits: "filter is_digit (fixed_grouped d r) = filter is_digit (fixed_rat d r)"
  by (simp add: fixed_grouped_def Let_def) (metis filter_append takeWhile_dropWhile_id)

lemma last_fixed: "is_digit (last (fixed_rat (Suc d) r))" "fixed_rat (Suc d) r \<noteq> []"
proof -
  obtain z a b where s: "fixed_rat (Suc d) r = a @ 46 # b" "a @ b = replicate z 48 @ dec (nat \<lfloor>r * 10 ^ Suc d + 1 / 2\<rfloor>)" "b \<noteq> []"
    by (rule fixed_parts)
  have "last (fixed_rat (Suc d) r) = last (a @ b)" using s(1,3) by simp
  then show "is_digit (last (fixed_rat (Suc d) r))" unfolding s(2) using last_dec by simp
  show "fixed_rat (Suc d) r \<noteq> []" by (simp add: s(1))
qed

lemma last_grouped: "is_digit (last (fixed_grouped (Suc d) r))" "fixed_grouped (Suc d) r \<noteq> []"
proof -
  obtain z a b where s: "fixed_rat (Suc d) r = a @ 46 # b" "a @ b = replicate z 48 @ dec (nat \<lfloor>r * 10 ^ Suc d + 1 / 2\<rfloor>)" "b \<noteq> []"
    by (rule fixed_parts)
  have "is_digit c" if "c \<in> set (a @ b)" for c
    using that unfolding s(2) by (auto intro: dec_digits simp: is_digit_def [of 48])
  then have "\<forall>c\<in>set a. c \<noteq> 46" by (fastforce simp: is_digit_def)
  then have "dropWhile (\<lambda>c. c \<noteq> 46) (fixed_rat (Suc d) r) = 46 # b" by (simp add: s(1) dropWhile_append)
  then show "is_digit (last (fixed_grouped (Suc d) r))" "fixed_grouped (Suc d) r \<noteq> []"
    using last_fixed(1) [of d r] s by (simp_all add: fixed_grouped_def Let_def)
qed

lemma two_places:
  assumes "0 \<le> y" "\<bar>y - x\<bar> \<le> 1 / 10000"
  shows "\<bar>of_nat (nat \<lfloor>y * 10 ^ Suc 1 + 1 / 2\<rfloor>) / 100 - x\<bar> \<le> (51 / 10000 :: rat)"
proof -
  define m where "m = \<lfloor>y * 10 ^ Suc 1 + 1 / 2\<rfloor>"
  have "of_int m \<le> y * 100 + 1 / 2" "y * 100 + 1 / 2 < of_int m + 1" unfolding m_def by (simp_all, linarith+)
  moreover have "0 \<le> m" using assms(1) by (simp add: m_def)
  ultimately show ?thesis using assms(2) unfolding m_def [symmetric] abs_le_iff by (simp add: field_simps)
qed

lemma fl_close:
  assumes "0 \<le> x" "x \<le> 10 ^ 12"
  shows "\<bar>fl x - x\<bar> \<le> x / 2 ^ 53 + 1 / 2 ^ 59" "0 \<le> fl x" "to_double x = Num (fl x)"
proof -
  show "0 \<le> fl x" using assms(1) by (rule fl_nonneg)
  have "fl x \<le> of_int (10 ^ 12)" using fl_between_ints [of 0 x "10 ^ 12"] assms by simp
  then show "to_double x = Num (fl x)" using \<open>0 \<le> fl x\<close> by (intro to_double_small) simp
  show "\<bar>fl x - x\<bar> \<le> x / 2 ^ 53 + 1 / 2 ^ 59"
  proof (cases "2 powi (-1022) \<le> \<bar>x\<bar>")
    case True
    then show ?thesis using fl_rel_error [OF True] assms(1) by simp
  next
    case False
    have small: "2 powi (-1022) \<le> (1 / 2 ^ 60 :: rat)" by (simp add: power_int_def field_simps)
    then have x: "x \<le> 1 / 2 ^ 60" using False assms(1) by linarith
    have "fl x \<le> fl (1 / 2 ^ 60)" using x by (rule fl_mono)
    also have "\<dots> \<le> 1 / 2 ^ 59" using fl_rel_error [of "1 / 2 ^ 60"] small unfolding abs_le_iff by simp
    finally show ?thesis using x assms(1) \<open>0 \<le> fl x\<close> by (simp add: abs_le_iff)
  qed
qed

lemma scaled_close:
  assumes "0 \<le> x" "x \<le> 10 ^ 12" "u = 10 ^ 6 \<or> u = 10 ^ 9" "fl x < 1000 * u \<or> u = 10 ^ 9"
  shows "\<exists>y. Num (fl x) / Num u = Num y \<and> 0 \<le> y \<and> \<bar>y - x / u\<bar> \<le> 1 / 10000"
proof -
  have u: "0 < u" "1000000 \<le> u" using assms(3) by auto
  have x: "fl x \<le> x + x / 2 ^ 53 + 1 / 2 ^ 59" "x \<le> fl x + x / 2 ^ 53 + 1 / 2 ^ 59" "0 \<le> fl x"
    using fl_close [OF assms(1,2)] by (simp_all add: abs_le_iff)
  then have big: "fl x \<le> 1001 * u" using assms(2-4) u by auto
  then have q: "0 \<le> fl x / u" "fl x / u \<le> 1001" using x(3) u(1) by (simp_all add: field_simps)
  have y: "\<bar>fl (fl x / u) - fl x / u\<bar> \<le> (fl x / u) / 2 ^ 53 + 1 / 2 ^ 59" "0 \<le> fl (fl x / u)" "to_double (fl x / u) = Num (fl (fl x / u))"
    using fl_close [of "fl x / u"] q by simp_all
  have "\<bar>fl x - x\<bar> \<le> u / 10 ^ 6" using x(1,2) assms(2) u(2) unfolding abs_le_iff by simp
  then have "\<bar>fl x / u - x / u\<bar> \<le> 1 / 1000000"
    using u(1) by (simp add: diff_divide_distrib [symmetric] abs_divide field_simps)
  moreover have "\<bar>fl (fl x / u) - fl x / u\<bar> \<le> 1 / 1000000" using y(1) q by simp
  ultimately have "\<bar>fl (fl x / u) - x / u\<bar> \<le> 1 / 10000" by linarith
  then show ?thesis using y u by simp
qed

lemma toFixed_value: "0 \<le> y \<Longrightarrow> dec_val (filter is_digit (toFixed 2 (Num y))) = nat \<lfloor>y * 10 ^ Suc 1 + 1 / 2\<rfloor>"
  using fixed_digits [of 1 y] by (simp add: numeral_2_eq_2)

text \<open>C27. A shown amount is right to its last place: for every amount up to a trillion \<open>SOL\<close>, the digits and
  the suffix that \<open>formatSOL\<close> shows read back as the amount, with an error of at most \<open>0.0051\<close> of
  the unit shown, although the amount is divided once or twice with rounding before it is cut to
  two places.\<close>

theorem formatSOL_accurate:
  assumes "0 \<le> r" "r \<le> 10 ^ 21"
  shows "\<bar>shown_value (formatSOL (Num r)) - r / 10 ^ 9\<bar> \<le> 51 / 10000 * shown_unit (formatSOL (Num r))"
proof -
  let ?x = "r / 10 ^ 9"
  have x: "0 \<le> ?x" "?x \<le> 10 ^ 12" using assms by simp_all
  have sol: "Num r / LAMPORTS_PER_SOL = Num (fl ?x)" using fl_close(3) [OF x] by (simp add: LAMPORTS_PER_SOL_def)
  consider (B) "10 ^ 9 \<le> fl ?x" | (M) "fl ?x < 10 ^ 9" "10 ^ 7 \<le> fl ?x" | (plain) "fl ?x < 10 ^ 7" by linarith
  then show ?thesis
  proof cases
    case B
    obtain y where y: "Num (fl ?x) / Num (10 ^ 9) = Num y" "0 \<le> y" "\<bar>y - ?x / 10 ^ 9\<bar> \<le> 1 / 10000"
      using scaled_close [OF x, of "10 ^ 9"] by blast
    have s: "formatSOL (Num r) = toFixed 2 (Num y) @ js ''B''" using B y(1) by (simp add: formatSOL_def sol)
    show ?thesis using two_places [OF y(2,3)] toFixed_value [OF y(2)]
      unfolding s shown_value_def shown_unit_def by (simp add: js_str is_digit_def abs_le_iff field_simps)
  next
    case M
    obtain y where y: "Num (fl ?x) / Num (10 ^ 6) = Num y" "0 \<le> y" "\<bar>y - ?x / 10 ^ 6\<bar> \<le> 1 / 10000"
      using scaled_close [OF x, of "10 ^ 6"] M by auto
    have s: "formatSOL (Num r) = toFixed 2 (Num y) @ js ''M''" using M y(1) by (simp add: formatSOL_def sol)
    show ?thesis using two_places [OF y(2,3)] toFixed_value [OF y(2)]
      unfolding s shown_value_def shown_unit_def by (simp add: js_str is_digit_def abs_le_iff field_simps)
  next
    case plain
    have f: "0 \<le> fl ?x" "\<bar>fl ?x - ?x\<bar> \<le> 1 / 10000"
      using fl_close(1,2) [OF x] plain x(1) unfolding abs_le_iff by simp_all
    have s: "formatSOL (Num r) = fixed_grouped (Suc 1) (fl ?x)" using plain f(1) by (simp add: formatSOL_def sol numeral_2_eq_2)
    have "shown_unit (formatSOL (Num r)) = 1" using last_grouped(1) [of 1 "fl ?x"] by (auto simp: s shown_unit_def is_digit_def)
    then show ?thesis using two_places [OF f] by (simp add: shown_value_def s grouped_digits fixed_digits)
  qed
qed

theorem formatSOL_accurate_witness:
  "\<bar>shown_value (formatSOL (Num 12345678901234)) - 12345678901234 / 10 ^ 9\<bar> \<le> 51 / 10000 * shown_unit (formatSOL (Num 12345678901234))"
  using formatSOL_accurate [of 12345678901234] by simp

section \<open>Page numbers lead everywhere\<close>

text \<open>Neighbours in a row of page numbers are consecutive, or there are dots between them.\<close>

fun well_spaced :: "page_item list \<Rightarrow> bool" where
  "well_spaced [Page a] = True"
| "well_spaced (Page a # Page b # xs) = (b = a + 1 \<and> well_spaced (Page b # xs))"
| "well_spaced (Page a # Dots # Page b # xs) = (a + 1 < b \<and> well_spaced (Page b # xs))"
| "well_spaced _ = False"

lemma well_spaced_upt: "a < b \<Longrightarrow> well_spaced (map (\<lambda>i. Page (int i + 1)) [a..<b])"
proof (induction "b - a" arbitrary: a)
  case (Suc n)
  show ?case
  proof (cases "Suc a = b")
    case False
    then have "Suc a < b" using Suc.prems by simp
    moreover from this have "well_spaced (map (\<lambda>i. Page (int i + 1)) [Suc a..<b])" using Suc by simp
    ultimately show ?thesis by (simp add: upt_conv_Cons)
  qed (auto simp: upt_conv_Cons)
qed simp

lemma wide_range:
  assumes "5 < n" "1 \<le> p" "p \<le> n"
  shows "getPaginationRange n p =
    (if p \<le> 2 \<or> n - 1 \<le> p then [Page 1, Page 2, Dots, Page (n - 1), Page n]
     else [Page 1, Page 2] @ (if 3 < p then [Dots] else []) @ [Page p] @ (if p < n - 2 then [Dots] else []) @ [Page (n - 1), Page n])"
proof -
  consider "p = 1" | "p = 2" | "p = n - 1" | "p = n" | "2 < p" "p < n - 1" using assms by linarith
  then show ?thesis using assms by cases (auto simp: getPaginationRange_def Let_def)
qed

text \<open>The row of page numbers leads to every page: for every page of a list it starts with the
  first page, ends with the last one, contains the current page, is increasing with dots exactly
  where pages are left out, and never has more than seven items.  The arrows are disabled exactly
  on the first and on the last page.\<close>

theorem pagination_complete:
  assumes "1 \<le> page" "page \<le> totalPages"
  shows "let items = getPaginationRange totalPages page in
    well_spaced items \<and> hd items = Page 1 \<and> last items = Page totalPages \<and> Page page \<in> set items \<and> length items \<le> 7 \<and>
    (prev_disabled page \<longleftrightarrow> \<not> 1 \<le> page - 1) \<and> (next_disabled totalPages page \<longleftrightarrow> \<not> page + 1 \<le> totalPages)"
proof -
  have arrows: "(prev_disabled page \<longleftrightarrow> \<not> 1 \<le> page - 1) \<and> (next_disabled totalPages page \<longleftrightarrow> \<not> page + 1 \<le> totalPages)"
    using assms by (auto simp: prev_disabled_def next_disabled_def)
  show ?thesis
  proof (cases "totalPages \<le> 5")
    case True
    have "Page page = Page (int (nat (page - 1)) + 1)" "nat (page - 1) \<in> {0..<nat totalPages}" using assms by auto
    then have "Page page \<in> (\<lambda>i. Page (int i + 1)) ` {0..<nat totalPages}" by blast
    then show ?thesis using True assms arrows well_spaced_upt [of 0 "nat totalPages"]
      by (simp add: getPaginationRange_def Let_def hd_map last_map)
  next
    case False
    then have "5 < totalPages" by simp
    from wide_range [OF this assms] show ?thesis using False assms arrows by (auto simp: Let_def)
  qed
qed

theorem pagination_complete_witness:
  "getPaginationRange 12 6 = [Page 1, Page 2, Dots, Page 6, Dots, Page 11, Page 12] \<and> well_spaced (getPaginationRange 12 6)"
  using pagination_complete [of 6 12] wide_range [of 12 6] by (simp add: Let_def)

end
