(* ===== verification/Proposal_Views.thy ===== *)
theory Proposal_Views
  imports Formatting Mutations Quorum
begin

text \<open>
  The proposal list with its filter dialog (\<open>components/proposals/ProposalList.tsx\<close>, \<open>FilterPanel.tsx\<close>,
  \<open>ProposalFilterModal.tsx\<close>), the proposal table with its expanded rows (\<open>proposals-table/ProposalsTable.tsx\<close>,
  \<open>Columns.tsx\<close>) and the parts of the detail page that compute what they show: vote breakdown and
  quorum ring, the countdown of the timeline, the carousel of the support phase, the search in the
  tables of voters and supporters (\<open>components/proposals/detail\<close>).  Each component is the state its hooks
  hold, the handlers as functions on it, and the shown values as functions of state and data.
\<close>

section \<open>The list and its filters\<close>

fun status_string :: "proposal_status \<Rightarrow> jsstr" where
  "status_string Supporting = js ''supporting''"
| "status_string Discussion = js ''discussion''"
| "status_string Voting = js ''voting''"
| "status_string Finalized = js ''finalized''"
| "status_string Failed = js ''failed''"

text \<open>The choices of the dialog are strings; the labels of the options play no role.\<close>

record filter_state =
  fs_onlyEligible :: bool
  fs_status :: jsstr
  fs_lifecycle :: jsstr
  fs_timeWindow :: jsstr
  fs_minimumSOL :: number

definition status_options :: "jsstr list" where
  "status_options = [js ''all'', js ''active'', js ''finalizing'', js ''finalized'']"

definition lifecycle_options :: "jsstr list" where
  "lifecycle_options = [js ''all'', js ''support'', js ''voting'', js ''finished'']"

definition timeWindow_options :: "jsstr list" where
  "timeWindow_options = [js ''all'', js ''24h'', js ''7d'', js ''30d'']"

definition defaultFilters :: filter_state where
  "defaultFilters = \<lparr>fs_onlyEligible = False, fs_status = js ''all'', fs_lifecycle = js ''all'',
     fs_timeWindow = js ''all'', fs_minimumSOL = Num 0\<rparr>"

definition countActiveFilters :: "filter_state \<Rightarrow> nat" where
  "countActiveFilters f =
     of_bool (fs_onlyEligible f) + of_bool (fs_status f \<noteq> js ''all'') + of_bool (fs_lifecycle f \<noteq> js ''all'') +
     of_bool (fs_timeWindow f \<noteq> js ''all'') + of_bool (Num 0 < fs_minimumSOL f)"

definition list_passes :: "filter_state \<Rightarrow> jsstr \<Rightarrow> proposal_record \<Rightarrow> bool" where
  "list_passes f searchQuery p \<longleftrightarrow>
     \<not> (fs_status f \<noteq> js ''all'' \<and> toLowerCase (status_string (rec_status p)) \<noteq> fs_status f) \<and>
     \<not> (searchQuery \<noteq> [] \<and> \<not> str_includes (toLowerCase (rec_title p)) (toLowerCase searchQuery))"

definition filteredProposals :: "filter_state \<Rightarrow> jsstr \<Rightarrow> proposal_record list \<Rightarrow> proposal_record list" where
  "filteredProposals f searchQuery proposals = filter (list_passes f searchQuery) proposals"

text \<open>The state of the list: search text, applied filters, and the draft of the dialog while it is open
  (the panel mounts the dialog only then).\<close>

record list_state =
  li_searchQuery :: jsstr
  li_filterState :: filter_state
  li_draft :: "filter_state option"

definition list_init :: list_state where
  "list_init = \<lparr>li_searchQuery = [], li_filterState = defaultFilters, li_draft = None\<rparr>"

datatype list_action =
  TypeSearch jsstr | OpenFilters | DraftEligible bool | DraftStatus jsstr | DraftLifecycle jsstr | DraftWindow jsstr
  | DraftMinimum jsstr | ApplyFilters | CloseFilters | ResetFilters

definition filter_handleApply :: "list_state \<Rightarrow> list_state" where
  "filter_handleApply s = (case li_draft s of None \<Rightarrow> s | Some f \<Rightarrow> s\<lparr>li_filterState := f, li_draft := None\<rparr>)"

definition filter_handleClose :: "list_state \<Rightarrow> list_state" where
  "filter_handleClose s = (s\<lparr>li_draft := map_option (\<lambda>_. li_filterState s) (li_draft s)\<rparr>)\<lparr>li_draft := None\<rparr>"

definition filter_handleReset :: "list_state \<Rightarrow> list_state" where
  "filter_handleReset s = (s\<lparr>li_draft := map_option (\<lambda>_. defaultFilters) (li_draft s)\<rparr>)\<lparr>li_draft := None\<rparr>"

definition edit_draft :: "(filter_state \<Rightarrow> filter_state) \<Rightarrow> list_state \<Rightarrow> list_state" where
  "edit_draft g s = s\<lparr>li_draft := map_option g (li_draft s)\<rparr>"

fun list_step :: "list_state \<Rightarrow> list_action \<Rightarrow> list_state" where
  "list_step s (TypeSearch q) = s\<lparr>li_searchQuery := q\<rparr>"
| "list_step s OpenFilters = s\<lparr>li_draft := Some (li_filterState s)\<rparr>"
| "list_step s (DraftEligible b) = edit_draft (fs_onlyEligible_update (\<lambda>_. b)) s"
| "list_step s (DraftStatus v) = (if v \<in> set status_options then edit_draft (fs_status_update (\<lambda>_. v)) s else s)"
| "list_step s (DraftLifecycle v) = (if v \<in> set lifecycle_options then edit_draft (fs_lifecycle_update (\<lambda>_. v)) s else s)"
| "list_step s (DraftWindow v) = (if v \<in> set timeWindow_options then edit_draft (fs_timeWindow_update (\<lambda>_. v)) s else s)"
| "list_step s (DraftMinimum v) =
     edit_draft (fs_minimumSOL_update (\<lambda>_. if v = [] then Num 0 else or_zero (parseFloat v))) s"
| "list_step s ApplyFilters = filter_handleApply s"
| "list_step s CloseFilters = filter_handleClose s"
| "list_step s ResetFilters = filter_handleReset s"

section \<open>The table\<close>

text \<open>What the table component holds.  Sorting and column filters are values of the table library; setting
  the filter of the status column is a function of that library.\<close>

record ('sort, 'filters) table_view =
  tb_sorting :: "'sort list"
  tb_columnFilters :: "'filters list"
  tb_expanded :: "jsstr \<Rightarrow> bool option"
  tb_statusFilter :: "proposal_status option"
  tb_showEligibleOnly :: bool
  tb_pageIndex :: nat
  tb_hasAppliedDefault :: bool

definition getIsExpanded :: "(jsstr \<Rightarrow> bool option) \<Rightarrow> jsstr \<Rightarrow> bool" where
  "getIsExpanded state rowId = (state rowId = Some True)"

definition table_handleRowToggle :: "jsstr \<Rightarrow> ('s, 'f) table_view \<Rightarrow> ('s, 'f) table_view" where
  "table_handleRowToggle rowId v =
     v\<lparr>tb_expanded := (tb_expanded v)(rowId \<mapsto> \<not> getIsExpanded (tb_expanded v) rowId)\<rparr>"

definition getDefaultExpanded :: "chain_env \<Rightarrow> proposal_record list \<Rightarrow> jsstr \<Rightarrow> bool option" where
  "getDefaultExpanded env data =
     (case data of [] \<Rightarrow> Map.empty | p # _ \<Rightarrow> [toBase58 env (rec_publicKey p) \<mapsto> True])"

definition default_expansion :: "chain_env \<Rightarrow> proposal_record list \<Rightarrow> ('s, 'f) table_view \<Rightarrow> ('s, 'f) table_view" where
  "default_expansion env data v =
     (if \<not> tb_hasAppliedDefault v \<and> data \<noteq> []
      then v\<lparr>tb_hasAppliedDefault := True, tb_expanded := getDefaultExpanded env data\<rparr> else v)"

definition table_handleReset :: "chain_env \<Rightarrow> proposal_record list \<Rightarrow> ('s, 'f) table_view \<Rightarrow> ('s, 'f) table_view" where
  "table_handleReset env data v =
     v\<lparr>tb_sorting := [], tb_columnFilters := [], tb_statusFilter := None, tb_showEligibleOnly := False,
       tb_expanded := getDefaultExpanded env data, tb_pageIndex := 0\<rparr>"

definition status_filter_effect ::
  "(jsstr option \<Rightarrow> 'f list \<Rightarrow> 'f list) \<Rightarrow> ('s, 'f) table_view \<Rightarrow> ('s, 'f) table_view" where
  "status_filter_effect setFilterValue v =
     v\<lparr>tb_columnFilters := setFilterValue (map_option status_string (tb_statusFilter v)) (tb_columnFilters v)\<rparr>"

definition table_mount :: "('s, 'f) table_view" where
  "table_mount = \<lparr>tb_sorting = [], tb_columnFilters = [], tb_expanded = Map.empty, tb_statusFilter = None,
     tb_showEligibleOnly = False, tb_pageIndex = 0, tb_hasAppliedDefault = False\<rparr>"

datatype ('s, 'f) table_action =
  DataArrives "proposal_record list" | RowToggle jsstr | ChooseStatus "proposal_status option" | ShowEligible bool
  | SortingChange "'s list" | PageChange nat | TableReset

text \<open>The effect of the status filter runs when the filter has changed.\<close>

definition after_status ::
  "(jsstr option \<Rightarrow> 'f list \<Rightarrow> 'f list) \<Rightarrow> ('s, 'f) table_view \<Rightarrow> ('s, 'f) table_view \<Rightarrow> ('s, 'f) table_view" where
  "after_status sfv v v' = (if tb_statusFilter v' \<noteq> tb_statusFilter v then status_filter_effect sfv v' else v')"

text \<open>One interaction, with the effects it causes: the data and the state.\<close>

fun table_step ::
  "chain_env \<Rightarrow> (jsstr option \<Rightarrow> 'f list \<Rightarrow> 'f list) \<Rightarrow> proposal_record list \<times> ('s, 'f) table_view \<Rightarrow> ('s, 'f) table_action \<Rightarrow>
   proposal_record list \<times> ('s, 'f) table_view" where
  "table_step env sfv (data, v) (DataArrives ps) = (ps, default_expansion env ps v)"
| "table_step env sfv (data, v) (RowToggle r) = (data, table_handleRowToggle r v)"
| "table_step env sfv (data, v) (ChooseStatus c) = (data, after_status sfv v (v\<lparr>tb_statusFilter := c\<rparr>))"
| "table_step env sfv (data, v) (ShowEligible b) = (data, v\<lparr>tb_showEligibleOnly := b\<rparr>)"
| "table_step env sfv (data, v) (SortingChange ss) = (data, v\<lparr>tb_sorting := ss\<rparr>)"
| "table_step env sfv (data, v) (PageChange page) = (data, v\<lparr>tb_pageIndex := page\<rparr>)"
| "table_step env sfv (data, v) TableReset = (data, after_status sfv v (table_handleReset env data v))"

definition table_run where
  "table_run env sfv = foldl (table_step env sfv)"

section \<open>Quorum, in the table and on the detail page\<close>

definition total_source :: "network_meta option \<Rightarrow> snapshot_total_source option" where
  "total_source meta =
     (case meta of None \<Rightarrow> None
      | Some m \<Rightarrow> map_option (\<lambda>slot. \<lparr>meta_slot = slot, meta_total_active_stake = nm_total_active_stake m\<rparr>) (nm_slot m))"

definition getVoteStats :: "proposal_record \<Rightarrow> network_meta option \<Rightarrow> proposal_vote_stats" where
  "getVoteStats p snapshotMeta =
     computeProposalVoteStats \<lparr>forLamports = rec_forVotesLamports p, againstLamports = rec_againstVotesLamports p,
       abstainLamports = rec_abstainVotesLamports p,
       totalActiveStake = resolveQuorumDenominator (total_source snapshotMeta) (Some (rec_snapshotSlot p))\<rparr>"

datatype participation_cell = LoadingCell | SnapshotUnavailable | Participation jsstr jsstr

definition ParticipationCell :: "proposal_record \<Rightarrow> network_meta option \<Rightarrow> bool \<Rightarrow> participation_cell" where
  "ParticipationCell p snapshotMeta isLoadingSnapshotMeta =
     (if isLoadingSnapshotMeta then LoadingCell
      else case quorum (getVoteStats p snapshotMeta) of
        UnknownQuorum \<Rightarrow> SnapshotUnavailable
      | KnownQuorum q \<Rightarrow> Participation (toFixed 2 (kq_participationPercent q) @ js ''%'')
          (if kq_isMet q then js ''Quorum met'' else js ''of total stake''))"

definition VoteBreakdownCell :: "proposal_record \<Rightarrow> network_meta option \<Rightarrow> (jsstr \<times> jsstr) list option" where
  "VoteBreakdownCell p snapshotMeta =
     (case voteShare (getVoteStats p snapshotMeta) of
        UnknownBreakdown \<Rightarrow> None
      | KnownBreakdown b \<Rightarrow> Some [(js ''For'', toFixed 2 (forPercent b) @ js ''%''),
          (js ''Against'', toFixed 2 (againstPercent b) @ js ''%''), (js ''Abstain'', toFixed 2 (abstainPercent b) @ js ''%'')])"

definition participation_accessor :: "proposal_record \<Rightarrow> network_meta option \<Rightarrow> number option" where
  "participation_accessor p snapshotMeta =
     (case quorum (getVoteStats p snapshotMeta) of UnknownQuorum \<Rightarrow> None | KnownQuorum q \<Rightarrow> Some (kq_participationPercent q))"

definition votingPeriod :: "proposal_record \<Rightarrow> jsstr" where
  "votingPeriod p =
     (if Num 0 < rec_startEpoch p \<and> Num 0 < rec_endEpoch p
      then number_to_string (rec_startEpoch p) @ js '' - '' @ number_to_string (rec_endEpoch p - Num 1) else js ''-'')"

definition votingThrough :: "proposal_record \<Rightarrow> shown" where
  "votingThrough p = (if Num 0 < rec_endEpoch p then ShownNumber (rec_endEpoch p - Num 1) else ShownText (js ''-''))"

text \<open>The ring around the breakdown: the total in its centre and the three arcs.\<close>

record quorum_donut =
  qd_totalSol :: jsstr
  qd_forPercent :: number
  qd_againstPercent :: number
  qd_abstainPercent :: number
  qd_quorumAngle :: number

definition QuorumDonut :: "number \<Rightarrow> number \<Rightarrow> number \<Rightarrow> number option \<Rightarrow> quorum_donut" where
  "QuorumDonut f a ab totalLamports =
     (let part = (\<lambda>x. case totalLamports of Some t \<Rightarrow> if Num 0 < t then x / t else Num 0 | None \<Rightarrow> Num 0) in
      \<lparr>qd_totalSol = (case totalLamports of None \<Rightarrow> [8212] | Some t \<Rightarrow> formatSOL t),
       qd_forPercent = part f, qd_againstPercent = part a, qd_abstainPercent = part ab,
       qd_quorumAngle = QUORUM_FRACTION * Num 360\<rparr>)"

record vote_item =
  vi_label :: jsstr
  vi_amount :: jsstr
  vi_percentage :: jsstr
  vi_stakePercentage :: "jsstr option"

definition vote_item_of :: "string \<Rightarrow> number \<Rightarrow> (percentages \<Rightarrow> number) \<Rightarrow> proposal_vote_stats \<Rightarrow> vote_item" where
  "vote_item_of label lamports field stats =
     \<lparr>vi_label = js label, vi_amount = ld_value (formatLamportsDisplay (Some lamports)),
      vi_percentage = (case voteShare stats of KnownBreakdown b \<Rightarrow> formatPercentage (field b) (Some 2) | UnknownBreakdown \<Rightarrow> [8212]),
      vi_stakePercentage = (case stakeShare stats of KnownBreakdown b \<Rightarrow> Some (toFixed 2 (field b) @ js ''%'') | UnknownBreakdown \<Rightarrow> None)\<rparr>"

record breakdown_view =
  bv_donut :: quorum_donut
  bv_participation :: jsstr
  bv_items :: "vote_item list"

definition VoteBreakdown :: "proposal_record \<Rightarrow> network_meta option \<Rightarrow> breakdown_view" where
  "VoteBreakdown p meta =
     (let totalLamports = resolveQuorumDenominator (total_source meta) (Some (rec_snapshotSlot p));
          stats = getVoteStats p meta
      in \<lparr>bv_donut = QuorumDonut (rec_forVotesLamports p) (rec_againstVotesLamports p) (rec_abstainVotesLamports p)
             (case quorum stats of KnownQuorum _ \<Rightarrow> totalLamports | UnknownQuorum \<Rightarrow> None),
          bv_participation = (case quorum stats of
             KnownQuorum q \<Rightarrow> toFixed 2 (kq_participationPercent q) @ js ''%'' @ (if kq_isMet q then [32, 8212, 32] @ js ''quorum met'' else [])
           | UnknownQuorum \<Rightarrow> 8212 # js '' (snapshot total unavailable)''),
          bv_items = [vote_item_of ''For'' (rec_forVotesLamports p) forPercent stats,
            vote_item_of ''Against'' (rec_againstVotesLamports p) againstPercent stats,
            vote_item_of ''Abstain'' (rec_abstainVotesLamports p) abstainPercent stats]\<rparr>)"

section \<open>The countdown of the timeline\<close>

definition getActivePhaseEndEpoch ::
  "proposal_status option \<Rightarrow> number option \<Rightarrow> number option \<Rightarrow> number option \<Rightarrow> number option" where
  "getActivePhaseEndEpoch phase supportEnd discussionEnd votingEnd =
     (case phase of
        Some Supporting \<Rightarrow> supportEnd
      | Some Discussion \<Rightarrow> discussionEnd
      | Some Voting \<Rightarrow> votingEnd
      | Some Finalized \<Rightarrow> votingEnd
      | _ \<Rightarrow> None)"

definition timeline_phase_epochs :: "governance_config_dto option \<Rightarrow> proposal_record \<Rightarrow> phase_epochs option" where
  "timeline_phase_epochs config p =
     map_option (\<lambda>c. getProposalPhaseEpochs (rec_creationEpoch p) (epochConstantsFromGovernanceConfig c)
       (Some \<lparr>pa_voting = rec_voting p, pa_startEpoch = rec_startEpoch p\<rparr>)) config"

definition timeline_votingEndEpoch :: "governance_config_dto option \<Rightarrow> proposal_record \<Rightarrow> number option" where
  "timeline_votingEndEpoch config p =
     (if rec_voting p \<and> Num 0 < rec_endEpoch p then Some (rec_endEpoch p)
      else map_option (\<lambda>ph. snapshotEpoch ph + (case config of Some c \<Rightarrow> VOTING_EPOCHS (epochConstantsFromGovernanceConfig c) | None \<Rightarrow> Num 0))
             (timeline_phase_epochs config p))"

definition activePhaseEndEpoch :: "governance_config_dto option \<Rightarrow> proposal_record \<Rightarrow> number option" where
  "activePhaseEndEpoch config p =
     getActivePhaseEndEpoch (Some (rec_status p)) (map_option supportEndEpoch (timeline_phase_epochs config p))
       (map_option discussionEndEpoch (timeline_phase_epochs config p)) (timeline_votingEndEpoch config p)"

section \<open>The carousel of the support phase\<close>

datatype card_stage = SupportCard | DiscussionCard

definition carousel_cards :: "proposal_status \<Rightarrow> card_stage list" where
  "carousel_cards stage = (if stage = Supporting then [SupportCard] else [SupportCard, DiscussionCard])"

definition getInitialIndex :: "proposal_status \<Rightarrow> int" where
  "getInitialIndex stage = (if stage = Discussion then 1 else 0)"

record carousel =
  ca_activeIndex :: int
  ca_direction :: int
  ca_prevStage :: proposal_status

definition carousel_mount :: "proposal_status \<Rightarrow> carousel" where
  "carousel_mount stage = \<lparr>ca_activeIndex = getInitialIndex stage, ca_direction = 0, ca_prevStage = stage\<rparr>"

definition carousel_render :: "proposal_status \<Rightarrow> carousel \<Rightarrow> carousel" where
  "carousel_render stage c =
     (if ca_prevStage c \<noteq> stage then c\<lparr>ca_prevStage := stage, ca_activeIndex := getInitialIndex stage\<rparr> else c)"

definition goTo :: "proposal_status \<Rightarrow> int \<Rightarrow> carousel \<Rightarrow> carousel" where
  "goTo stage newIndex c =
     (let clamped = max 0 (min newIndex (int (length (carousel_cards stage)) - 1)) in
      if clamped = ca_activeIndex c then c
      else c\<lparr>ca_direction := (if ca_activeIndex c < clamped then 1 else -1), ca_activeIndex := clamped\<rparr>)"

definition handleDragEnd :: "proposal_status \<Rightarrow> number \<Rightarrow> carousel \<Rightarrow> carousel" where
  "handleDragEnd stage x c =
     (if x < Num (-20) \<and> ca_activeIndex c < int (length (carousel_cards stage)) - 1 then goTo stage (ca_activeIndex c + 1) c
      else if Num 20 < x \<and> 0 < ca_activeIndex c then goTo stage (ca_activeIndex c - 1) c
      else c)"

definition currentCard :: "proposal_status \<Rightarrow> carousel \<Rightarrow> card_stage" where
  "currentCard stage c =
     (let safeActiveIndex = max 0 (min (ca_activeIndex c) (int (length (carousel_cards stage)) - 1))
      in carousel_cards stage ! nat safeActiveIndex)"

definition isCardEnded :: "proposal_status \<Rightarrow> bool \<Rightarrow> bool \<Rightarrow> card_stage \<Rightarrow> bool" where
  "isCardEnded stage hasEnded datePassed cc \<longleftrightarrow>
     hasEnded \<or> datePassed \<or> (cc = SupportCard \<and> stage \<noteq> Supporting) \<or>
     (cc = DiscussionCard \<and> (stage = Voting \<or> stage = Finalized))"

section \<open>Voters and supporters\<close>

definition voters_filteredData :: "jsstr \<Rightarrow> top_voter list \<Rightarrow> top_voter list" where
  "voters_filteredData searchValue topVoters =
     (let searchTerm = toLowerCase (trim searchValue) in
      if length searchTerm = 0 then topVoters
      else filter (\<lambda>v. str_includes (toLowerCase (tv_validatorName v)) searchTerm \<or>
        str_includes (toLowerCase (tv_validatorIdentity v)) searchTerm \<or>
        str_includes (case tv_stakeAccount v of Some a \<Rightarrow> toLowerCase a | None \<Rightarrow> []) searchTerm) topVoters)"

definition supporters_filteredData :: "jsstr \<Rightarrow> top_supporter list \<Rightarrow> top_supporter list" where
  "supporters_filteredData searchValue supporters =
     (let searchTerm = toLowerCase (trim searchValue) in
      if length searchTerm = 0 then supporters
      else filter (\<lambda>v. str_includes (toLowerCase (ts_validatorName v)) searchTerm \<or>
        str_includes (toLowerCase (ts_validatorIdentity v)) searchTerm) supporters)"

section \<open>Properties of the list\<close>

lemma status_string_lower [simp]: "toLowerCase (status_string x) = status_string x"
  by (cases x) (simp_all add: toLowerCase_def lower_unit_def js_str is_upper_def)

lemma list_passes_iff:
  "list_passes f q p \<longleftrightarrow> (fs_status f = js ''all'' \<or> status_string (rec_status p) = fs_status f) \<and>
     (q = [] \<or> str_includes (toLowerCase (rec_title p)) (toLowerCase q))"
  unfolding list_passes_def status_string_lower by auto

definition filters_ok :: "filter_state \<Rightarrow> bool" where
  "filters_ok f \<longleftrightarrow> fs_status f \<in> set status_options \<and> fs_lifecycle f \<in> set lifecycle_options \<and>
     fs_timeWindow f \<in> set timeWindow_options \<and> fs_minimumSOL f \<noteq> NaN"

lemma or_zero_not_NaN [simp]: "or_zero x \<noteq> NaN"
  by (auto simp: or_zero_def truthy_def)

lemma list_step_ok:
  assumes "filters_ok (li_filterState s)" "\<forall>f. li_draft s = Some f \<longrightarrow> filters_ok f"
  shows "filters_ok (li_filterState (list_step s a))" "\<forall>f. li_draft (list_step s a) = Some f \<longrightarrow> filters_ok f"
  using assms
  by (cases a; auto simp: edit_draft_def filter_handleApply_def filter_handleClose_def filter_handleReset_def filters_ok_def
      split: option.splits)+

lemma list_run_ok:
  assumes "filters_ok (li_filterState s)" "\<forall>f. li_draft s = Some f \<longrightarrow> filters_ok f"
  shows "filters_ok (li_filterState (foldl list_step s as))"
  using assms
proof (induction as arbitrary: s)
  case (Cons a as)
  show ?case using Cons.IH [OF list_step_ok [OF Cons.prems]] by simp
qed simp

lemma default_ok: "filters_ok (li_filterState list_init)" "li_draft list_init = None"
  by (simp_all add: filters_ok_def list_init_def defaultFilters_def status_options_def lifecycle_options_def timeWindow_options_def)

text \<open>What the filters of the proposal list do.  After any interaction the applied filters are choices
  of the dialog.  Of the four choices for the status, \<open>all\<close> and \<open>finalized\<close> show what they say; \<open>active\<close> and
  \<open>finalizing\<close> are statuses no proposal has, so the list becomes empty.  The other three filters and
  the eligibility switch change nothing but the badge that counts them, and resetting the dialog
  leaves the applied filters as they were.\<close>

theorem proposal_filter_gaps:
  assumes "s = foldl list_step list_init acts" "f = li_filterState s" "shown_list = filteredProposals f (li_searchQuery s) ps"
  shows "filters_ok f \<and> (fs_status f = js ''active'' \<or> fs_status f = js ''finalizing'' \<longrightarrow> shown_list = []) \<and>
    (li_searchQuery s = [] \<longrightarrow>
      (fs_status f = js ''finalized'' \<longrightarrow> shown_list = filter (\<lambda>p. rec_status p = Finalized) ps) \<and>
      (fs_status f = js ''all'' \<longrightarrow> shown_list = ps)) \<and>
    shown_list = filteredProposals (f\<lparr>fs_onlyEligible := e, fs_lifecycle := lc, fs_timeWindow := w, fs_minimumSOL := m\<rparr>) (li_searchQuery s) ps \<and>
    li_filterState (list_step s ResetFilters) = f"
proof (intro conjI impI)
  show "filters_ok f" using list_run_ok [of list_init acts] default_ok assms by simp
  show "shown_list = []" if "fs_status f = js ''active'' \<or> fs_status f = js ''finalizing''"
    unfolding assms(3) filteredProposals_def filter_empty_conv
  proof
    fix p show "\<not> list_passes f (li_searchQuery s) p" using that by (cases "rec_status p") (auto simp: list_passes_iff)
  qed
  have fin: "list_passes f [] p \<longleftrightarrow> rec_status p = Finalized" if "fs_status f = js ''finalized''" for p
    using that by (cases "rec_status p") (auto simp: list_passes_iff)
  show "li_searchQuery s = [] \<Longrightarrow> fs_status f = js ''finalized'' \<Longrightarrow> shown_list = filter (\<lambda>p. rec_status p = Finalized) ps"
    unfolding assms(3) filteredProposals_def by (intro filter_cong) (simp_all add: fin)
  show "li_searchQuery s = [] \<Longrightarrow> fs_status f = js ''all'' \<Longrightarrow> shown_list = ps"
    by (simp add: assms(3) filteredProposals_def list_passes_def)
  have "list_passes (f\<lparr>fs_onlyEligible := e, fs_lifecycle := lc, fs_timeWindow := w, fs_minimumSOL := m\<rparr>) = list_passes f"
    by (intro ext) (simp add: list_passes_def)
  then show "shown_list = filteredProposals (f\<lparr>fs_onlyEligible := e, fs_lifecycle := lc, fs_timeWindow := w, fs_minimumSOL := m\<rparr>) (li_searchQuery s) ps"
    by (simp add: assms(3) filteredProposals_def)
  show "li_filterState (list_step s ResetFilters) = f" by (simp add: assms(2) filter_handleReset_def)
qed

theorem proposal_filter_gaps_witness:
  "let s = foldl list_step list_init [OpenFilters, DraftStatus (js ''active''), ApplyFilters] in
   fs_status (li_filterState s) = js ''active'' \<and> countActiveFilters (li_filterState s) = 1 \<and>
   (\<forall>ps. filteredProposals (li_filterState s) (li_searchQuery s) ps = [])"
proof -
  define s where "s = foldl list_step list_init [OpenFilters, DraftStatus (js ''active''), ApplyFilters]"
  have "fs_status (li_filterState s) = js ''active''" "countActiveFilters (li_filterState s) = 1"
    by (simp_all add: s_def list_init_def defaultFilters_def edit_draft_def filter_handleApply_def status_options_def countActiveFilters_def)
  then show ?thesis using proposal_filter_gaps [OF s_def refl refl] unfolding Let_def s_def [symmetric] by simp
qed

section \<open>Rows of the table\<close>

definition toggles :: "jsstr \<Rightarrow> ('s, 'f) table_action list \<Rightarrow> nat" where
  "toggles r as = length (filter (\<lambda>a. a = RowToggle r) as)"

abbreviation row_open :: "('s, 'f) table_view \<Rightarrow> jsstr \<Rightarrow> bool" where
  "row_open v r \<equiv> getIsExpanded (tb_expanded v) r"

lemma table_step_open:
  assumes "tb_hasAppliedDefault v" "a \<noteq> TableReset"
  shows "tb_hasAppliedDefault (snd (table_step env sfv (d, v) a))"
    "row_open (snd (table_step env sfv (d, v) a)) r = (row_open v r \<noteq> (a = RowToggle r))"
  using assms by (cases a; auto simp: default_expansion_def table_handleRowToggle_def getIsExpanded_def after_status_def status_filter_effect_def)+

lemma table_run_open:
  assumes "tb_hasAppliedDefault v" "TableReset \<notin> set as"
  shows "row_open (snd (table_run env sfv (d, v) as)) r = (row_open v r \<noteq> odd (toggles r as))"
  using assms
proof (induction as arbitrary: d v)
  case (Cons a as)
  obtain d' v' where s: "table_step env sfv (d, v) a = (d', v')" by fastforce
  have "tb_hasAppliedDefault v'" "row_open v' r = (row_open v r \<noteq> (a = RowToggle r))"
    using table_step_open [of v a env sfv d] Cons.prems s by auto
  then show ?case using Cons.IH [of v' d'] Cons.prems s by (auto simp: table_run_def toggles_def)
qed (simp add: table_run_def toggles_def)

text \<open>Rows of the table open and close only as the visitor asks.  When the first proposals arrive, the
  first of them is opened; from then on, until a reset, a row is open exactly if that start and the
  number of times it was toggled say so, whatever data arrives again and whatever is filtered,
  sorted or paged meanwhile.  A reset leaves only the first row open.\<close>

theorem rows_follow_visitor:
  fixes v :: "('s, 'f) table_view"
  assumes "ps \<noteq> []" "TableReset \<notin> set as"
    and "table_run env sfv ([], table_mount) (DataArrives [] # DataArrives ps # as) = (d, v)"
  shows "row_open v r = ((r = toBase58 env (rec_publicKey (hd ps))) \<noteq> odd (toggles r as)) \<and>
    (d \<noteq> [] \<longrightarrow> row_open (snd (table_step env sfv (d, v) TableReset)) r = (r = toBase58 env (rec_publicKey (hd d))))"
proof -
  obtain p rest where ps: "ps = p # rest" using assms(1) by (cases ps) auto
  define v0 :: "('s, 'f) table_view" where "v0 = default_expansion env ps table_mount"
  have "tb_hasAppliedDefault v0" "row_open v0 r = (r = toBase58 env (rec_publicKey p))"
    by (simp_all add: v0_def ps default_expansion_def table_mount_def getDefaultExpanded_def getIsExpanded_def)
  moreover have "snd (table_run env sfv (ps, v0) as) = v"
    using assms(3) by (simp add: table_run_def v0_def default_expansion_def [of env "[]"])
  ultimately have "row_open v r = ((r = toBase58 env (rec_publicKey (hd ps))) \<noteq> odd (toggles r as))"
    using table_run_open [of v0 as env sfv ps r] assms(2) ps by simp
  moreover have "row_open (snd (table_step env sfv (d, v) TableReset)) r = (r = toBase58 env (rec_publicKey (hd d)))" if "d \<noteq> []"
    using that by (cases d) (auto simp: after_status_def status_filter_effect_def table_handleReset_def getDefaultExpanded_def getIsExpanded_def)
  ultimately show ?thesis by blast
qed

text \<open>A proposal in support, for examples.\<close>

definition sample_listed :: "string \<Rightarrow> proposal_record" where
  "sample_listed key =
     \<lparr>rec_publicKey = PublicKey (js key), rec_id = js key, rec_proposalRef = None, rec_title = js key, rec_description = [],
      rec_author = js ''author'', rec_creationEpoch = inum 800, rec_startEpoch = inum 804, rec_endEpoch = inum 807,
      rec_creationTimestamp = inum 0, rec_clusterSupportLamports = inum 20, rec_forVotesLamports = inum 30,
      rec_againstVotesLamports = inum 4, rec_abstainVotesLamports = inum 1, rec_voteCount = inum 2, rec_proposerStakeWeightBp = inum 1,
      rec_status = Voting, rec_voting = True, rec_finalized = False, rec_consensusResult = Some (PublicKey [1]),
      rec_snapshotSlot = inum 5000, rec_proposalBump = inum 255, rec_index = inum 0, rec_voteState = Voting, rec_lastUpdated = []\<rparr>"

theorem rows_follow_visitor_witness:
  "\<exists>d v. table_run (http_env answer_404) (\<lambda>_ fs. fs) ([], table_mount :: (nat, nat) table_view)
      [DataArrives [], DataArrives [sample_listed ''a'', sample_listed ''b''], RowToggle (js ''a''), RowToggle (js ''b''),
       DataArrives [sample_listed ''a'', sample_listed ''b'']] = (d, v) \<and>
     \<not> row_open v (js ''a'') \<and> row_open v (js ''b'')"
proof -
  define acts :: "(nat, nat) table_action list" where
    "acts = [RowToggle (js ''a''), RowToggle (js ''b''), DataArrives [sample_listed ''a'', sample_listed ''b'']]"
  have ts: "toggles (js ''a'') acts = 1" "toggles (js ''b'') acts = 1" "TableReset \<notin> set acts"
    by (simp_all add: toggles_def acts_def)
  obtain d v where run: "table_run (http_env answer_404) (\<lambda>_ fs. fs) ([], table_mount :: (nat, nat) table_view)
      (DataArrives [] # DataArrives [sample_listed ''a'', sample_listed ''b''] # acts) = (d, v)" by fastforce
  have key: "toBase58 (http_env answer_404) (rec_publicKey (sample_listed ''a'')) = js ''a''"
    by (simp add: http_env_def sample_listed_def)
  have "\<not> row_open v (js ''a'')" "row_open v (js ''b'')"
    using rows_follow_visitor [OF _ ts(3) run, of "js ''a''"] rows_follow_visitor [OF _ ts(3) run, of "js ''b''"] ts key by simp_all
  then show ?thesis using run unfolding acts_def by blast
qed

section \<open>One quorum on every page\<close>


definition sample_meta :: network_meta where
  "sample_meta = \<lparr>nm_network = js ''mainnet'', nm_slot = Some (inum 5000), nm_merkle_root = [], nm_snapshot_hash = [], nm_created_at = [],
     nm_total_active_stake = Some (inum 100)\<rparr>"


section \<open>The countdown runs to the next phase\<close>

text \<open>A listed proposal shows a lifecycle: its epochs are those of the account and its status is the one of
  the lifecycle at the current epoch.\<close>

definition shows_lifecycle :: "governance_config_dto \<Rightarrow> lifecycle \<Rightarrow> int \<Rightarrow> proposal_record \<Rightarrow> bool" where
  "shows_lifecycle c l e p \<longleftrightarrow>
     epochConstantsFromGovernanceConfig c = epoch_ints l \<and> rec_creationEpoch p = inum (lc_creation l) \<and>
     rec_startEpoch p = inum (lc_start l) \<and> rec_endEpoch p = inum (lc_end l) \<and> rec_voting p = lc_voting l \<and>
     rec_status p = status_spec l e"

text \<open>A scheduled vote has its epochs and its consensus result; before that there is no end epoch.\<close>

definition scheduled_ok :: "lifecycle \<Rightarrow> bool" where
  "scheduled_ok l \<longleftrightarrow> \<not> lc_finalized l \<and>
     (if lc_voting l then 0 < lc_start l \<and> lc_start l < lc_end l \<and> lc_consensus l \<noteq> None else lc_end l = 0)"

lemma anchored_phases:
  assumes "epochs_ok l"
  shows "supportEndEpoch (getProposalPhaseEpochs (inum (lc_creation l)) (epoch_ints l) (Some a)) = inum (support_end l)"
    and "pa_voting a \<Longrightarrow> Num 0 < pa_startEpoch a \<Longrightarrow>
      discussionEndEpoch (getProposalPhaseEpochs (inum (lc_creation l)) (epoch_ints l) (Some a)) = pa_startEpoch a"
proof -
  have "supportEndEpoch (getProposalPhaseEpochs (inum (lc_creation l)) (epoch_ints l) (Some a)) =
      supportEndEpoch (getProposalPhaseEpochs (inum (lc_creation l)) (epoch_ints l) None)"
    by (simp add: getProposalPhaseEpochs_def Let_def)
  then show "supportEndEpoch (getProposalPhaseEpochs (inum (lc_creation l)) (epoch_ints l) (Some a)) = inum (support_end l)"
    using phase_epochs_int [OF assms] by (simp add: inum_def)
qed (simp add: getProposalPhaseEpochs_def Let_def)



section \<open>The carousel\<close>

definition index_ok :: "proposal_status \<Rightarrow> carousel \<Rightarrow> bool" where
  "index_ok stage c \<longleftrightarrow> ca_prevStage c = stage \<and> 0 \<le> ca_activeIndex c \<and> ca_activeIndex c < int (length (carousel_cards stage))"

text \<open>The index of the carousel always names a card, and a change of the stage brings up the card of the
  new stage, which is not marked as ended before its date has passed.\<close>

lemma carousel_index:
  shows "index_ok stage (carousel_mount stage)" and "index_ok stage c \<Longrightarrow> index_ok stage' (carousel_render stage' c)"
    and "index_ok stage c \<Longrightarrow> index_ok stage (goTo stage i c)" and "index_ok stage c \<Longrightarrow> index_ok stage (handleDragEnd stage x c)"
proof -
  show goto: "index_ok stage c \<Longrightarrow> index_ok stage (goTo stage i c)" for i
    by (auto simp: index_ok_def goTo_def Let_def carousel_cards_def)
  then show "index_ok stage c \<Longrightarrow> index_ok stage (handleDragEnd stage x c)" by (auto simp: handleDragEnd_def)
qed (auto simp: index_ok_def carousel_mount_def carousel_render_def getInitialIndex_def carousel_cards_def)

lemma carousel_follows_stage:
  assumes "index_ok stage c" "stage' \<noteq> stage" "stage' = Supporting \<or> stage' = Discussion"
  shows "currentCard stage' (carousel_render stage' c) = (if stage' = Supporting then SupportCard else DiscussionCard)"
    and "isCardEnded stage' False False (currentCard stage' (carousel_render stage' c)) = False"
proof -
  show "currentCard stage' (carousel_render stage' c) = (if stage' = Supporting then SupportCard else DiscussionCard)"
    using assms by (auto simp: index_ok_def carousel_render_def currentCard_def getInitialIndex_def carousel_cards_def Let_def)
  then show "isCardEnded stage' False False (currentCard stage' (carousel_render stage' c)) = False"
    using assms(3) by (auto simp: isCardEnded_def)
qed

end
