(* ===== verification/Validator_Tables.thy ===== *)
theory Validator_Tables
  imports Formatting "HOL-Library.AList"
begin

text \<open>
  Tables that join votes with validators: the accounts of the validator dashboard
  (\<open>hooks/useVoteAccountsWithValidators.ts\<close>), the table of validators with their voter splits
  (\<open>hooks/useGetValidatorsTable.ts\<close>) and its view with search, pages and export
  (\<open>components/TopVoters.tsx\<close>).  An object used as a dictionary is an association list in the order in
  which its keys were added.
\<close>

section \<open>Votes with their validators\<close>

record vote_validator_entry =
  ve_votePDA :: jsstr
  ve_voteAccount :: old_vote_account_data
  ve_validator :: "validator option"

record vote_join =
  vj_voteMap :: "(jsstr \<times> vote_validator_entry) list"
  vj_validatorMap :: "(jsstr \<times> vote_validator_entry list) list"

definition join_entry :: "chain_env \<Rightarrow> validator list \<Rightarrow> old_vote_account_data \<Rightarrow> vote_validator_entry" where
  "join_entry env validators vote =
     (case List.find (\<lambda>v. map_option (toBase58 env) (ova_identity vote) = Some (val_vote_identity v)) validators of
        Some v \<Rightarrow> \<lparr>ve_votePDA = toBase58 env (ova_voteAccount vote),
          ve_voteAccount = vote\<lparr>ova_identity := None, ova_name := Some (val_name v), ova_credits := val_credits v,
            ova_lastVote := val_last_vote v, ova_activeStake := val_activated_stake v, ova_epochCredits := val_epoch_credits v\<rparr>,
          ve_validator = Some v\<rparr>
      | None \<Rightarrow> \<lparr>ve_votePDA = toBase58 env (ova_voteAccount vote), ve_voteAccount = vote, ve_validator = None\<rparr>)"

definition push_entry :: "jsstr \<Rightarrow> 'e \<Rightarrow> (jsstr \<times> 'e list) list \<Rightarrow> (jsstr \<times> 'e list) list" where
  "push_entry k e m = AList.update k ((case map_of m k of Some es \<Rightarrow> es | None \<Rightarrow> []) @ [e]) m"

definition join_vote :: "chain_env \<Rightarrow> validator list \<Rightarrow> vote_join \<Rightarrow> old_vote_account_data \<Rightarrow> vote_join" where
  "join_vote env validators j vote =
     (let entry = join_entry env validators vote; votePk = toBase58 env (ova_voteAccount vote) in
      \<lparr>vj_voteMap = AList.update votePk entry (vj_voteMap j),
       vj_validatorMap = (case ve_validator entry of
          Some v \<Rightarrow> push_entry (val_vote_identity v) entry (vj_validatorMap j)
        | None \<Rightarrow> vj_validatorMap j)\<rparr>)"

definition useVoteAccountsWithValidators ::
  "chain_env \<Rightarrow> validator list option \<Rightarrow> old_vote_account_data list option \<Rightarrow> js_error + vote_join" where
  "useVoteAccountsWithValidators env validators votes =
     (case validators of
        None \<Rightarrow> Inl (JsError (js ''Unable to get validators info''))
      | Some vs \<Rightarrow>
          case votes of
            None \<Rightarrow> Inl (JsError (js ''Unable to get votes info''))
          | Some ws \<Rightarrow>
              if length vs = 0 then Inl (JsError (js ''No validators found''))
              else if length ws = 0 then Inl (JsError (js ''No votes found''))
              else Inr (foldl (join_vote env vs) \<lparr>vj_voteMap = [], vj_validatorMap = []\<rparr> ws))"

definition vote_table_data :: "vote_join option \<Rightarrow> old_vote_account_data list" where
  "vote_table_data j = map ve_voteAccount (case j of Some x \<Rightarrow> map snd (vj_voteMap x) | None \<Rightarrow> [])"

section \<open>The table of validators\<close>

datatype sort_by = SortWeight | SortName | SortPercentage | SortDate

record validators_row =
  vr_validator :: validator
  vr_yes :: shown
  vr_no :: shown
  vr_abstain :: shown
  vr_undecided :: shown
  vr_percentage :: number
  vr_voteDate :: jsstr

definition split_shown :: "(vote_split \<Rightarrow> number) \<Rightarrow> vote_split option \<Rightarrow> shown" where
  "split_shown field s = (case s of Some x \<Rightarrow> ShownNumber (field x) | None \<Rightarrow> ShownText (js ''-''))"

definition row_sort_key :: "sort_by \<Rightarrow> validators_row \<Rightarrow> number" where
  "row_sort_key sortBy r =
     (case sortBy of SortWeight \<Rightarrow> val_activated_stake (vr_validator r)
      | SortName \<Rightarrow> string_to_number (val_name (vr_validator r))
      | SortPercentage \<Rightarrow> vr_percentage r
      | SortDate \<Rightarrow> string_to_number (vr_voteDate r))"

definition validators_row_of ::
  "(number \<Rightarrow> jsstr) \<Rightarrow> number \<Rightarrow> (jsstr \<Rightarrow> vote_split option) \<Rightarrow> (jsstr \<Rightarrow> number option) \<Rightarrow> validator \<Rightarrow> validators_row" where
  "validators_row_of localeDate totalStake splits latest v =
     (let s = splits (val_vote_identity v) in
      \<lparr>vr_validator = v, vr_yes = split_shown sp_yes s, vr_no = split_shown sp_no s, vr_abstain = split_shown sp_abstain s,
       vr_undecided = split_shown sp_undecided s,
       vr_percentage = roundDecimals (number_to_string (val_activated_stake v * Num 100 / totalStake)),
       vr_voteDate = (case latest (val_vote_identity v) of
          Some t \<Rightarrow> if truthy t then localeDate t else js ''-'' | None \<Rightarrow> js ''-'')\<rparr>)"

definition useGetValidatorsTable ::
  "(number \<Rightarrow> jsstr) \<Rightarrow> sort_by \<Rightarrow> validator list option \<Rightarrow> (jsstr \<Rightarrow> vote_split option) \<Rightarrow> (jsstr \<Rightarrow> number option) \<Rightarrow>
   validators_row list option" where
  "useGetValidatorsTable localeDate sortBy validators splits latest =
     map_option (\<lambda>vs.
       let totalStake = foldl (\<lambda>acc v. acc + val_activated_stake v) (Num 0) vs in
       js_sort (\<lambda>a b. row_sort_key sortBy b - row_sort_key sortBy a)
         (map (validators_row_of localeDate totalStake splits latest) vs)) validators"

section \<open>The view of the table\<close>

record top_voters =
  tp_searchQuery :: jsstr
  tp_currentPage :: int
  tp_itemsPerPage :: int
  tp_sortBy :: sort_by

definition top_voters_init :: top_voters where
  "top_voters_init = \<lparr>tp_searchQuery = [], tp_currentPage = 1, tp_itemsPerPage = 10, tp_sortBy = SortWeight\<rparr>"

definition searchedData :: "top_voters \<Rightarrow> validators_row list \<Rightarrow> validators_row list" where
  "searchedData s rows = filter (\<lambda>r. str_includes (toLowerCase (val_name (vr_validator r))) (toLowerCase (tp_searchQuery s))) rows"

definition page_slice :: "int \<Rightarrow> int \<Rightarrow> 'a list \<Rightarrow> 'a list" where
  "page_slice page perPage xs = take (nat perPage) (drop (nat ((page - 1) * perPage)) xs)"

definition page_total :: "int \<Rightarrow> nat \<Rightarrow> int" where
  "page_total perPage n = \<lceil>of_nat n / (of_int perPage :: rat)\<rceil>"

definition top_voters_rows :: "top_voters \<Rightarrow> validators_row list \<Rightarrow> validators_row list" where
  "top_voters_rows s rows = page_slice (tp_currentPage s) (tp_itemsPerPage s) (searchedData s rows)"

definition top_voters_pages :: "top_voters \<Rightarrow> validators_row list \<Rightarrow> int" where
  "top_voters_pages s rows = page_total (tp_itemsPerPage s) (length (searchedData s rows))"

datatype view_action = SearchFor jsstr | PrevPage | NextPage | GoToPage int | PerPage int | SortRows sort_by

fun top_voters_step :: "validators_row list \<Rightarrow> top_voters \<Rightarrow> view_action \<Rightarrow> top_voters" where
  "top_voters_step rows s (SearchFor q) = s\<lparr>tp_searchQuery := q\<rparr>"
| "top_voters_step rows s PrevPage = (if tp_currentPage s = 1 then s else s\<lparr>tp_currentPage := max 1 (tp_currentPage s - 1)\<rparr>)"
| "top_voters_step rows s NextPage =
     (if tp_currentPage s = top_voters_pages s rows then s
      else s\<lparr>tp_currentPage := min (top_voters_pages s rows) (tp_currentPage s + 1)\<rparr>)"
| "top_voters_step rows s (GoToPage p) = s\<lparr>tp_currentPage := p\<rparr>"
| "top_voters_step rows s (PerPage n) = (if n \<in> {5, 10, 20, 50} then s\<lparr>tp_itemsPerPage := n\<rparr> else s)"
| "top_voters_step rows s (SortRows b) = s\<lparr>tp_sortBy := b\<rparr>"

definition top_voters_range :: "int \<Rightarrow> int \<Rightarrow> page_item list" where
  "top_voters_range currentPage totalPages =
     (let left = max 2 (currentPage - 2); right = min (totalPages - 1) (currentPage + 2) in
      [Page 1] @ (if 2 < left then [Dots] else []) @ map Page [left..right] @
      (if right < totalPages - 1 then [Dots] else []) @ (if 1 < totalPages then [Page totalPages] else []))"

section \<open>The export\<close>

definition csv_headers :: "jsstr list" where
  "csv_headers = map js [''name'', ''activated_stake'', ''yes'', ''no'', ''abstain'', ''undecided'', ''percentage'', ''voteDate'']"

definition csv_values :: "validators_row \<Rightarrow> shown list" where
  "csv_values r = [ShownText (val_name (vr_validator r)), ShownNumber (val_activated_stake (vr_validator r)), vr_yes r, vr_no r,
     vr_abstain r, vr_undecided r, ShownNumber (vr_percentage r), ShownText (vr_voteDate r)]"

definition double_quotes :: "jsstr \<Rightarrow> jsstr" where
  "double_quotes s = concat (map (\<lambda>c. if c = 34 then [34, 34] else [c]) s)"

fun csv_field :: "shown \<Rightarrow> jsstr" where
  "csv_field (ShownText s) = 34 # double_quotes s @ [34]"
| "csv_field (ShownNumber x) = number_to_string x"

definition csv_content :: "validators_row list \<Rightarrow> jsstr option" where
  "csv_content rows =
     (if rows = [] then None
      else Some (join [10] (join [44] csv_headers # map (\<lambda>r. join [44] (map csv_field (csv_values r))) rows)))"

section \<open>The join is exact\<close>

lemma update_fresh: "k \<notin> fst ` set m \<Longrightarrow> AList.update k v m = m @ [(k, v)]"
  by (induction m) auto

lemma push_entry_lookup:
  "map_of (push_entry k e m) k' =
     (if k' = k then Some ((case map_of m k of Some es \<Rightarrow> es | None \<Rightarrow> []) @ [e]) else map_of m k')"
  by (simp add: push_entry_def update_conv')

text \<open>The entries of a validator among the entries of all votes.\<close>

definition entries_of :: "jsstr \<Rightarrow> vote_validator_entry list \<Rightarrow> vote_validator_entry list" where
  "entries_of k es = filter (\<lambda>e. map_option val_vote_identity (ve_validator e) = Some k) es"

lemma join_votes:
  assumes "distinct (map (toBase58 env \<circ> ova_voteAccount) ws)"
    and "\<forall>w\<in>set ws. toBase58 env (ova_voteAccount w) \<notin> fst ` set (vj_voteMap j)"
  shows "vj_voteMap (foldl (join_vote env vs) j ws) =
      vj_voteMap j @ map (\<lambda>w. (toBase58 env (ova_voteAccount w), join_entry env vs w)) ws \<and>
    map_of (vj_validatorMap (foldl (join_vote env vs) j ws)) k =
      (let es = entries_of k (map (join_entry env vs) ws) in
       if es = [] then map_of (vj_validatorMap j) k
       else Some ((case map_of (vj_validatorMap j) k of Some old \<Rightarrow> old | None \<Rightarrow> []) @ es))"
  using assms
proof (induction ws arbitrary: j)
  case (Cons w ws)
  let ?j = "join_vote env vs j w"
  have fresh: "vj_voteMap ?j = vj_voteMap j @ [(toBase58 env (ova_voteAccount w), join_entry env vs w)]"
    using Cons.prems(2) by (simp add: join_vote_def Let_def update_fresh)
  have ok: "distinct (map (toBase58 env \<circ> ova_voteAccount) ws)" "\<forall>w\<in>set ws. toBase58 env (ova_voteAccount w) \<notin> fst ` set (vj_voteMap ?j)"
    using Cons.prems by (auto simp: fresh comp_def image_iff)
  have vm: "map_of (vj_validatorMap ?j) k = (if map_option val_vote_identity (ve_validator (join_entry env vs w)) = Some k
      then Some ((case map_of (vj_validatorMap j) k of Some es \<Rightarrow> es | None \<Rightarrow> []) @ [join_entry env vs w]) else map_of (vj_validatorMap j) k)"
    by (auto simp: join_vote_def Let_def push_entry_lookup split: option.splits)
  show ?case using Cons.IH [OF ok] fresh vm by (auto simp: Let_def entries_of_def)
qed (simp_all add: entries_of_def Let_def)


section \<open>The order of the table\<close>

lemma js_sort_same: "\<forall>x\<in>set xs. \<forall>y\<in>set xs. \<not> Num 0 < cmp x y \<Longrightarrow> js_sort cmp xs = xs"
proof (induction xs)
  case (Cons x xs)
  then have "js_sort cmp xs = xs" by simp
  then show ?case using Cons.prems by (cases xs) (auto simp: js_sort_def)
qed (simp add: js_sort_def)

lemma less_NaN [simp]: "\<not> Num 0 < x - NaN" "\<not> Num 0 < NaN - x"
  by (cases x; simp add: minus_number_def)+

text \<open>The table of validators has one row per validator.  By weight, with stakes that are integers, the
  rows are in descending order of stake and validators of equal stake keep their order.  By name,
  when no name reads as a number, the order asked for never happens: the rows stay as the
  validators came.\<close>

theorem validators_table_order:
  assumes "useGetValidatorsTable localeDate sortBy (Some vs) splits latest = Some rows"
  shows "mset (map vr_validator rows) = mset vs \<and>
    (sortBy = SortWeight \<and> (\<forall>v\<in>set vs. \<exists>n. val_activated_stake v = inum n) \<longrightarrow>
       sorted_wrt (\<lambda>a b. val_activated_stake (vr_validator b) \<le> val_activated_stake (vr_validator a)) rows \<and>
       (\<forall>n. filter (\<lambda>r. val_activated_stake (vr_validator r) = inum n) rows =
            filter (\<lambda>r. val_activated_stake (vr_validator r) = inum n)
              (map (validators_row_of localeDate (foldl (\<lambda>acc v. acc + val_activated_stake v) (Num 0) vs) splits latest) vs))) \<and>
    (sortBy = SortName \<and> (\<forall>v\<in>set vs. string_to_number (val_name v) = NaN) \<longrightarrow> map vr_validator rows = vs)"
proof -
  let ?rows = "map (validators_row_of localeDate (foldl (\<lambda>acc v. acc + val_activated_stake v) (Num 0) vs) splits latest) vs"
  have rows: "rows = js_sort (\<lambda>a b. row_sort_key sortBy b - row_sort_key sortBy a) ?rows"
    using assms by (simp add: useGetValidatorsTable_def Let_def)
  have of_row: "vr_validator (validators_row_of localeDate t splits latest v) = v" for t v
    by (simp add: validators_row_of_def Let_def)
  have map: "map vr_validator ?rows = vs" by (simp add: comp_def of_row)
  have "mset (map vr_validator rows) = mset (map vr_validator ?rows)" unfolding rows mset_map by simp
  then have perm: "mset (map vr_validator rows) = mset vs" unfolding map .
  define stake :: "validators_row \<Rightarrow> int" where "stake r = num_int (val_activated_stake (vr_validator r))" for r
  have weight: "sorted_wrt (\<lambda>a b. val_activated_stake (vr_validator b) \<le> val_activated_stake (vr_validator a)) rows \<and>
      (\<forall>n. filter (\<lambda>r. val_activated_stake (vr_validator r) = inum n) rows = filter (\<lambda>r. val_activated_stake (vr_validator r) = inum n) ?rows)"
    if w: "sortBy = SortWeight" "\<forall>v\<in>set vs. \<exists>n. val_activated_stake v = inum n"
  proof -
    have st: "val_activated_stake (vr_validator r) = inum (stake r)" if "r \<in> set ?rows" for r
      using that w(2) by (auto simp: stake_def of_row)
    then have "descending_by stake (\<lambda>a b. row_sort_key sortBy b - row_sort_key sortBy a) (set ?rows)"
      by (auto simp only: descending_by_def row_sort_key_def w(1) sort_by.case st inum_diff_pos)
    from js_sort_sorted [OF this] js_sort_stable [OF this] have
      sorted: "sorted_wrt (\<lambda>a b. stake b \<le> stake a) rows" and stable: "\<And>n. filter (\<lambda>r. stake r = n) rows = filter (\<lambda>r. stake r = n) ?rows"
      unfolding rows by blast+
    have "set rows = set ?rows" unfolding rows by (rule set_js_sort)
    then have "val_activated_stake (vr_validator r) = inum (stake r)" if "r \<in> set rows \<union> set ?rows" for r
      using st that by blast
    then have "filter (\<lambda>r. val_activated_stake (vr_validator r) = inum n) xs = filter (\<lambda>r. stake r = n) xs"
      if "set xs \<subseteq> set rows \<union> set ?rows" for n xs
      using that by (intro filter_cong) (auto simp: inum_def)
    then show ?thesis using sorted stable st \<open>set rows = set ?rows\<close>
      by (auto intro!: sorted_wrt_mono_rel [OF _ sorted] simp: inum_def)
  qed
  have "map vr_validator rows = vs" if "sortBy = SortName" "\<forall>v\<in>set vs. string_to_number (val_name v) = NaN"
  proof -
    have "rows = ?rows" unfolding rows
      by (rule js_sort_same) (use that in \<open>auto simp: row_sort_key_def of_row\<close>)
    then show ?thesis using map by simp
  qed
  with perm weight show ?thesis by blast
qed

definition plain_validator :: "string \<Rightarrow> int \<Rightarrow> validator" where
  "plain_validator name stake = (unknown_validator 1 (sample_rpc_account name stake))\<lparr>val_name := js name\<rparr>"

definition joined_votes :: "old_vote_account_data list" where
  "joined_votes = map mapVoteAccountDto (ca_votes sample_chain_accounts)"


theorem validators_table_order_witness:
  "\<exists>rows. useGetValidatorsTable (\<lambda>_. []) SortWeight (Some [plain_validator ''b'' 1, plain_validator ''a'' 2]) Map.empty Map.empty = Some rows \<and>
     sorted_wrt (\<lambda>a b. val_activated_stake (vr_validator b) \<le> val_activated_stake (vr_validator a)) rows"
proof -
  obtain rows where rows: "useGetValidatorsTable (\<lambda>_. []) SortWeight (Some [plain_validator ''b'' 1, plain_validator ''a'' 2]) Map.empty Map.empty = Some rows"
    by (simp add: useGetValidatorsTable_def)
  have "\<forall>v\<in>set [plain_validator ''b'' 1, plain_validator ''a'' 2]. \<exists>n. val_activated_stake v = inum n"
    by (auto simp: plain_validator_def unknown_validator_def sample_rpc_account_def)
  then show ?thesis using validators_table_order [OF rows] rows by blast
qed

section \<open>Pages\<close>

lemma page_total_bounds:
  assumes "0 < n"
  shows "of_nat k \<le> page_total n k * n" "0 \<le> page_total n k" "p \<le> page_total n k \<longleftrightarrow> (p - 1) * n < int k"
proof -
  let ?q = "of_nat k / (of_int n :: rat)"
  have "?q \<le> of_int (page_total n k)" unfolding page_total_def by simp
  then have "of_int (int k) \<le> (of_int (page_total n k * n) :: rat)" using assms by (simp add: field_simps)
  then show "of_nat k \<le> page_total n k * n" by (simp only: of_int_le_iff)
  show "0 \<le> page_total n k" using assms unfolding page_total_def by (simp add: less_le_trans [of _ 0])
  have "p \<le> page_total n k \<longleftrightarrow> of_int (p - 1) < ?q" unfolding page_total_def by (simp add: le_ceiling_iff)
  also have "\<dots> \<longleftrightarrow> of_int ((p - 1) * n) < (of_int (int k) :: rat)" using assms by (simp add: field_simps)
  finally show "p \<le> page_total n k \<longleftrightarrow> (p - 1) * n < int k" by (simp only: of_int_less_iff)
qed

lemma pages_prefix:
  assumes "0 < n"
  shows "concat (map (\<lambda>i. page_slice (int i + 1) n xs) [0..<k]) = take (k * nat n) xs"
proof (induction k)
  case (Suc k)
  have "nat (int k * n) = k * nat n" using assms by (simp add: nat_mult_distrib)
  then show ?case using Suc by (simp add: page_slice_def take_add add.commute [of "nat n"])
qed simp

text \<open>The pages of the table show every match once: with a positive number of rows per page, the pages
  from the first to the last one contain the matching rows in order, every one of them has a row,
  and a page beyond the last one is empty.  Typing a search or choosing another page size keeps
  the current page, so it can end up beyond the last one and show nothing although rows match.\<close>

theorem pages_cover_rows:
  assumes "0 < n"
  shows "concat (map (\<lambda>i. page_slice (int i + 1) n xs) [0..<nat (page_total n (length xs))]) = xs \<and>
    (\<forall>p\<ge>1. page_slice p n xs \<noteq> [] \<longleftrightarrow> p \<le> page_total n (length xs)) \<and>
    (tp_itemsPerPage s = n \<and> 1 \<le> tp_currentPage s \<and> top_voters_pages (top_voters_step rows s (SearchFor q)) rows < tp_currentPage s \<longrightarrow>
       top_voters_rows (top_voters_step rows s (SearchFor q)) rows = [])"
proof (intro conjI allI impI)
  have "int (length xs) \<le> page_total n (length xs) * n" "0 \<le> page_total n (length xs)" using page_total_bounds [OF assms] by simp_all
  then have "length xs \<le> nat (page_total n (length xs)) * nat n" using assms by (simp flip: nat_mult_distrib)
  then show "concat (map (\<lambda>i. page_slice (int i + 1) n xs) [0..<nat (page_total n (length xs))]) = xs"
    unfolding pages_prefix [OF assms] by simp
  have page: "page_slice p n ys \<noteq> [] \<longleftrightarrow> p \<le> page_total n (length ys)" if "1 \<le> p" for p :: int and ys :: "'z list"
  proof -
    have "0 \<le> (p - 1) * n" using assms that by simp
    then have "(page_slice p n ys \<noteq> []) \<longleftrightarrow> (p - 1) * n < int (length ys)" using assms by (auto simp: page_slice_def nat_less_iff)
    then show ?thesis using page_total_bounds(3) [OF assms] by simp
  qed
  show "page_slice p n xs \<noteq> [] \<longleftrightarrow> p \<le> page_total n (length xs)" if "p \<ge> 1" for p using page [OF that] .
  assume "tp_itemsPerPage s = n \<and> 1 \<le> tp_currentPage s \<and> top_voters_pages (top_voters_step rows s (SearchFor q)) rows < tp_currentPage s"
  then show "top_voters_rows (top_voters_step rows s (SearchFor q)) rows = []"
    using page [of "tp_currentPage s" "searchedData (s\<lparr>tp_searchQuery := q\<rparr>) rows"]
    by (auto simp: top_voters_rows_def top_voters_pages_def)
qed

theorem pages_cover_rows_witness:
  "concat (map (\<lambda>i. page_slice (int i + 1) 5 [1..12]) [0..<nat (page_total 5 12)]) = [1..12] \<and>
   top_voters_rows (top_voters_step [] (top_voters_init\<lparr>tp_currentPage := 2, tp_itemsPerPage := 5\<rparr>) (SearchFor (js ''zz''))) [] = []"
proof -
  have "length [1..12] = 12" by simp
  moreover have "top_voters_pages (top_voters_step [] (top_voters_init\<lparr>tp_currentPage := 2, tp_itemsPerPage := 5\<rparr>) (SearchFor (js ''zz''))) [] < 2"
    by (simp add: top_voters_pages_def page_total_def searchedData_def)
  ultimately show ?thesis
    using pages_cover_rows [of 5 "[1..12]" "top_voters_init\<lparr>tp_currentPage := 2, tp_itemsPerPage := 5\<rparr>" "[]" "js ''zz''"]
    by (simp add: top_voters_init_def)
qed

section \<open>The export can be read back\<close>

text \<open>A reader of comma separated values: fields end at commas, records at line breaks; a field that starts
  with a quote ends at its closing quote, and two quotes inside it stand for one.\<close>

datatype csv_mode = FieldStart | Plain | Quoted | QuoteSeen

fun csv_read :: "csv_mode \<Rightarrow> jsstr \<Rightarrow> jsstr list \<Rightarrow> jsstr \<Rightarrow> jsstr list list" where
  "csv_read m f row [] = [row @ [f]]"
| "csv_read m f row (c # s) =
     (if m = Quoted then if c = 34 then csv_read QuoteSeen f row s else csv_read Quoted (f @ [c]) row s
      else if m = QuoteSeen \<and> c = 34 then csv_read Quoted (f @ [34]) row s
      else if m = FieldStart \<and> c = 34 then csv_read Quoted [] row s
      else if c = 44 then csv_read FieldStart [] (row @ [f]) s
      else if c = 10 then (row @ [f]) # csv_read FieldStart [] [] s
      else csv_read Plain (f @ [c]) row s)"

fun cell_text :: "shown \<Rightarrow> jsstr" where
  "cell_text (ShownText s) = s"
| "cell_text (ShownNumber x) = number_to_string x"

definition plain_chars :: "jsstr \<Rightarrow> bool" where
  "plain_chars s \<longleftrightarrow> 44 \<notin> set s \<and> 10 \<notin> set s \<and> 34 \<notin> set s"

lemma plain_dec: "plain_chars (dec n)"
  unfolding plain_chars_def using dec_digits [of 44 n] dec_digits [of 10 n] dec_digits [of 34 n] by (auto simp: is_digit_def)

lemma plain_layout: "plain_chars ds \<Longrightarrow> plain_chars (layout_digits ds n)"
  using plain_dec by (auto simp: layout_digits_def plain_chars_def Let_def dest: in_set_takeD in_set_dropD)

lemma plain_number: "plain_chars (number_to_string x)"
proof -
  have r: "plain_chars (rat_to_string r)" for r by (simp add: rat_to_string_def plain_layout plain_dec split: prod.splits)
  then show ?thesis by (cases x) (auto simp: plain_chars_def js_str)
qed

lemma read_plain:
  assumes "plain_chars s" "m \<noteq> Quoted" "m = QuoteSeen \<longrightarrow> s = []"
  shows "csv_read m f row (s @ rest) = csv_read (if s = [] then m else Plain) (f @ s) row rest"
  using assms by (induction s arbitrary: m f) (auto simp: plain_chars_def)

lemma read_quoted: "csv_read Quoted f row (double_quotes s @ 34 # rest) = csv_read QuoteSeen (f @ s) row rest"
  by (induction s arbitrary: f) (auto simp: double_quotes_def)

text \<open>A field is read up to the delimiter that follows it.\<close>

lemma read_field:
  "csv_read FieldStart [] row (csv_field x @ 44 # rest) = csv_read FieldStart [] (row @ [cell_text x]) rest"
  "csv_read FieldStart [] row (csv_field x @ 10 # rest) = (row @ [cell_text x]) # csv_read FieldStart [] [] rest"
  "csv_read FieldStart [] row (csv_field x) = [row @ [cell_text x]]"
proof -
  have "csv_read FieldStart [] row (csv_field x @ rest) =
      csv_read (case x of ShownText _ \<Rightarrow> QuoteSeen | ShownNumber y \<Rightarrow> if number_to_string y = [] then FieldStart else Plain) (cell_text x) row rest" for rest
    using read_quoted [of "[]"] read_plain [OF plain_number, of FieldStart] by (cases x) simp_all
  from this [of "44 # rest"] this [of "10 # rest"] this [of "[]"] show
    "csv_read FieldStart [] row (csv_field x @ 44 # rest) = csv_read FieldStart [] (row @ [cell_text x]) rest"
    "csv_read FieldStart [] row (csv_field x @ 10 # rest) = (row @ [cell_text x]) # csv_read FieldStart [] [] rest"
    "csv_read FieldStart [] row (csv_field x) = [row @ [cell_text x]]"
    by (auto split: shown.splits)
qed

lemma read_record:
  assumes "xs \<noteq> []"
  shows "csv_read FieldStart [] row (join [44] (map csv_field xs) @ 10 # rest) = (row @ map cell_text xs) # csv_read FieldStart [] [] rest"
    and "csv_read FieldStart [] row (join [44] (map csv_field xs)) = [row @ map cell_text xs]"
  using assms
proof (induction xs arbitrary: row rule: list_nonempty_induct)
  case (cons x xs)
  { case 1 then show ?case using cons by (simp add: join_Cons read_field) next
    case 2 then show ?case using cons by (simp add: join_Cons read_field) }
qed (simp_all add: read_field)

lemma read_records:
  assumes "rss \<noteq> []" "\<forall>xs\<in>set rss. xs \<noteq> []"
  shows "csv_read FieldStart [] [] (join [10] (map (\<lambda>xs. join [44] (map csv_field xs)) rss)) = map (map cell_text) rss"
  using assms by (induction rss rule: list_nonempty_induct) (simp_all add: join_Cons read_record)

lemma read_header:
  "csv_read FieldStart [] [] (join [44] csv_headers @ 10 # rest) = csv_headers # csv_read FieldStart [] [] rest"
  by (simp add: csv_headers_def js_str)

text \<open>C28. The exported file can be read back: reading the file of a page as comma separated values gives the
  header and, for every row, the name, the stake, the split, the percentage and the date that the
  page holds, whatever quotes, commas and line breaks the names contain.\<close>

theorem csv_roundtrip:
  assumes "rows \<noteq> []"
  shows "\<exists>content. csv_content rows = Some content \<and>
    csv_read FieldStart [] [] content = csv_headers # map (\<lambda>r. map cell_text (csv_values r)) rows"
proof -
  have "map (\<lambda>r. join [44] (map csv_field (csv_values r))) rows = map (\<lambda>xs. join [44] (map csv_field xs)) (map csv_values rows)" by simp
  moreover have "\<forall>xs\<in>set (map csv_values rows). xs \<noteq> []" by (auto simp: csv_values_def)
  ultimately show ?thesis using assms read_records [of "map csv_values rows"]
    by (simp add: csv_content_def join_Cons read_header comp_def)
qed

theorem csv_roundtrip_witness:
  "\<exists>content. csv_content [validators_row_of (\<lambda>_. []) (inum 5) Map.empty Map.empty (plain_validator ''a,\"'' 5)] = Some content \<and>
     length (csv_read FieldStart [] [] content) = 2"
  using csv_roundtrip [of "[validators_row_of (\<lambda>_. []) (inum 5) Map.empty Map.empty (plain_validator ''a,\"'' 5)]"] by auto

end
