(* ===== verification/Vote_Controls.thy ===== *)
theory Vote_Controls
  imports Vote_Distribution
begin

text \<open>
  The controls in which a visitor enters the percentages of a vote
  (\<open>frontend/src/components/modals/shared/VoteDistributionControls.tsx\<close>): what they show of a distribution,
  and the callbacks of the form they call for what the visitor does.  The text of a number field belongs to
  the browser; it is given with the event.
\<close>

section \<open>What the visitor does\<close>

datatype control_event =
    QuickButton vote_option
  | FieldFocus vote_option jsstr
  | FieldBlur vote_option jsstr
  | FieldChange vote_option jsstr
  | SliderChange vote_option jsstr

text \<open>The text of a field once it has the focus, and the callbacks an event leads to.\<close>

definition field_onFocus :: "jsstr \<Rightarrow> jsstr" where
  "field_onFocus text' = (if text' = js ''0'' then [] else text')"

fun control_callbacks :: "control_event \<Rightarrow> dist_event list" where
  "control_callbacks (QuickButton opt) = [QuickSelect opt]"
| "control_callbacks (FieldFocus opt text') = []"
| "control_callbacks (FieldBlur opt text') = (if text' = [] then [OptionChange opt (js ''0'')] else [])"
| "control_callbacks (FieldChange opt text') = [OptionChange opt text']"
| "control_callbacks (SliderChange opt text') = [OptionChange opt text']"

definition control_step :: "vote_distribution \<Rightarrow> control_event \<Rightarrow> vote_distribution" where
  "control_step d e = foldl useVoteDistribution d (control_callbacks e)"

section \<open>What they show\<close>

fun OPTION_CONFIG_label :: "vote_option \<Rightarrow> jsstr" where
  "OPTION_CONFIG_label OptFor = js ''For''"
| "OPTION_CONFIG_label OptAgainst = js ''Against''"
| "OPTION_CONFIG_label OptAbstain = js ''Abstain''"

record option_row =
  or_label :: jsstr
  or_isSelected :: bool
  or_value :: jsstr

record controls_view =
  cw_rows :: "option_row list"
  cw_total :: jsstr
  cw_totalOk :: bool
  cw_message :: "jsstr option"

definition VoteDistributionControls :: "vote_distribution \<Rightarrow> jsstr option \<Rightarrow> controls_view" where
  "VoteDistributionControls d invalidTotalMessage =
     \<lparr>cw_rows = map (\<lambda>opt. \<lparr>or_label = OPTION_CONFIG_label opt, or_isSelected = seq (get_option d opt) (Num 100),
        or_value = number_to_string (get_option d opt) @ js ''%''\<rparr>) VOTE_OPTIONS,
      cw_total = number_to_string (totalPercentage d) @ js ''%'',
      cw_totalOk = isValidDistribution d,
      cw_message = (case invalidTotalMessage of None \<Rightarrow> None
        | Some m \<Rightarrow> if m \<noteq> [] \<and> \<not> isValidDistribution d \<and> Num 0 < totalPercentage d then Some m else None)\<rparr>"

section \<open>Laws\<close>

lemma control_event_ok: "\<forall>ev \<in> set (control_callbacks e). event_ok ev"
  by (cases e) auto

lemma reachable_foldl: "reachable init d \<Longrightarrow> \<forall>ev \<in> set evs. event_ok ev \<Longrightarrow> reachable init (foldl useVoteDistribution d evs)"
  by (induction evs arbitrary: d) (auto intro: reach_step)

lemma controls_reachable: "reachable init (foldl control_step init es)"
proof (induction es rule: rev_induct)
  case (snoc e es)
  then show ?case using reachable_foldl control_event_ok by (simp add: control_step_def)
qed (simp add: reach_init)

text \<open>Whatever is done with the controls, the percentages stay a split, the message is shown exactly while part of
  the vote but not all of it is distributed, and a quick option is highlighted exactly when the whole vote is on it.\<close>

lemma controls_sound:
  assumes "split_ok init" and d: "d = foldl control_step init es" and "m \<noteq> []"
  shows "split_ok d"
    and "cw_message (VoteDistributionControls d (Some m)) = Some m \<longleftrightarrow> Num 0 < totalPercentage d \<and> totalPercentage d < Num 100"
    and "map or_isSelected (cw_rows (VoteDistributionControls d (Some m))) = map (\<lambda>opt. d = handleQuickSelect opt) VOTE_OPTIONS"
proof -
  show ok: "split_ok d" using reachable_split_ok controls_reachable assms(1) d by blast
  then show "cw_message (VoteDistributionControls d (Some m)) = Some m \<longleftrightarrow> Num 0 < totalPercentage d \<and> totalPercentage d < Num 100"
    using assms(3) by (elim split_okE) (auto simp: VoteDistributionControls_def isValidDistribution_def total_vsplit js_int)
  show "map or_isSelected (cw_rows (VoteDistributionControls d (Some m))) = map (\<lambda>opt. d = handleQuickSelect opt) VOTE_OPTIONS"
    using ok by (elim split_okE) (auto simp: VoteDistributionControls_def VOTE_OPTIONS_def handleQuickSelect_def vsplit_def js_int)
qed

text \<open>Leaving a field empty enters zero for its option.\<close>

lemma blur_enters_zero: "control_step d (FieldBlur opt []) = handleOptionChange d opt (js ''0'')"
  by (simp add: control_step_def)

end
