(* ===== verification/Timeline_Views.thy ===== *)
theory Timeline_Views
  imports Phase_Timeline
begin

text \<open>
  How the timeline of a proposal is drawn
  (\<open>frontend/src/components/proposals/detail/phase-timeline/\<close>): the row of the wide screens
  (\<open>DesktopPhaseTimeline.tsx\<close>, \<open>PhaseNode.tsx\<close>, \<open>CreatedNode.tsx\<close>), the window of the narrow ones
  (\<open>MobilePhaseTimeline.tsx\<close>, \<open>MobilePhaseNode.tsx\<close>) and the icons (\<open>PhaseIcon.tsx\<close>).  A row is the list
  of what it shows from left to right: nodes with their label, state, icon and glow, and the lines
  between them with their variant and whether they are animated.  Sizes and colours are not modelled.
\<close>

section \<open>Nodes and lines\<close>

datatype glow = GlowPing | GlowStatic | GlowFailed

datatype shown_icon = ShowCheck | ShowCross | ShowIcon phase_icon

datatype timeline_item =
    TNode (ti_label: jsstr) (ti_state: phase_state) (ti_icon: "shown_icon option") (ti_glow: "glow option")
  | TLine connector_variant bool

definition PhaseIcon :: "phase_icon \<Rightarrow> phase_state \<Rightarrow> shown_icon" where
  "PhaseIcon icon state =
     (if state = PPassed then ShowCheck else if state = PFailed then ShowCross else ShowIcon icon)"

definition phaseIndexOf :: "phase_definition list \<Rightarrow> proposal_status option \<Rightarrow> int" where
  "phaseIndexOf phases key =
     (let i = length (takeWhile (\<lambda>p. Some (ph_key p) \<noteq> key) phases) in if i < length phases then int i else -1)"

subsection \<open>Wide screens\<close>

definition PhaseNode_glow :: "phase_definition \<Rightarrow> phase_state \<Rightarrow> glow option" where
  "PhaseNode_glow phase state =
     (let isFinalized = (ph_key phase = Finalized); isCurrent = (state = PCurrent) in
      if isCurrent \<and> \<not> isFinalized then Some GlowPing
      else if isCurrent \<and> isFinalized then Some GlowStatic
      else if state = PFailed then Some GlowFailed
      else None)"

definition PhaseNode_view :: "phase_definition \<Rightarrow> phase_state \<Rightarrow> timeline_item" where
  "PhaseNode_view phase state =
     TNode (if state = PFailed then js ''Support Failed'' else ph_label phase) state
       (Some (PhaseIcon (ph_icon phase) state)) (PhaseNode_glow phase state)"

definition CreatedNode_view :: timeline_item where
  "CreatedNode_view = TNode (js ''Created'') PPassed (Some ShowCheck) None"

definition DesktopPhaseTimeline :: "proposal_status \<Rightarrow> proposal_status \<Rightarrow> timeline_item list" where
  "DesktopPhaseTimeline status currentPhase =
     (let currentPhaseIndex = phaseIndexOf PHASES (Some currentPhase);
          isFinalized = (status = Finalized);
          isFailed = (status = Failed)
      in CreatedNode_view
         # TLine CComplete (currentPhaseIndex \<ge> 0 \<and> \<not> isFinalized \<and> \<not> isFailed)
         # concat (map (\<lambda>i.
             let phaseState = resolvePhaseState (int i) currentPhaseIndex (Some status);
                 nextState = resolvePhaseState (int i + 1) currentPhaseIndex (Some status);
                 isLastPhase = (i = length PHASES - 1);
                 variant = resolveConnectorVariant phaseState nextState
             in PhaseNode_view (PHASES ! i) phaseState
                # (if isLastPhase then []
                   else [TLine variant (\<not> isFailed \<and>
                           shouldAnimateConnector variant (int i) currentPhase isFinalized currentPhaseIndex)]))
             [0..<length PHASES]))"

subsection \<open>Narrow screens\<close>

fun node_state :: "visible_node \<Rightarrow> phase_state" where
  "node_state (CreatedNode s p) = s"
| "node_state (PhaseNode d s p) = s"

fun node_phase :: "visible_node \<Rightarrow> phase_definition option" where
  "node_phase (CreatedNode s p) = None"
| "node_phase (PhaseNode d s p) = d"

fun node_pos :: "visible_node \<Rightarrow> node_position" where
  "node_pos (CreatedNode s p) = p"
| "node_pos (PhaseNode d s p) = p"

fun is_created :: "visible_node \<Rightarrow> bool" where
  "is_created (CreatedNode s p) = True"
| "is_created (PhaseNode d s p) = False"

record node_emphasis =
  isScaled :: bool
  isHighlighted :: bool
  largeSize :: bool
  faded :: bool

definition getNodeEmphasis :: "phase_state \<Rightarrow> bool \<Rightarrow> bool \<Rightarrow> bool \<Rightarrow> node_emphasis" where
  "getNodeEmphasis state isCenterPosition isFinalizedPhase isProposalFinalized =
     (let isFailed = (state = PFailed);
          isCurrentFinalizedPhase = (state = PCurrent \<and> isFinalizedPhase);
          isPassedDuringFinalized = (state = PPassed \<and> isProposalFinalized);
          scaled = (isCenterPosition \<and> \<not> isCurrentFinalizedPhase \<and> \<not> isPassedDuringFinalized \<and> \<not> isFailed);
          isDeemphasized = (\<not> scaled \<and> \<not> isCurrentFinalizedPhase \<and> \<not> isPassedDuringFinalized \<and> \<not> isFailed)
      in \<lparr>isScaled = scaled,
          isHighlighted = (scaled \<or> isCurrentFinalizedPhase \<or> isFailed),
          largeSize = (\<not> (isFailed \<or> \<not> scaled)),
          faded = (isDeemphasized \<or> isPassedDuringFinalized)\<rparr>)"

definition NodeGlowRing :: "phase_state \<Rightarrow> bool \<Rightarrow> glow option" where
  "NodeGlowRing state isFinalizedPhase =
     (if state = PCurrent \<and> \<not> isFinalizedPhase then Some GlowPing
      else if state = PCurrent \<and> isFinalizedPhase then Some GlowStatic
      else if state = PFailed then Some GlowFailed
      else None)"

definition getNodeLabel :: "bool \<Rightarrow> phase_state \<Rightarrow> jsstr option \<Rightarrow> jsstr" where
  "getNodeLabel isCreatedNode state phaseLabel =
     (if isCreatedNode then js ''Created''
      else if state = PFailed then js ''Support Failed''
      else case phaseLabel of Some l \<Rightarrow> l | None \<Rightarrow> [])"

definition node_is_finalized_phase :: "visible_node \<Rightarrow> bool" where
  "node_is_finalized_phase node \<longleftrightarrow> map_option ph_key (node_phase node) = Some Finalized"

definition MobilePhaseNode :: "visible_node \<Rightarrow> timeline_item" where
  "MobilePhaseNode node =
     TNode (getNodeLabel (is_created node) (node_state node) (map_option ph_label (node_phase node)))
       (node_state node)
       (if is_created node then Some ShowCheck
        else map_option (\<lambda>p. PhaseIcon (ph_icon p) (node_state node)) (node_phase node))
       (NodeGlowRing (node_state node) (node_is_finalized_phase node))"

definition MobilePhaseNode_emphasis :: "bool \<Rightarrow> visible_node \<Rightarrow> node_emphasis" where
  "MobilePhaseNode_emphasis isProposalFinalized node =
     getNodeEmphasis (node_state node) (node_pos node = PosCenter) (node_is_finalized_phase node) isProposalFinalized"

definition EdgeConnector :: "bool \<Rightarrow> connector_variant \<Rightarrow> bool \<Rightarrow> timeline_item list" where
  "EdgeConnector shw variant animate = (if shw then [TLine variant animate] else [])"

definition mobile_nodes :: "proposal_status \<Rightarrow> proposal_status \<Rightarrow> visible_node list" where
  "mobile_nodes status currentPhase = calculateMobileVisibleNodes PHASES (phaseIndexOf PHASES (Some currentPhase)) status"

definition mobile_connector :: "proposal_status \<Rightarrow> proposal_status \<Rightarrow> visible_node list \<Rightarrow> nat \<Rightarrow> timeline_item list" where
  "mobile_connector status currentPhase nodes i =
     (if i = length nodes - 1 then []
      else let node = nodes ! i;
               nodePhaseIndex = (if is_created node then -1 else phaseIndexOf PHASES (map_option ph_key (node_phase node)));
               variant = resolveConnectorVariant (node_state node) (node_state (nodes ! (i + 1)))
           in [TLine variant (status \<noteq> Failed \<and>
                 shouldAnimateConnector variant nodePhaseIndex currentPhase (status = Finalized)
                   (phaseIndexOf PHASES (Some currentPhase)))])"

definition MobilePhaseTimeline :: "proposal_status \<Rightarrow> proposal_status \<Rightarrow> timeline_item list" where
  "MobilePhaseTimeline status currentPhase =
     (let nodes = mobile_nodes status currentPhase;
          isFinalized = (status = Finalized);
          isFailed = (status = Failed);
          edges = shouldShowEdgeConnectors PHASES (phaseIndexOf PHASES (Some currentPhase)) isFailed isFinalized (length nodes)
      in EdgeConnector (fst edges) CComplete (\<not> isFinalized \<and> \<not> isFailed)
         @ concat (map (\<lambda>i. MobilePhaseNode (nodes ! i) # mobile_connector status currentPhase nodes i) [0..<length nodes])
         @ EdgeConnector (snd edges) CUpcoming False)"

section \<open>The narrow row is a stretch of the wide one\<close>

lemmas timeline_eval = DesktopPhaseTimeline_def MobilePhaseTimeline_def mobile_nodes_def mobile_connector_def
  PHASES_def phaseIndexOf_def calculateMobileVisibleNodes_def shouldShowEdgeConnectors_def resolvePhaseState_def
  resolveConnectorVariant_def shouldAnimateConnector_def phase_at_def createPhaseNode_def createCreatedNode_def
  PhaseNode_view_def PhaseNode_glow_def PhaseIcon_def CreatedNode_view_def MobilePhaseNode_def NodeGlowRing_def
  getNodeLabel_def node_is_finalized_phase_def EdgeConnector_def window_start_def window_length_def
  upt_rec numeral_2_eq_2 numeral_3_eq_3 Let_def

text \<open>
  What the page draws for a proposal, whose current phase is its status.  A node stands at twice its
  position in the row of nodes, the line after it one further, so the window from node \<open>lo\<close> of
  \<open>n\<close> nodes is the stretch from the line before \<open>lo\<close> to the line after the last node: the edge lines
  are drawn exactly where the wide row goes on, in the variant and motion it has there.
\<close>

definition window_items :: "proposal_status \<Rightarrow> timeline_item list \<Rightarrow> timeline_item list" where
  "window_items status row =
     (let cur = phaseIndexOf PHASES (Some status);
          lo = window_start (int (length PHASES)) cur status;
          n = window_length (int (length PHASES)) cur status
      in drop (2 * lo - 1) (take (2 * (lo + n)) row))"

lemma timelines_agree:
  "MobilePhaseTimeline status status =
     (if status = Failed then (window_items status (DesktopPhaseTimeline status status))[1 := TLine CUpcoming False]
      else window_items status (DesktopPhaseTimeline status status))"
  by (cases status) (simp_all add: window_items_def timeline_eval)

text \<open>In the row of a failed proposal the line from the creation to the support phase is drawn as
  completed on wide screens and as still to come on narrow ones.\<close>

lemma failed_first_line:
  "DesktopPhaseTimeline Failed Failed ! 1 = TLine CComplete False"
  "MobilePhaseTimeline Failed Failed ! 1 = TLine CUpcoming False"
  by (simp_all add: timeline_eval)

text \<open>Exactly one node of the narrow row is highlighted: the one that glows, which is the phase the
  proposal is in, or the support phase of a proposal that failed there.  A faded node is never one of
  them, and only a highlighted node is drawn large.\<close>

definition shown_phase :: "proposal_status \<Rightarrow> proposal_status" where
  "shown_phase status = (if status = Failed then Supporting else status)"

lemma one_highlight:
  "map (\<lambda>n. isHighlighted (MobilePhaseNode_emphasis (status = Finalized) n)) (mobile_nodes status status) =
   map (\<lambda>n. map_option ph_key (node_phase n) = Some (shown_phase status)) (mobile_nodes status status)"
  "map (\<lambda>n. ti_glow (MobilePhaseNode n) \<noteq> None) (mobile_nodes status status) =
   map (\<lambda>n. map_option ph_key (node_phase n) = Some (shown_phase status)) (mobile_nodes status status)"
  "shown_phase status \<in> ph_key ` set (List.map_filter node_phase (mobile_nodes status status))"
  by (cases status; simp add: shown_phase_def MobilePhaseNode_emphasis_def getNodeEmphasis_def timeline_eval map_filter_simps)+

lemma emphasis_consistent:
  "faded (getNodeEmphasis s c f p) \<longrightarrow> \<not> isHighlighted (getNodeEmphasis s c f p)"
  "largeSize (getNodeEmphasis s c f p) \<longleftrightarrow> isScaled (getNodeEmphasis s c f p)"
  "isScaled (getNodeEmphasis s c f p) \<longrightarrow> isHighlighted (getNodeEmphasis s c f p)"
  by (auto simp: getNodeEmphasis_def Let_def)

end
