(* ===== verification/Detail_Page.thy ===== *)
theory Detail_Page
  imports Timeline_Views Modal_Flow Proposal_Views Support_Stats Doc_Cache
begin

text \<open>
  The page of one proposal and the other places that offer its actions: the layout of the page
  (\<open>proposals/detail/ProposalDetailView.tsx\<close>, \<open>app/proposal/ProposalDetailClientPage.tsx\<close>), the section
  beside the figures (\<open>SupportProposalSection.tsx\<close>), the figures of the support phase
  (\<open>support-phase-progress/index.tsx\<close>, \<open>SupportDonut.tsx\<close>, \<open>NotificationButton.tsx\<close>), the texts under the
  timeline (\<open>phase-timeline/index.tsx\<close>, \<open>PhaseDetail.tsx\<close>), the stage indicators (\<open>ui/LifecycleIndicator.tsx\<close>),
  the panel of the table of proposals (\<open>ExternalProposalPanel.tsx\<close>) and the layout of the dashboard
  (\<open>governance/GovernanceDashboardLayout.tsx\<close>).  A screen is the widest style prefix that applies to it.
\<close>

section \<open>Screens\<close>

datatype screen = ScrBase | ScrSm | ScrMd | ScrLg | ScrXl

fun scr_rank :: "screen \<Rightarrow> nat" where
  "scr_rank ScrBase = 0"
| "scr_rank ScrSm = 1"
| "scr_rank ScrMd = 2"
| "scr_rank ScrLg = 3"
| "scr_rank ScrXl = 4"

definition md_up :: "screen \<Rightarrow> bool" where
  "md_up s \<longleftrightarrow> scr_rank ScrMd \<le> scr_rank s"

definition xl_up :: "screen \<Rightarrow> bool" where
  "xl_up s \<longleftrightarrow> scr_rank ScrXl \<le> scr_rank s"

section \<open>The section beside the figures\<close>

datatype section_variant = VarSupport | VarDiscussion | VarFailed | VarFinalized

record variant_config =
  vc_title :: jsstr
  vc_message :: jsstr
  vc_showSupportButton :: bool
  vc_showCheckOtherButton :: bool

fun VARIANT_CONFIG :: "section_variant \<Rightarrow> variant_config" where
  "VARIANT_CONFIG VarSupport =
     \<lparr>vc_title = js ''Support this proposal'', vc_message = [], vc_showSupportButton = True, vc_showCheckOtherButton = False\<rparr>"
| "VARIANT_CONFIG VarDiscussion =
     \<lparr>vc_title = js ''Discussion Phase'',
      vc_message = js ''The discussion phase covers the 4-5 epoch period while the NCN is created. Voting begins only after this process completes.'',
      vc_showSupportButton = False, vc_showCheckOtherButton = True\<rparr>"
| "VARIANT_CONFIG VarFailed =
     \<lparr>vc_title = js ''Support Failed'',
      vc_message = js ''This proposal did not gather sufficient validator stake to advance. The required support threshold was not reached before the deadline expired.'',
      vc_showSupportButton = False, vc_showCheckOtherButton = True\<rparr>"
| "VARIANT_CONFIG VarFinalized =
     \<lparr>vc_title = js ''Voting Ended'',
      vc_message = js ''Voting period has ended and all votes have been counted. The proposal is finalized and ready for on-chain execution.'',
      vc_showSupportButton = False, vc_showCheckOtherButton = True\<rparr>"

text \<open>What the hooks know of the visitor: the wallet, its role, and whether it has supported the
  proposal (with the loading flag of that query).\<close>

record visitor =
  vis_wallet :: wallet_ctx
  vis_role :: wallet_role
  vis_hasSupported :: "bool option"
  vis_isLoadingSupported :: bool

record support_section =
  sec_title :: jsstr
  sec_message :: jsstr
  sec_button :: "support_button option"
  sec_checkOther :: bool

definition SupportProposalSection ::
  "governance_config_dto option \<Rightarrow> visitor \<Rightarrow> jsstr option \<Rightarrow> proposal_status option \<Rightarrow> bool \<Rightarrow> bool \<Rightarrow> section_variant \<Rightarrow> support_section" where
  "SupportProposalSection config v proposalId proposalStatus isLoading disabled variant =
     (let c = VARIANT_CONFIG variant;
          disabledButtons = (disabled \<or> isLoading)
      in \<lparr>sec_title = vc_title c,
          sec_message = (if variant = VarSupport then supportPhaseRequirementCopy (supportThresholdPercentFromConfig config) else vc_message c),
          sec_button = (if vc_showSupportButton c
             then SupportButton (vis_wallet v) (vis_role v) (vis_hasSupported v) (vis_isLoadingSupported v) proposalId proposalStatus disabledButtons
             else None),
          sec_checkOther = vc_showCheckOtherButton c\<rparr>)"

section \<open>The layout of the page\<close>

datatype detail_block =
    BlkHeader
  | BlkSection support_section
  | BlkSupportProgress
  | BlkVoteBreakdown
  | BlkCastVote bool
  | BlkTimeline
  | BlkTopSupporters
  | BlkTopVoters

text \<open>The blocks a screen shows, from top to bottom; \<open>BlkCastVote\<close> carries whether its buttons are
  enabled for the visitor.\<close>

definition ProposalDetailView ::
  "chain_env \<Rightarrow> governance_config_dto option \<Rightarrow> visitor \<Rightarrow> screen \<Rightarrow> proposal_record option \<Rightarrow> detail_block list" where
  "ProposalDetailView env config v scr proposal =
     (let status = map_option rec_status proposal;
          isConnected = wc_connected (vis_wallet v);
          isSupporting = (status = Some Supporting);
          isDiscussion = (status = Some Discussion);
          isFailed = (status = Some Failed);
          isFinalized = (status = Some Finalized);
          isSupportPhaseView = (status = Some Supporting \<or> status = Some Discussion \<or> status = Some Failed);
          proposalId = map_option (\<lambda>p. toBase58 env (rec_publicKey p)) proposal;
          sect = SupportProposalSection config v proposalId status False;
          castVote = BlkCastVote (CastVoteWrapper_enabled (vis_wallet v) proposal)
      in [BlkHeader]
         @ (if isSupportPhaseView then
              (if isSupporting \<and> \<not> md_up scr then [BlkSection (sect (\<not> isConnected) VarSupport)] else [])
              @ [BlkSupportProgress]
              @ (if isSupporting \<and> md_up scr then [BlkSection (sect (\<not> isConnected) VarSupport)] else [])
              @ (if isDiscussion \<and> xl_up scr then [BlkSection (sect False VarDiscussion)] else [])
              @ (if isFailed \<and> xl_up scr then [BlkSection (sect False VarFailed)] else [])
            else
              (if isFinalized \<and> \<not> md_up scr then [castVote] else [])
              @ [BlkVoteBreakdown]
              @ (if isFinalized
                 then (if md_up scr then [BlkSection (sect False VarFinalized)] else [])
                 else (if md_up scr then [castVote] else [])))
         @ [BlkTimeline]
         @ (if isSupportPhaseView then [BlkTopSupporters] else [BlkTopVoters]))"

text \<open>The page itself: \<open>None\<close> is the page for what is not found.\<close>

definition ProposalDetailClientPage ::
  "chain_env \<Rightarrow> governance_config_dto option \<Rightarrow> visitor \<Rightarrow> screen \<Rightarrow> proposal_record option \<Rightarrow> bool \<Rightarrow> detail_block list option" where
  "ProposalDetailClientPage env config v scr proposalData isFetched =
     (if proposalData = None \<and> isFetched then None else Some (ProposalDetailView env config v scr proposalData))"

section \<open>The panel of the table of proposals\<close>

fun VOTE_STATE_LABEL :: "proposal_status \<Rightarrow> jsstr" where
  "VOTE_STATE_LABEL Supporting = js ''Supporting''"
| "VOTE_STATE_LABEL Discussion = js ''Discussion''"
| "VOTE_STATE_LABEL Voting = js ''In Progress''"
| "VOTE_STATE_LABEL Finalized = js ''Finished''"
| "VOTE_STATE_LABEL Failed = js ''Failed''"

definition getVoteStateLabel :: "proposal_record \<Rightarrow> jsstr" where
  "getVoteStateLabel p = (if rec_status p = Failed then js ''Ended'' else VOTE_STATE_LABEL (rec_voteState p))"

definition getHeaderLabel :: "proposal_record \<Rightarrow> jsstr" where
  "getHeaderLabel p = (if rec_status p = Failed then js ''Stage'' else if rec_status p = Finalized then js ''Vote'' else js ''Stage'')"

text \<open>The hooks the panel reads besides: whether the role or the vote account is still loading, and the
  vote account found for the wallet.\<close>

record panel_visitor = visitor +
  pv_isLoadingVoteIdentity :: bool
  pv_chainVoteAccount :: "chain_vote_account option"

record vote_buttons =
  vb_disabled :: bool
  vb_modify :: "card_effect list"
  vb_cast :: "card_effect list"

record vote_actions =
  act_vote :: "vote_buttons option"
  act_support :: "support_button option"

definition VoteActions ::
  "panel_visitor \<Rightarrow> proposal_status \<Rightarrow> jsstr option \<Rightarrow> pubkey option \<Rightarrow> bool \<Rightarrow> vote_actions" where
  "VoteActions v state proposalId consensusResult disabled =
     (let names = getVoteModalNames (pv_chainVoteAccount v); loading = pv_isLoadingVoteIdentity v in
      \<lparr>act_vote = (if state = Voting
          then Some \<lparr>vb_disabled = panel_buttons_disabled disabled consensusResult loading,
                     vb_modify = panel_onClick (snd names) proposalId consensusResult loading,
                     vb_cast = panel_onClick (fst names) proposalId consensusResult loading\<rparr>
          else None),
       act_support = SupportButton (vis_wallet v) (vis_role v) (vis_hasSupported v) (vis_isLoadingSupported v)
          proposalId (Some state) disabled\<rparr>)"

datatype panel_content = PanelDiscussion jsstr | PanelActions vote_actions | PanelConnect vote_actions | PanelEmpty

definition VotingPanel :: "chain_env \<Rightarrow> panel_visitor \<Rightarrow> proposal_record \<Rightarrow> panel_content" where
  "VotingPanel env v p =
     (let proposalId = toBase58 env (rec_publicKey p);
          active = (rec_status p = Supporting \<or> rec_status p = Voting)
      in if rec_status p = Discussion then PanelDiscussion (getProposalDetailPagePath proposalId)
         else if \<not> active then PanelEmpty
         else if wc_connected (vis_wallet v)
         then PanelActions (VoteActions v (rec_status p) (Some proposalId) (rec_consensusResult p) False)
         else PanelConnect (VoteActions v (rec_status p) None None True))"

section \<open>Stage indicators and texts of a phase\<close>

definition STAGE_ORDER :: "proposal_status list" where
  "STAGE_ORDER = [Supporting, Discussion, Voting, Finalized]"

definition status_indexOf :: "proposal_status list \<Rightarrow> proposal_status \<Rightarrow> int" where
  "status_indexOf xs s = (let i = length (takeWhile (\<lambda>x. x \<noteq> s) xs) in if i < length xs then int i else -1)"

fun STAGE_LABEL :: "proposal_status \<Rightarrow> jsstr" where
  "STAGE_LABEL Supporting = js ''Supporting''"
| "STAGE_LABEL Discussion = js ''Discussion''"
| "STAGE_LABEL Voting = js ''Voting''"
| "STAGE_LABEL Finalized = js ''Finished''"
| "STAGE_LABEL Failed = js ''Failed''"

definition FAILED_BODY :: jsstr where
  "FAILED_BODY = js ''This proposal did not receive enough support to proceed to the discussion phase. The support threshold was not met within the required timeframe.''"

fun STAGE_DESCRIPTION :: "proposal_status \<Rightarrow> jsstr" where
  "STAGE_DESCRIPTION Supporting = []"
| "STAGE_DESCRIPTION Discussion = js ''The discussion phase covers the 4-5 epoch period while the NCN is created. Voting begins only after this process completes.''"
| "STAGE_DESCRIPTION Voting = js ''Validators vote on active governance proposals. Delegators can override their validator's vote using stake account verification.''"
| "STAGE_DESCRIPTION Finalized = js ''Voting period has ended and all votes have been counted. The proposal is finalized and ready for on-chain execution.''"
| "STAGE_DESCRIPTION Failed = FAILED_BODY"

datatype indicator_icon = IndCross | IndCircle | IndLoader

record lifecycle_indicator =
  li_dots :: "bool list"
  li_icon :: indicator_icon
  li_label :: jsstr
  li_description :: jsstr

definition LifecycleIndicator :: "governance_config_dto option \<Rightarrow> proposal_status \<Rightarrow> lifecycle_indicator" where
  "LifecycleIndicator config status =
     (let isFailed = (status = Failed);
          isComplete = (status = Finalized \<or> isFailed);
          activeIndex = (if isFailed then 0 else max (status_indexOf STAGE_ORDER status) 0)
      in \<lparr>li_dots = map (\<lambda>i. int i \<le> activeIndex) [0..<length STAGE_ORDER],
          li_icon = (if isFailed then IndCross else if isComplete then IndCircle else IndLoader),
          li_label = (if isFailed then js ''Support Failed'' else STAGE_LABEL status),
          li_description = (if isFailed then FAILED_BODY
             else if status = Supporting
             then supportPhaseRequirementCopy (supportThresholdPercentFromConfig config) @ js ''.''
             else STAGE_DESCRIPTION status)\<rparr>)"

definition LifecycleStageBar :: "proposal_status \<Rightarrow> bool list" where
  "LifecycleStageBar stage =
     (let stages = [Supporting, Discussion, Voting, Finalized]; activeIndex = status_indexOf stages stage
      in map (\<lambda>i. int i \<le> activeIndex) [0..<length stages])"

fun PHASE_DETAILS :: "proposal_status \<Rightarrow> jsstr \<times> jsstr" where
  "PHASE_DETAILS Supporting = (js ''Current: Support Phase'', js ''This proposal is gathering the required support. Once the threshold is met it will move into the discussion phase.'')"
| "PHASE_DETAILS Discussion = (js ''Current: Discussion Phase'', js ''This proposal is currently in the discussion phase. Once the discussion phase is complete, the proposal will move into the voting phase.'')"
| "PHASE_DETAILS Voting = (js ''Current: Voting Phase'', js ''This proposal is currently in the voting phase. If the quorum is met and the 'For' votes are in the majority, the proposal will be queued for execution.'')"
| "PHASE_DETAILS Finalized = (js ''Current: Finalized'', js ''Voting has concluded and the results are finalized. Review the outcome and any follow-up actions that may be required.'')"
| "PHASE_DETAILS Failed = (js ''Support Failed'', FAILED_BODY)"

text \<open>The text under the timeline; a title or body is \<open>None\<close> while a placeholder is drawn in its place.\<close>

record phase_detail =
  pd_title :: "jsstr option"
  pd_body :: "jsstr option"
  pd_counters :: "(jsstr \<times> jsstr) option"

definition or_dash :: "number option \<Rightarrow> jsstr" where
  "or_dash x = (case x of Some n \<Rightarrow> number_to_string n | None \<Rightarrow> js ''-'')"

definition PhaseDetail ::
  "proposal_status \<Rightarrow> proposal_status \<Rightarrow> bool \<Rightarrow> jsstr \<Rightarrow> number option \<Rightarrow> number option \<Rightarrow> phase_detail" where
  "PhaseDetail currentPhase status isLoading remainingTime currentEpoch endEpoch =
     (let isFailed = (status = Failed);
          detail = (if isFailed then (js ''Support Failed'', FAILED_BODY) else PHASE_DETAILS currentPhase)
      in \<lparr>pd_title = (if isLoading then None else Some (fst detail)),
          pd_body = (if isLoading then None else Some (snd detail)),
          pd_counters = (if \<not> isLoading \<and> \<not> isFailed
             then Some (remainingTime, or_dash currentEpoch @ js '' / '' @ or_dash endEpoch) else None)\<rparr>)"

datatype timeline_page = TimelineSkeleton | TimelineNoData | TimelineShown "timeline_item list" phase_detail

text \<open>\<open>endsAt\<close> is the ISO text of the date the query found for the end of the phase; the clock has no value
  before the first effect has run.\<close>

definition PhaseTimeline ::
  "(jsstr \<Rightarrow> number) \<Rightarrow> screen \<Rightarrow> governance_config_dto option \<Rightarrow> number option \<Rightarrow> number option \<Rightarrow> jsstr option \<Rightarrow>
   proposal_record option \<Rightarrow> bool \<Rightarrow> timeline_page" where
  "PhaseTimeline parse_date scr config currentEpoch nowMs endsAt proposal isLoading =
     (let remainingTime = (case (endsAt, nowMs) of
            (Some endText, Some now) \<Rightarrow> (case calculateVotingEndsIn parse_date (Some endText) now of Some t \<Rightarrow> t | None \<Rightarrow> js ''-'')
          | _ \<Rightarrow> js ''-'')
      in if isLoading then TimelineSkeleton
         else case proposal of
           None \<Rightarrow> TimelineNoData
         | Some p \<Rightarrow> TimelineShown
             (if scr_rank ScrLg \<le> scr_rank scr then DesktopPhaseTimeline (rec_status p) (rec_status p)
              else MobilePhaseTimeline (rec_status p) (rec_status p))
             (PhaseDetail (rec_status p) (rec_status p) False remainingTime currentEpoch (activePhaseEndEpoch config p)))"

text \<open>The number and the heading of a proposal, with the placeholder a caller passes (\<open>None\<close> for nothing).\<close>

definition ProposalRefLabel :: "proposal_document option option \<Rightarrow> proposal_ref option \<Rightarrow> jsstr option \<Rightarrow> jsstr option" where
  "ProposalRefLabel data fallback placeholder =
     (case useProposalRef data fallback of None \<Rightarrow> placeholder | Some r \<Rightarrow> Some (ref_label r))"

definition ProposalHeading :: "proposal_document option option \<Rightarrow> proposal_ref option \<Rightarrow> jsstr \<Rightarrow> jsstr" where
  "ProposalHeading data fallback title = formatProposalHeading (useProposalRef data fallback) title"

section \<open>The figures of the support phase\<close>

record progress_queries =
  pq_config :: "governance_config_dto option"
  pq_isLoadingConfig :: bool
  pq_isPendingConfig :: bool
  pq_validators :: "validator list option"
  pq_isLoadingValidators :: bool
  pq_supportAccounts :: "nat option"
  pq_isLoadingSupportAccounts :: bool
  pq_supportEndsAt :: "number option"
  pq_isLoadingEpochDate :: bool
  pq_discussionEndsAt :: "number option"
  pq_isLoadingDiscussionEpochDate :: bool

datatype card_text = NoText | Placeholder | CardText jsstr

record stat_card =
  sc_label :: jsstr
  sc_value :: card_text
  sc_badge :: card_text
  sc_secondary :: card_text
  sc_barWidth :: "number option"

definition StatCard :: "string \<Rightarrow> card_text \<Rightarrow> card_text \<Rightarrow> card_text \<Rightarrow> number option \<Rightarrow> stat_card" where
  "StatCard label val badge secondary bar =
     \<lparr>sc_label = js label, sc_value = val, sc_badge = badge, sc_secondary = secondary,
      sc_barWidth = map_option (\<lambda>percent. math_min percent (Num 100)) bar\<rparr>"

datatype donut_center = ThresholdReached | ReachedSoFar jsstr jsstr

record support_donut =
  sd_displayPercent :: number
  sd_center :: donut_center

definition SupportDonut :: "number \<Rightarrow> bool \<Rightarrow> number \<Rightarrow> support_donut" where
  "SupportDonut progress met remaining =
     \<lparr>sd_displayPercent = math_min progress (Num 100) / Num 100,
      sd_center = (if met then ThresholdReached
         else ReachedSoFar (toFixed 1 progress @ js ''%'') (formatSOL remaining @ js '' SOL needed''))\<rparr>"

text \<open>The button of the banner: its label and its message, when it is there.\<close>

definition NotificationButton :: "bool \<Rightarrow> bool \<Rightarrow> jsstr \<Rightarrow> (jsstr \<times> jsstr) option" where
  "NotificationButton isVisible met message =
     (if \<not> isVisible then None else Some (if met then js ''Threshold Met'' else js ''Almost There'', message))"

fun PHASE_STATUS_LABELS :: "phase_badge \<Rightarrow> jsstr" where
  "PHASE_STATUS_LABELS BadgeFailed = js ''Failed''"
| "PHASE_STATUS_LABELS BadgeInProgress = js ''In Progress''"
| "PHASE_STATUS_LABELS BadgeComplete = js ''Complete''"

definition progress_stats :: "progress_queries \<Rightarrow> proposal_record \<Rightarrow> support_stats" where
  "progress_stats q p =
     (let validators = (case pq_validators q of Some vs \<Rightarrow> vs | None \<Rightarrow> []) in
      computeSupportStats
        \<lparr>si_currentSupportLamports = rec_clusterSupportLamports p,
         si_totalStakedLamports = or_zero (foldl (\<lambda>acc v. acc + val_activated_stake v) (Num 0) validators),
         si_thresholdPercent = supportThresholdPercentFromConfig (pq_config q),
         si_validatorCount = inum (int (case pq_supportAccounts q of Some n \<Rightarrow> n | None \<Rightarrow> 0)),
         si_numOfValidators = inum (int (length validators)),
         si_thresholdCrossed = Some (rec_voting p \<or> rec_finalized p)\<rparr>)"

record support_progress =
  sp_badge :: jsstr
  sp_notification :: "(jsstr \<times> jsstr) option"
  sp_donut :: support_donut
  sp_cards :: "stat_card list"
  sp_carousel :: bool

definition progress_isLoading :: "progress_queries \<Rightarrow> bool" where
  "progress_isLoading q \<longleftrightarrow>
     pq_isLoadingValidators q \<or> pq_isLoadingSupportAccounts q \<or> pq_isLoadingEpochDate q \<or>
     pq_isLoadingDiscussionEpochDate q \<or> pq_isLoadingConfig q \<or> pq_isPendingConfig q"

definition SupportPhaseProgress :: "progress_queries \<Rightarrow> proposal_record \<Rightarrow> support_progress" where
  "SupportPhaseProgress q p =
     (let stats = progress_stats q p;
          text = (\<lambda>t. if progress_isLoading q then Placeholder else CardText t);
          showBanner = (Num 80 \<le> progressPercent stats \<or> isThresholdMet stats);
          bannerMessage = (if isThresholdMet stats
             then js ''Support threshold reached! Proposal advancing to next phase.''
             else js ''This proposal is nearing its support threshold. Only '' @ formatSOL (remainingLamports stats) @ js '' SOL needed!'')
      in \<lparr>sp_badge = PHASE_STATUS_LABELS (getPhaseStatus (rec_status p)),
          sp_notification = NotificationButton showBanner (isThresholdMet stats) bannerMessage,
          sp_donut = SupportDonut (progressPercent stats) (isThresholdMet stats) (remainingLamports stats),
          sp_cards =
            [StatCard ''Current Support'' (text (formatSOL (ss_currentSupportLamports stats) @ js '' SOL''))
               (text (toFixed 2 (supportPercentOfTotal stats) @ js ''%'')) NoText (Some (supportPercentOfTotal stats)),
             StatCard ''Required Threshold'' (text (formatSOL (requiredThresholdLamports stats) @ js '' SOL''))
               (text (number_to_string (ss_thresholdPercent stats) @ js ''%''))
               (text (formatSOL (ss_totalStakedLamports stats) @ js '' total staked'')) None,
             StatCard ''Validator Participation'' (text (toFixed 1 (participationPercent stats) @ js ''%''))
               (text (number_to_string (ss_validatorCount stats) @ js '' validators''))
               (text (formatSOL (avgStakePerValidator stats) @ js '' SOL avg per validator'')) None],
          sp_carousel = (pq_supportEndsAt q \<noteq> None \<and> pq_discussionEndsAt q \<noteq> None)\<rparr>)"

section \<open>The dashboard\<close>

record dashboard_layout =
  dl_showStats :: bool
  dl_showValidatorView :: bool
  dl_showStakerView :: bool
  dl_canToggle :: bool
  dl_heading :: "jsstr option"

definition GovernanceDashboardLayout :: "role_state \<Rightarrow> bool \<Rightarrow> dashboard_layout" where
  "GovernanceDashboardLayout st isLoadingView =
     (let walletRole = rs_walletRole st; selectedView = rs_selectedView st in
      \<lparr>dl_showStats = ((walletRole \<noteq> RoleNone \<and> selectedView \<noteq> None) \<or> isLoadingView),
       dl_showValidatorView = (walletRole = RoleValidator \<or> (walletRole = RoleBoth \<and> selectedView = Some ValidatorView)),
       dl_showStakerView = (walletRole = RoleStaker \<or> (walletRole = RoleBoth \<and> selectedView = Some StakerView)),
       dl_canToggle = (walletRole \<noteq> RoleNone \<and> selectedView \<noteq> None \<and> walletRole = RoleBoth),
       dl_heading = (if isLoadingView then None
          else Some (if selectedView = Some ValidatorView then js ''Validator'' else js ''Staker''))\<rparr>)"

text \<open>The states of the hook behind it: its effect runs whenever the queries change, and the toggle sets
  the view while it is shown.\<close>

inductive role_reachable :: "role_state \<Rightarrow> bool" where
  reach_init: "role_reachable initial_role"
| reach_effect: "role_reachable st \<Longrightarrow> role_reachable (role_effect isLoading (stake_accounts :: (number \<times> jsstr \<times> jsstr) list option) chainVoteAccount st)"
| reach_toggle: "role_reachable st \<Longrightarrow> dl_canToggle (GovernanceDashboardLayout st isLoading) \<Longrightarrow>
    role_reachable (st\<lparr>rs_selectedView := Some view\<rparr>)"

section \<open>Laws\<close>

subsection \<open>Actions follow the status\<close>

fun offers_support :: "detail_block \<Rightarrow> bool" where
  "offers_support (BlkSection s) \<longleftrightarrow> sec_button s \<noteq> None"
| "offers_support _ \<longleftrightarrow> False"

fun offers_vote :: "detail_block \<Rightarrow> bool" where
  "offers_vote (BlkCastVote _) \<longleftrightarrow> True"
| "offers_vote _ \<longleftrightarrow> False"

fun panel_actions :: "panel_content \<Rightarrow> vote_actions option" where
  "panel_actions (PanelActions a) = Some a"
| "panel_actions (PanelConnect a) = Some a"
| "panel_actions _ = None"

definition panel_offers :: "(vote_actions \<Rightarrow> 'b option) \<Rightarrow> panel_content \<Rightarrow> bool" where
  "panel_offers field c \<longleftrightarrow> Option.bind (panel_actions c) field \<noteq> None"

lemma SupportButton_iff: "SupportButton w role hs l i s d \<noteq> None \<longleftrightarrow> s = Some Supporting"
  by (simp add: SupportButton_def Let_def)

lemmas detail_defs = ProposalDetailView_def SupportProposalSection_def Let_def

lemma page_support_count:
  "length (filter offers_support (ProposalDetailView env config v scr (Some p))) = (if rec_status p = Supporting then 1 else 0)"
  by (cases "rec_status p") (auto simp: detail_defs SupportButton_iff [unfolded not_None_eq] simp flip: not_None_eq)

lemma page_vote_count:
  "length (filter offers_vote (ProposalDetailView env config v scr (Some p))) =
     (if rec_status p = Voting \<and> md_up scr \<or> rec_status p = Finalized \<and> \<not> md_up scr then 1 else 0)"
  by (cases "rec_status p") (auto simp: detail_defs)

lemma panel_vote_iff: "panel_offers act_vote (VotingPanel env v p) \<longleftrightarrow> rec_status p = Voting"
  by (cases "rec_status p") (auto simp: panel_offers_def VotingPanel_def VoteActions_def Let_def)

lemma panel_support_iff: "panel_offers act_support (VotingPanel env v p) \<longleftrightarrow> rec_status p = Supporting"
  by (cases "rec_status p") (auto simp: panel_offers_def VotingPanel_def VoteActions_def SupportButton_def Let_def)

text \<open>Buttons that can be pressed.\<close>

fun block_enabled :: "detail_block \<Rightarrow> bool" where
  "block_enabled (BlkSection s) \<longleftrightarrow> (case sec_button s of Some b \<Rightarrow> \<not> sb_disabled b | None \<Rightarrow> False)"
| "block_enabled (BlkCastVote e) \<longleftrightarrow> e"
| "block_enabled _ \<longleftrightarrow> False"

definition support_enabled :: "support_button option \<Rightarrow> bool" where
  "support_enabled b \<longleftrightarrow> (case b of Some b \<Rightarrow> \<not> sb_disabled b | None \<Rightarrow> False)"

definition panel_enabled :: "panel_content \<Rightarrow> bool" where
  "panel_enabled c \<longleftrightarrow> (case panel_actions c of None \<Rightarrow> False
     | Some a \<Rightarrow> support_enabled (act_support a) \<or> (case act_vote a of Some b \<Rightarrow> \<not> vb_disabled b | None \<Rightarrow> False))"

definition may_support :: "visitor \<Rightarrow> bool" where
  "may_support v \<longleftrightarrow> wc_connected (vis_wallet v) \<and> vis_role v \<in> {RoleValidator, RoleBoth} \<and> vis_hasSupported v \<noteq> Some True"

lemma SupportButton_enabledD:
  "support_enabled (SupportButton (vis_wallet v) (vis_role v) (vis_hasSupported v) l i s d) \<Longrightarrow> may_support v \<and> \<not> l \<and> \<not> d"
  by (auto simp: support_enabled_def SupportButton_def may_support_def Let_def split: if_splits)

lemma page_enabled_connected:
  "b \<in> set (ProposalDetailView env config v scr p) \<Longrightarrow> block_enabled b \<Longrightarrow> wc_connected (vis_wallet v)"
  using SupportButton_enabledD [of v]
  by (auto simp: detail_defs CastVoteWrapper_enabled_def may_support_def support_enabled_def split: if_splits option.splits)

lemma page_support_enabled:
  "b \<in> set (ProposalDetailView env config v scr p) \<Longrightarrow> offers_support b \<Longrightarrow> block_enabled b \<Longrightarrow> may_support v"
  using SupportButton_enabledD [of v]
  by (auto simp: detail_defs support_enabled_def split: if_splits option.splits)

lemma panel_enabled_connected: "panel_enabled (VotingPanel env v p) \<Longrightarrow> wc_connected (vis_wallet v)"
  by (auto simp: panel_enabled_def VotingPanel_def VoteActions_def panel_buttons_disabled_def support_enabled_def
      SupportButton_def Let_def split: if_splits)

definition offered_by_status :: "chain_env \<Rightarrow> governance_config_dto option \<Rightarrow> panel_visitor \<Rightarrow> screen \<Rightarrow> proposal_record \<Rightarrow> bool" where
  "offered_by_status env config v scr p \<longleftrightarrow>
     (let page = ProposalDetailView env config (visitor.truncate v) scr (Some p); panel = VotingPanel env v p; status = rec_status p in
      length (filter offers_support page) = (if status = Supporting then 1 else 0) \<and>
      (panel_offers act_support panel \<longleftrightarrow> status = Supporting) \<and>
      (getProposalAction status = Some ActSupport \<longleftrightarrow> status = Supporting) \<and>
      length (filter offers_vote page) = (if status = Voting \<and> md_up scr \<or> status = Finalized \<and> \<not> md_up scr then 1 else 0) \<and>
      (panel_offers act_vote panel \<longleftrightarrow> status = Voting) \<and>
      (getProposalAction status = Some ActCastVote \<longleftrightarrow> status = Voting) \<and>
      (BlkTopSupporters \<in> set page \<longleftrightarrow> status \<in> {Supporting, Discussion, Failed}) \<and>
      (BlkTopVoters \<in> set page \<longleftrightarrow> status \<in> {Voting, Finalized}))"

lemma action_iff:
  "getProposalAction s = Some ActSupport \<longleftrightarrow> s = Supporting" "getProposalAction s = Some ActCastVote \<longleftrightarrow> s = Voting"
  by (cases s; simp)+

lemma page_tables:
  "BlkTopSupporters \<in> set (ProposalDetailView env config v scr (Some p)) \<longleftrightarrow> rec_status p \<in> {Supporting, Discussion, Failed}"
  "BlkTopVoters \<in> set (ProposalDetailView env config v scr (Some p)) \<longleftrightarrow> rec_status p \<in> {Voting, Finalized}"
  by (cases "rec_status p"; simp add: detail_defs)+

text \<open>C29. Every place that offers the actions of a proposal offers those of its status.  The page of the proposal,
  the panel in the table and the card offer to support it exactly while it gathers support, the page once on every
  screen.  The panel and the card offer to vote exactly while it is in voting; the page does from the \<open>md\<close> width
  on, while below that width it shows its vote buttons for a finalized proposal instead.  Supporters are listed before
  voting, voters from then on.  Without a connected wallet no button of the page or of the panel can be pressed, and
  the page enables its support button only for a validator who is not known to have supported the proposal.\<close>

theorem page_actions_follow_status:
  "offered_by_status env config v scr p \<and>
   (\<not> wc_connected (vis_wallet v) \<longrightarrow>
      \<not> list_ex block_enabled (ProposalDetailView env config (visitor.truncate v) scr (Some p)) \<and> \<not> panel_enabled (VotingPanel env v p)) \<and>
   (list_ex (\<lambda>b. offers_support b \<and> block_enabled b) (ProposalDetailView env config (visitor.truncate v) scr (Some p)) \<longrightarrow>
      rec_status p = Supporting \<and> may_support (visitor.truncate v))"
proof (intro conjI impI)
  show "offered_by_status env config v scr p"
    by (simp add: offered_by_status_def Let_def page_support_count page_vote_count panel_vote_iff panel_support_iff action_iff page_tables)
next
  assume "\<not> wc_connected (vis_wallet v)"
  then show "\<not> list_ex block_enabled (ProposalDetailView env config (visitor.truncate v) scr (Some p))"
    "\<not> panel_enabled (VotingPanel env v p)"
    using page_enabled_connected [of _ env config "visitor.truncate v" scr "Some p"] panel_enabled_connected [of env v p]
    by (auto simp: list_ex_iff visitor.defs)
next
  assume "list_ex (\<lambda>b. offers_support b \<and> block_enabled b) (ProposalDetailView env config (visitor.truncate v) scr (Some p))"
  then obtain b where b: "b \<in> set (ProposalDetailView env config (visitor.truncate v) scr (Some p))" "offers_support b" "block_enabled b"
    by (auto simp: list_ex_iff)
  then show "may_support (visitor.truncate v)" by (rule page_support_enabled)
  have "filter offers_support (ProposalDetailView env config (visitor.truncate v) scr (Some p)) \<noteq> []"
    using b(1,2) by (auto simp: filter_empty_conv)
  then show "rec_status p = Supporting" using page_support_count [of env config "visitor.truncate v" scr p]
    by (auto split: if_splits)
qed

definition sample_visitor :: "bool \<Rightarrow> panel_visitor" where
  "sample_visitor c =
     \<lparr>vis_wallet = \<lparr>wc_publicKey = Some (PublicKey [1]), wc_connected = c\<rparr>, vis_role = RoleValidator,
      vis_hasSupported = Some False, vis_isLoadingSupported = False, pv_isLoadingVoteIdentity = False, pv_chainVoteAccount = None\<rparr>"

definition supporting_record :: proposal_record where
  "supporting_record = voting_record\<lparr>rec_status := Supporting, rec_voting := False\<rparr>"

lemma sample_support_enabled:
  "list_ex (\<lambda>b. offers_support b \<and> block_enabled b)
     (ProposalDetailView (sample_env True) None (visitor.truncate (sample_visitor True)) ScrMd (Some supporting_record))"
  by (simp add: detail_defs SupportButton_def supporting_record_def voting_record_def sample_visitor_def visitor.defs md_up_def xl_up_def is_set_def)

theorem page_actions_follow_status_witness:
  "\<not> list_ex block_enabled (ProposalDetailView (sample_env True) None (visitor.truncate (sample_visitor False)) ScrMd (Some voting_record)) \<and>
   \<not> panel_enabled (VotingPanel (sample_env True) (sample_visitor False) voting_record) \<and>
   may_support (visitor.truncate (sample_visitor True)) \<and>
   length (filter offers_vote (ProposalDetailView (sample_env True) None (visitor.truncate (sample_visitor True)) ScrSm (Some voting_record))) = 0"
  using page_actions_follow_status [of "sample_env True" None "sample_visitor False" ScrMd voting_record]
    page_actions_follow_status [of "sample_env True" None "sample_visitor True" ScrMd supporting_record]
    page_actions_follow_status [of "sample_env True" None "sample_visitor True" ScrSm voting_record] sample_support_enabled
  by (simp add: sample_visitor_def visitor.defs offered_by_status_def Let_def voting_record_def md_up_def)

subsection \<open>The figures of the support phase\<close>

definition says_reached :: "support_progress \<Rightarrow> bool" where
  "says_reached s \<longleftrightarrow> sd_center (sp_donut s) = ThresholdReached"

definition announces_reached :: "support_progress \<Rightarrow> bool" where
  "announces_reached s \<longleftrightarrow> (case sp_notification s of Some (label, _) \<Rightarrow> label = js ''Threshold Met'' | None \<Rightarrow> False)"

definition recorded_crossing :: "proposal_record \<Rightarrow> bool" where
  "recorded_crossing p \<longleftrightarrow> rec_voting p \<or> rec_finalized p"

lemma progress_view:
  "says_reached (SupportPhaseProgress q p) \<longleftrightarrow> isThresholdMet (progress_stats q p)"
  "announces_reached (SupportPhaseProgress q p) \<longleftrightarrow> isThresholdMet (progress_stats q p)"
  "sp_notification (SupportPhaseProgress q p) = None \<longleftrightarrow>
     \<not> isThresholdMet (progress_stats q p) \<and> \<not> Num 80 \<le> progressPercent (progress_stats q p)"
  by (auto simp: says_reached_def announces_reached_def SupportPhaseProgress_def SupportDonut_def NotificationButton_def js_def Let_def)

lemma progress_crossed:
  "recorded_crossing p \<Longrightarrow> isThresholdMet (progress_stats q p)"
  by (auto simp: progress_stats_def computeSupportStats_def recorded_crossing_def Let_def)

lemma zero_times_not_pos: "\<not> Num 0 < Num 0 * x"
  by (cases x) (auto simp: to_double_def Let_def)

lemma progress_unloaded:
  assumes "\<not> recorded_crossing p" "pq_validators q = None"
  shows "\<not> isThresholdMet (progress_stats q p) \<and> progressPercent (progress_stats q p) = Num 0"
  using assms zero_times_not_pos
  by (auto simp: progress_stats_def computeSupportStats_def recorded_crossing_def or_zero_def Let_def)

lemma capped_fraction:
  assumes "x \<noteq> NaN"
  shows "math_min x (Num 100) / Num 100 \<noteq> NaN \<and> math_min x (Num 100) / Num 100 \<le> Num 1"
proof -
  have one: "to_double 1 = Num 1" using to_double_of_int [of 1] by simp
  have f1: "fl 1 = 1" using fl_of_int [of 1] by simp
  have fin: "to_double (r / 100) \<noteq> NaN \<and> to_double (r / 100) \<le> Num 1" if "r \<le> 100" for r
    using that fl_mono [of "r / 100" 1] f1 safe_below_overflow by (auto simp: to_double_def Let_def)
  show ?thesis
  proof (cases x)
    case (Num r)
    then show ?thesis using fin [of r] fin [of 100] by (simp add: math_min_def)
  qed (use assms one in \<open>simp_all add: math_min_def\<close>)
qed

lemma progress_not_NaN:
  assumes "rec_clusterSupportLamports p = Num s"
  shows "progressPercent (progress_stats q p) \<noteq> NaN"
  using assms ratio_not_NaN [of _ s]
  by (auto simp: progress_stats_def computeSupportStats_def math_max_def Let_def)

text \<open>C40. The page of the support phase never contradicts the account.  For a proposal whose support is a finite
  number: once the account records that the threshold was crossed, the ring and the notification both say so, whatever
  stake the node reports; before that they say so exactly when stake is known and the support is at least the required
  part of it, and while the validators are still loading nothing is announced.  The ring and the notification always
  agree, and the arc of the ring is a fraction of at most one.\<close>

theorem support_progress_sound:
  assumes "rec_clusterSupportLamports p = Num s"
  shows "let view = SupportPhaseProgress q p; stats = progress_stats q p in
    (recorded_crossing p \<longrightarrow> says_reached view) \<and>
    (\<not> recorded_crossing p \<longrightarrow>
       (says_reached view \<longleftrightarrow> Num 0 < ss_totalStakedLamports stats \<and> requiredThresholdLamports stats \<le> rec_clusterSupportLamports p)) \<and>
    (\<not> recorded_crossing p \<and> pq_validators q = None \<longrightarrow> \<not> says_reached view \<and> sp_notification view = None) \<and>
    (announces_reached view \<longleftrightarrow> says_reached view) \<and>
    sd_displayPercent (sp_donut view) \<noteq> NaN \<and> sd_displayPercent (sp_donut view) \<le> Num 1"
proof -
  have d: "sd_displayPercent (sp_donut (SupportPhaseProgress q p)) = math_min (progressPercent (progress_stats q p)) (Num 100) / Num 100"
    by (simp add: SupportPhaseProgress_def SupportDonut_def Let_def)
  have live: "\<not> recorded_crossing p \<Longrightarrow> isThresholdMet (progress_stats q p) \<longleftrightarrow>
      Num 0 < ss_totalStakedLamports (progress_stats q p) \<and> requiredThresholdLamports (progress_stats q p) \<le> rec_clusterSupportLamports p"
    by (auto simp: progress_stats_def computeSupportStats_def recorded_crossing_def Let_def)
  have unloaded: "sp_notification (SupportPhaseProgress q p) = None" if "\<not> recorded_crossing p" "pq_validators q = None"
    using progress_unloaded [OF that] by (simp add: progress_view)
  show ?thesis
    using live progress_crossed [of p q] progress_unloaded [of p q] unloaded capped_fraction [OF progress_not_NaN [OF assms, of q]]
    by (simp add: progress_view d Let_def)
qed

definition sample_queries :: progress_queries where
  "sample_queries = \<lparr>pq_config = None, pq_isLoadingConfig = False, pq_isPendingConfig = False, pq_validators = None,
     pq_isLoadingValidators = True, pq_supportAccounts = None, pq_isLoadingSupportAccounts = False, pq_supportEndsAt = None,
     pq_isLoadingEpochDate = False, pq_discussionEndsAt = None, pq_isLoadingDiscussionEpochDate = False\<rparr>"

theorem support_progress_sound_witness:
  "says_reached (SupportPhaseProgress sample_queries voting_record) \<and>
   \<not> says_reached (SupportPhaseProgress sample_queries supporting_record) \<and>
   sp_notification (SupportPhaseProgress sample_queries supporting_record) = None"
proof -
  have "rec_clusterSupportLamports voting_record = Num 0" "recorded_crossing voting_record"
    "rec_clusterSupportLamports supporting_record = Num 0" "\<not> recorded_crossing supporting_record" "pq_validators sample_queries = None"
    by (simp_all add: voting_record_def supporting_record_def recorded_crossing_def sample_queries_def)
  then show ?thesis
    using support_progress_sound [of voting_record 0 sample_queries] support_progress_sound [of supporting_record 0 sample_queries]
    unfolding Let_def by blast
qed

subsection \<open>The dashboard shows one view\<close>

lemma role_reachable_inv:
  "role_reachable st \<Longrightarrow> rs_walletRole st \<noteq> RoleNone \<and> rs_selectedView st \<noteq> None \<and>
     (rs_walletRole st = RoleBoth \<or> rs_selectedView st = getDefaultView (rs_walletRole st))"
proof (induction rule: role_reachable.induct)
  case reach_init
  show ?case by (simp add: initial_role_def getDefaultView_def)
next
  case (reach_effect st isLoading stake_accounts chainVoteAccount)
  then show ?case by (auto simp: role_effect_def determineWalletRole_def getDefaultView_def Let_def split: option.splits)
next
  case (reach_toggle st isLoading view)
  then show ?case by (simp add: GovernanceDashboardLayout_def Let_def)
qed

text \<open>At every moment the dashboard shows either the view of a validator or that of a staker, under the heading
  of the view it shows, with the statistics of it, and lets the visitor switch exactly when the wallet is both.\<close>

lemma dashboard_shows_one_view:
  assumes "role_reachable st"
  shows "let d = GovernanceDashboardLayout st isLoading in
    (dl_showValidatorView d \<longleftrightarrow> \<not> dl_showStakerView d) \<and> dl_showStats d \<and>
    (dl_canToggle d \<longleftrightarrow> rs_walletRole st = RoleBoth) \<and>
    (\<not> isLoading \<longrightarrow> dl_heading d = Some (if dl_showValidatorView d then js ''Validator'' else js ''Staker''))"
  using role_reachable_inv [OF assms]
  by (cases "rs_walletRole st"; cases "the (rs_selectedView st)") (auto simp: GovernanceDashboardLayout_def getDefaultView_def Let_def)

subsection \<open>Stage indicators\<close>

text \<open>The dots of the header and the bar of the panel light the stages up to the current one; a failed proposal
  lights the first dot of the header and nothing of the bar.\<close>

definition lit :: "bool list \<Rightarrow> nat" where
  "lit bs = length (takeWhile id bs)"

lemma stage_indicators:
  "s \<noteq> Failed \<Longrightarrow> li_dots (LifecycleIndicator config s) = LifecycleStageBar s"
  "s \<noteq> Failed \<Longrightarrow> LifecycleStageBar s = map (\<lambda>t. status_rank t \<le> status_rank s) STAGE_ORDER"
  "lit (li_dots (LifecycleIndicator config Failed)) = 1" "lit (LifecycleStageBar Failed) = 0"
  by (cases s; simp add: LifecycleIndicator_def LifecycleStageBar_def status_indexOf_def STAGE_ORDER_def lit_def upt_rec Let_def)+

end
