(* ===== verification/Table_Cells.thy ===== *)
theory Table_Cells
  imports Validator_Tables Modal_Flow Proposal_Views
begin

text \<open>
  The tables around accounts and voters: the state of the table of vote accounts with its drawer
  (\<open>governance/validator/VoteAccountsTable.tsx\<close>), the controls of the filters (\<open>shared/TableFilters.tsx\<close>,
  \<open>shared/AccountFilterModal.tsx\<close>), the expanded rows of the table of stake accounts
  (\<open>staker/StakeAccountsTable.tsx\<close>) and what such a row shows (\<open>staker/StakeAccountVoteProposals.tsx\<close>), the
  cells of the tables (\<open>ValidatorColumns.tsx\<close>, \<open>StakerColumns.tsx\<close>, \<open>TopSupportersColumns.tsx\<close>), the
  picture of a validator (\<open>ValidatorLogo.tsx\<close>), copying to the clipboard (\<open>hooks/useCopyToClipboard.ts\<close>)
  and the overlap of labels (\<open>hooks/useCollision.ts\<close>).  Sorting and pages belong to the table library.
\<close>

section \<open>The table of vote accounts\<close>

record vote_table =
  vat_searchValue :: jsstr
  vat_stakeSizeFilter :: jsstr
  vat_selectedRow :: "old_vote_account_data option"
  vat_drawerOpen :: bool
  vat_filterModalOpen :: bool

definition vote_table_init :: vote_table where
  "vote_table_init = \<lparr>vat_searchValue = [], vat_stakeSizeFilter = js ''All'', vat_selectedRow = None, vat_drawerOpen = False,
     vat_filterModalOpen = False\<rparr>"

definition vote_handleReset :: "vote_table \<Rightarrow> vote_table" where
  "vote_handleReset st = st\<lparr>vat_searchValue := [], vat_stakeSizeFilter := js ''All''\<rparr>"

definition handleRowClick :: "nat \<Rightarrow> old_vote_account_data \<Rightarrow> vote_table \<Rightarrow> vote_table" where
  "handleRowClick innerWidth rowData st =
     (if innerWidth < 640 then st\<lparr>vat_selectedRow := Some rowData, vat_drawerOpen := True\<rparr> else st)"

text \<open>The dialog of the filters changes the filters as they are chosen; its two buttons only close it.\<close>

definition filter_modal_apply :: "vote_table \<Rightarrow> vote_table" where
  "filter_modal_apply st =
     (let onClose = (\<lambda>s. s\<lparr>vat_filterModalOpen := False\<rparr>); onApply = (\<lambda>s. s\<lparr>vat_filterModalOpen := False\<rparr>)
      in onClose (onApply st))"

datatype vote_table_action =
    VtSearch jsstr
  | VtStakeSize jsstr
  | VtReset
  | VtRowClick nat old_vote_account_data
  | VtDrawer bool
  | VtOpenFilters
  | VtCancelFilters
  | VtApplyFilters

fun vote_table_step :: "vote_table \<Rightarrow> vote_table_action \<Rightarrow> vote_table" where
  "vote_table_step st (VtSearch s) = st\<lparr>vat_searchValue := s\<rparr>"
| "vote_table_step st (VtStakeSize v) = st\<lparr>vat_stakeSizeFilter := v\<rparr>"
| "vote_table_step st VtReset = vote_handleReset st"
| "vote_table_step st (VtRowClick w row) = handleRowClick w row st"
| "vote_table_step st (VtDrawer open') = st\<lparr>vat_drawerOpen := open'\<rparr>"
| "vote_table_step st VtOpenFilters = st\<lparr>vat_filterModalOpen := True\<rparr>"
| "vote_table_step st VtCancelFilters = st\<lparr>vat_filterModalOpen := False\<rparr>"
| "vote_table_step st VtApplyFilters = filter_modal_apply st"

definition activeFilterCount :: "jsstr list \<Rightarrow> nat" where
  "activeFilterCount values =
     length (filter (\<lambda>v. v \<noteq> [] \<and> v \<noteq> js ''all'' \<and> v \<noteq> js ''All'' \<and> v \<noteq> []) values)"

text \<open>The body of the table; the rows of the page are what the table library makes of the filtered rows.\<close>

datatype 'r table_body = BodySkeleton nat | BodyNoResults | BodyRows "'r list"

definition vote_table_body ::
  "chain_env \<Rightarrow> (old_vote_account_data list \<Rightarrow> old_vote_account_data list) \<Rightarrow> bool \<Rightarrow> vote_join option \<Rightarrow> vote_table \<Rightarrow>
   old_vote_account_data table_body" where
  "vote_table_body env rowModel isLoading joined st =
     (if isLoading then BodySkeleton 4
      else let rows = rowModel (vote_filteredData env (vat_searchValue st) (vat_stakeSizeFilter st) (vote_table_data joined))
           in if rows = [] then BodyNoResults else BodyRows rows)"

definition drawer_rows :: "chain_env \<Rightarrow> vote_table \<Rightarrow> (jsstr \<times> shown) list" where
  "drawer_rows env st =
     (case vat_selectedRow st of None \<Rightarrow> []
      | Some r \<Rightarrow>
          [(js ''Vote Account'', ShownText (formatAddress (toBase58 env (ova_voteAccount r)) 8)),
           (js ''Identity'', ShownText (case ova_identity r of Some i \<Rightarrow> formatAddress (toBase58 env i) 8 | None \<Rightarrow> js ''-'')),
           (js ''Delegated Stake'', ShownText (ld_value (formatLamportsDisplay (Some (ova_activeStake r))))),
           (js ''Commission'', ShownText (formatCommission (Some (ova_commission r)))),
           (js ''Last Vote'', formatOptionalCount (Some (ova_lastVote r))),
           (js ''Credits'', formatOptionalCount (ova_credits r))])"

definition vote_row_cells :: "chain_env \<Rightarrow> old_vote_account_data \<Rightarrow> (jsstr \<times> shown) list" where
  "vote_row_cells env r =
     (let identity = (case ova_identity r of Some i \<Rightarrow> toBase58 env i | None \<Rightarrow> []);
          cellValue = (if identity = [] then (case ova_name r of Some n \<Rightarrow> n | None \<Rightarrow> []) else formatAddress identity 6)
      in [(js ''voteAccount'', ShownText (formatAddress (toBase58 env (ova_voteAccount r)) 4)),
          (js ''identity'', ShownText (if cellValue = [] then js ''-'' else cellValue)),
          (js ''activeStake'', ShownText (ld_value (formatLamportsDisplay (Some (ova_activeStake r))))),
          (js ''commission'', ShownText (formatCommission (Some (ova_commission r)))),
          (js ''lastVote'', formatOptionalCount (Some (ova_lastVote r))),
          (js ''credits'', formatOptionalCount (ova_credits r))])"

definition vote_mobileHidden :: "jsstr \<Rightarrow> bool" where
  "vote_mobileHidden columnId \<longleftrightarrow> columnId \<in> set (map js [''identity'', ''commission'', ''lastVote'', ''credits''])"

section \<open>The table of stake accounts\<close>

text \<open>The record of the expanded rows in the order of its entries, and the callback for the table library that
  leaves one row open.  The updater is a function of the previous record or the next record itself.\<close>

type_synonym expanded_state = "(jsstr \<times> bool) list"

definition expanded_getIsExpanded :: "expanded_state \<Rightarrow> jsstr \<Rightarrow> bool" where
  "expanded_getIsExpanded state rowId \<longleftrightarrow> map_of state rowId = Some True"

definition handleExpandedChange :: "(expanded_state \<Rightarrow> expanded_state) \<Rightarrow> expanded_state \<Rightarrow> expanded_state" where
  "handleExpandedChange updater previous =
     (let nextState = updater previous;
          openEntries = filter snd nextState
      in case openEntries of
           [] \<Rightarrow> []
         | first # _ \<Rightarrow>
             let newlyOpened = List.find (\<lambda>e. \<not> expanded_getIsExpanded previous (fst e)) openEntries;
                 rowId = fst (case newlyOpened of Some e \<Rightarrow> e | None \<Rightarrow> first)
             in [(rowId, True)])"

fun stateStyles_label :: "jsstr \<Rightarrow> jsstr option" where
  "stateStyles_label s =
     map_of [(js ''delegated'', js ''Delegated''), (js ''initialized'', js ''Initialized''), (js ''inactive'', js ''Inactive''),
             (js ''deactivating'', js ''Deactivating''), (js ''cooldown'', js ''Cooldown'')] s"

definition stake_row_cells :: "stake_account_data \<Rightarrow> (jsstr \<times> jsstr option) list" where
  "stake_row_cells r =
     [(js ''stakeAccount'', Some (formatAddress (sa_stakeAccount r) 4)),
      (js ''activeStake'', Some (ld_value (formatLamportsDisplay (Some (sa_activeStake r))))),
      (js ''voteAccount'', Some (case sa_voteAccount r of Some v \<Rightarrow> if v = [] then js ''-'' else formatAddress v 8 | None \<Rightarrow> js ''-'')),
      (js ''state'', stateStyles_label (if sa_state r = [] then js ''initialized'' else sa_state r))]"

text \<open>What an expanded row shows.  An entry has the page of the proposal, its status, the three percentages
  of the vote, the amount and the start of the identifier; a number too large for the platform throws.\<close>

record vote_entry =
  ven_path :: jsstr
  ven_status :: jsstr
  ven_percents :: "jsstr list"
  ven_total :: jsstr
  ven_voteId :: jsstr

datatype vote_proposals_view =
    VpvLoading
  | VpvError jsstr
  | VpvEmpty jsstr
  | VpvList jsstr "vote_entry list"

definition vote_entry_of :: "chain_env \<Rightarrow> vote_proposal_data \<Rightarrow> js_error + vote_entry" where
  "vote_entry_of env d =
     (let v = vpd_voteAccount d; percent = (\<lambda>x. number_to_string (x / Num 100) @ js ''%'') in
      res_bind (bn_toNumber env (vo_forVotesBp v)) (\<lambda>f.
      res_bind (bn_toNumber env (vo_againstVotesBp v)) (\<lambda>a.
      res_bind (bn_toNumber env (vo_abstainVotesBp v)) (\<lambda>b.
      res_bind (bn_toNumber env (vo_stakeAmount v)) (\<lambda>amount.
        Inr \<lparr>ven_path = getProposalDetailPagePath (toBase58 env (rec_publicKey (vpd_proposal d))),
             ven_status = status_string (rec_status (vpd_proposal d)),
             ven_percents = [percent f @ js '' For'', percent a @ js '' Against'', percent b @ js '' Abstain''],
             ven_total = ld_value (formatLamportsDisplay (Some (or_zero amount))),
             ven_voteId = take 8 (vpd_votePublicKey d) @ js ''...''\<rparr>)))))"

definition StakeAccountVoteProposals ::
  "chain_env \<Rightarrow> stake_account_data \<Rightarrow> vote_proposal_data list option \<Rightarrow> bool \<Rightarrow> jsstr option \<Rightarrow> js_error + vote_proposals_view" where
  "StakeAccountVoteProposals env stakeAccount voteProposals isLoading error =
     (if isLoading then Inr VpvLoading
      else case error of
        Some message \<Rightarrow> Inr (VpvError (js ''Error loading vote proposals: '' @ message))
      | None \<Rightarrow>
          (case voteProposals of
             Some (d # ds) \<Rightarrow>
               res_bind (res_map (vote_entry_of env) (d # ds)) (\<lambda>entries.
                 Inr (VpvList (case sa_voteAccount stakeAccount of Some v \<Rightarrow> if v = [] then js ''Unknown'' else formatAddress v 8
                               | None \<Rightarrow> js ''Unknown'') entries))
           | _ \<Rightarrow> Inr (VpvEmpty (if is_set (sa_voteAccount stakeAccount)
                then js ''No vote proposals found for this stake account's delegated validator.''
                else js ''This stake account is not delegated to a validator.''))))"

section \<open>Voters and supporters\<close>

definition UNKNOWN_VALUE :: jsstr where
  "UNKNOWN_VALUE = [8212]"

definition supporter_cells :: "top_supporter \<Rightarrow> (jsstr \<times> jsstr) list" where
  "supporter_cells r =
     [(js ''validatorName'', ts_validatorName r),
      (js ''validatorIdentity'', formatAddress (ts_validatorIdentity r) 6),
      (js ''stakedLamports'', case ts_stakedLamports r of None \<Rightarrow> UNKNOWN_VALUE | Some l \<Rightarrow> ld_value (formatLamportsDisplay (Some l))),
      (js ''stakePercentage'', case ts_stakePercentage r of None \<Rightarrow> UNKNOWN_VALUE | Some x \<Rightarrow> toFixed 2 x @ js ''%'')]"

definition voter_split_cell :: "chain_env \<Rightarrow> top_voter \<Rightarrow> js_error + jsstr list" where
  "voter_split_cell env r =
     (let percent = (\<lambda>x label. number_to_string (x / Num 100) @ js ''% '' @ js label) in
      res_bind (bn_toNumber env (tv_forVotesBp r)) (\<lambda>f.
      res_bind (bn_toNumber env (tv_againstVotesBp r)) (\<lambda>a.
      res_bind (bn_toNumber env (tv_abstainVotesBp r)) (\<lambda>b.
        Inr [percent f ''For'', percent a ''Against'', percent b ''Abstain'']))))"

datatype sorted_by = SortedAsc | SortedDesc | NotSorted

text \<open>A header passes to the library whether to sort downwards, and draws an arrow: upwards or not, and faint
  or not.\<close>

definition SortableHeaderButton_desc :: "sorted_by \<Rightarrow> bool" where
  "SortableHeaderButton_desc s \<longleftrightarrow> s = SortedAsc"

definition SortableHeaderButton_arrow :: "sorted_by \<Rightarrow> bool \<times> bool" where
  "SortableHeaderButton_arrow s =
     (if s = SortedAsc then (True, False) else if s = SortedDesc then (False, False) else (True, True))"

text \<open>The picture of a validator: a letter, or the image with a placeholder until it has loaded.\<close>

record logo_state =
  lg_failed :: bool
  lg_loaded :: bool

datatype logo_event = ImgLoad | ImgError

datatype logo_view = LogoLetter jsstr | LogoImage jsstr bool

definition logo_init :: logo_state where
  "logo_init = \<lparr>lg_failed = False, lg_loaded = False\<rparr>"

fun logo_step :: "logo_state \<Rightarrow> logo_event \<Rightarrow> logo_state" where
  "logo_step st ImgLoad = st\<lparr>lg_loaded := True\<rparr>"
| "logo_step st ImgError = st\<lparr>lg_failed := True\<rparr>"

definition ValidatorLogoImage :: "jsstr \<Rightarrow> jsstr \<Rightarrow> logo_state \<Rightarrow> logo_view" where
  "ValidatorLogoImage img name st = (if lg_failed st then LogoLetter (take 1 name) else LogoImage img (lg_loaded st))"

definition ValidatorLogo :: "jsstr \<Rightarrow> jsstr option \<Rightarrow> logo_state \<Rightarrow> logo_view" where
  "ValidatorLogo name img st =
     (case img of Some i \<Rightarrow> if i = [] then LogoLetter (take 1 name) else ValidatorLogoImage i name st
      | None \<Rightarrow> LogoLetter (take 1 name))"

section \<open>Copying to the clipboard\<close>

text \<open>The flag and the deadlines of the timers that will clear it, oldest first.  A copy is recorded when the
  platform has answered: with the text asked for, whether the write succeeded, and the time of the answer.\<close>

record clipboard =
  cb_copied :: bool
  cb_timers :: "nat list"

datatype clipboard_event = CopyAnswered jsstr bool nat | TimerFires

definition clipboard_init :: clipboard where
  "clipboard_init = \<lparr>cb_copied = False, cb_timers = []\<rparr>"

definition copyToClipboard :: "nat \<Rightarrow> jsstr \<Rightarrow> bool \<Rightarrow> nat \<Rightarrow> clipboard \<Rightarrow> clipboard" where
  "copyToClipboard duration text written now st =
     (if text = [] then st
      else if written then st\<lparr>cb_copied := True, cb_timers := cb_timers st @ [now + duration]\<rparr>
      else st)"

fun clipboard_step :: "nat \<Rightarrow> clipboard \<Rightarrow> clipboard_event \<Rightarrow> clipboard" where
  "clipboard_step d st (CopyAnswered text written now) = copyToClipboard d text written now st"
| "clipboard_step d st TimerFires =
     (case cb_timers st of [] \<Rightarrow> st | t # ts \<Rightarrow> st\<lparr>cb_copied := False, cb_timers := ts\<rparr>)"

section \<open>Labels that overlap\<close>

record rect =
  r_left :: number
  r_right :: number
  r_top :: number
  r_bottom :: number

definition isOverlapping :: "rect \<Rightarrow> rect \<Rightarrow> bool" where
  "isOverlapping fixed r \<longleftrightarrow>
     (let BUFFER = Num 2 in
      \<not> (r_right r < r_left fixed - BUFFER \<or> r_left r > r_right fixed + BUFFER \<or>
         r_bottom r < r_top fixed - BUFFER \<or> r_top r > r_bottom fixed + BUFFER))"

definition checkCollisions :: "rect option \<Rightarrow> rect option list \<Rightarrow> nat list \<Rightarrow> nat list" where
  "checkCollisions fixed moving previous =
     (case fixed of None \<Rightarrow> previous
      | Some f \<Rightarrow> map fst (filter (\<lambda>(i, r). case r of None \<Rightarrow> False | Some r \<Rightarrow> isOverlapping f r) (enumerate 0 moving)))"

definition isColliding :: "nat list \<Rightarrow> bool" where
  "isColliding collidingIndices \<longleftrightarrow> 0 < length collidingIndices"

section \<open>Laws\<close>

subsection \<open>A session of the table of vote accounts\<close>

definition vote_table_run :: "vote_table_action list \<Rightarrow> vote_table" where
  "vote_table_run acts = foldl vote_table_step vote_table_init acts"

lemma vote_table_run_simps [simp]:
  "vote_table_run [] = vote_table_init" "vote_table_run (as @ [a]) = vote_table_step (vote_table_run as) a"
  by (simp_all add: vote_table_run_def)

lemmas vote_table_ops = vote_handleReset_def handleRowClick_def filter_modal_apply_def vote_table_init_def

text \<open>The drawer shows only a row that was clicked while the window was narrow.\<close>

lemma drawer_row_clicked:
  "vat_selectedRow (vote_table_run acts) = Some r \<Longrightarrow> \<exists>w < 640. VtRowClick w r \<in> set acts"
proof (induction acts rule: rev_induct)
  case (snoc a acts)
  then show ?case by (cases a) (auto simp: vote_table_ops split: if_splits)
qed (simp add: vote_table_ops)

text \<open>Closing the dialog of the filters by either button leaves the filters as chosen.\<close>

lemma filter_dialog_buttons_agree: "vote_table_step st VtCancelFilters = vote_table_step st VtApplyFilters"
  by (simp add: vote_table_ops Let_def)

lemma vote_filteredData_iff:
  "r \<in> set (vote_filteredData env needle sz rows) \<longleftrightarrow>
     r \<in> set rows \<and> (needle \<noteq> [] \<longrightarrow> str_includes (toLowerCase (toBase58 env (ova_voteAccount r))) (toLowerCase needle)) \<and>
     (sz \<noteq> js ''All'' \<longrightarrow> parseFloat sz * Num 1000000000 \<le> ova_activeStake r)"
  by (auto simp: vote_filteredData_def Let_def)

text \<open>Whatever the visitor does, for a table library that only orders and pages the rows it is given, the rows shown
  are rows of the data that match the search and the chosen size; after a reset no row is held back.\<close>

lemma vote_table_shows:
  assumes "\<And>rows. set (rowModel rows) \<subseteq> set rows"
    and "vote_table_body env rowModel isLoading joined (vote_table_run acts) = BodyRows rows" and "r \<in> set rows"
  shows "r \<in> set (vote_table_data joined) \<and>
    (let st = vote_table_run acts in
      (vat_searchValue st \<noteq> [] \<longrightarrow> str_includes (toLowerCase (toBase58 env (ova_voteAccount r))) (toLowerCase (vat_searchValue st))) \<and>
      (vat_stakeSizeFilter st \<noteq> js ''All'' \<longrightarrow> parseFloat (vat_stakeSizeFilter st) * Num 1000000000 \<le> ova_activeStake r))"
proof -
  have "r \<in> set (vote_filteredData env (vat_searchValue (vote_table_run acts)) (vat_stakeSizeFilter (vote_table_run acts)) (vote_table_data joined))"
    using assms by (auto simp: vote_table_body_def Let_def split: if_splits)
  then show ?thesis by (auto simp: vote_filteredData_iff Let_def)
qed

lemma vote_table_reset:
  "vote_table_body env rowModel False joined (vote_table_run (acts @ [VtReset])) =
     (let rows = rowModel (vote_table_data joined) in if rows = [] then BodyNoResults else BodyRows rows)"
  by (simp add: vote_table_body_def vote_table_ops vote_filteredData_def Let_def)

text \<open>The badge counts the filters that hold rows back.\<close>

lemma activeFilterCount_sizes:
  "set values \<subseteq> set stakeSizeOptions \<Longrightarrow> activeFilterCount values = length (filter (\<lambda>v. v \<noteq> js ''All'') values)"
  unfolding activeFilterCount_def
  by (intro arg_cong [where f = length] filter_cong) (auto simp: stakeSizeOptions_def js_def)

subsection \<open>One open row\<close>

lemma handleExpandedChange_single: "length (handleExpandedChange updater previous) \<le> 1"
  by (simp add: handleExpandedChange_def Let_def split: list.split)

text \<open>The row that opened is the one that stays open, and a row that was open stays when none opened.\<close>

lemma handleExpandedChange_row:
  assumes "handleExpandedChange updater previous = [(r, b)]"
  shows "b \<and> (r, True) \<in> set (updater previous) \<and>
    (\<not> expanded_getIsExpanded previous r \<or> (\<forall>e \<in> set (updater previous). snd e \<longrightarrow> expanded_getIsExpanded previous (fst e)))"
proof (cases "filter snd (updater previous)")
  case Nil
  then show ?thesis using assms by (simp add: handleExpandedChange_def)
next
  case (Cons e es)
  have sub: "x \<in> set (updater previous) \<and> snd x" if "x \<in> set (e # es)" for x using that by (simp flip: Cons)
  show ?thesis
  proof (cases "List.find (\<lambda>e. \<not> expanded_getIsExpanded previous (fst e)) (e # es)")
    case None
    have "\<forall>x \<in> set (updater previous). snd x \<longrightarrow> expanded_getIsExpanded previous (fst x)"
      using None unfolding find_None_iff by (auto simp flip: Cons)
    then show ?thesis using None assms Cons sub [of e] by (cases e) (auto simp: handleExpandedChange_def)
  next
    case (Some x)
    then have "x \<in> set (e # es)" "\<not> expanded_getIsExpanded previous (fst x)"
      unfolding find_Some_iff by (metis nth_mem)+
    moreover have "x = (fst x, True)" using sub [OF calculation(1)] by (cases x) simp
    ultimately show ?thesis using Some assms Cons sub [of x] by (auto simp: handleExpandedChange_def)
  qed
qed

subsection \<open>Unknown values are shown as unknown\<close>

text \<open>While the validators are not loaded every stake and share of the supporters is shown as unknown; a supporter
  that is a known validator is shown with its stake.\<close>

lemma supporters_unknown:
  assumes "r \<in> set (useProposalSupporters env None supports)"
  shows "map_of (supporter_cells r) (js ''stakedLamports'') = Some UNKNOWN_VALUE \<and>
         map_of (supporter_cells r) (js ''stakePercentage'') = Some UNKNOWN_VALUE"
  using assms by (cases supports) (auto simp: useProposalSupporters_def supporter_cells_def js_def Let_def split: option.splits)

subsection \<open>The mark of a copy\<close>

definition clipboard_run :: "nat \<Rightarrow> clipboard_event list \<Rightarrow> clipboard" where
  "clipboard_run d evs = foldl (clipboard_step d) clipboard_init evs"

lemma copied_has_timer: "cb_copied (clipboard_run d evs) \<Longrightarrow> cb_timers (clipboard_run d evs) \<noteq> []"
proof (induction evs rule: rev_induct)
  case (snoc e evs)
  then show ?case
    by (cases e) (auto simp: clipboard_run_def copyToClipboard_def split: list.splits if_splits)
qed (simp add: clipboard_run_def clipboard_init_def)

text \<open>The mark always goes away: once the pending timers have fired it is cleared and none is left.\<close>

lemma timers_fire:
  "foldl (clipboard_step d) st (replicate (length (cb_timers st)) TimerFires) =
     (if cb_timers st = [] then st else st\<lparr>cb_copied := False, cb_timers := []\<rparr>)"
proof (induction "cb_timers st" arbitrary: st)
  case (Cons t ts)
  from Cons.hyps(2) [symmetric] have step: "clipboard_step d st TimerFires = st\<lparr>cb_copied := False, cb_timers := ts\<rparr>" by simp
  have "foldl (clipboard_step d) (clipboard_step d st TimerFires) (replicate (length ts) TimerFires) =
      st\<lparr>cb_copied := False, cb_timers := []\<rparr>"
    unfolding step using Cons.hyps(1) [of "st\<lparr>cb_copied := False, cb_timers := ts\<rparr>"] by simp
  then show ?case by (simp flip: Cons.hyps(2) del: clipboard_step.simps)
qed simp

lemma mark_clears:
  "let st = clipboard_run d evs in
     \<not> cb_copied (clipboard_run d (evs @ replicate (length (cb_timers st)) TimerFires))"
  using copied_has_timer [of d evs] timers_fire [of d "clipboard_run d evs"] by (auto simp: clipboard_run_def Let_def)

text \<open>Two copies within the duration: the timer of the first clears the mark of the second.\<close>

lemma second_mark_cleared_early:
  "cb_copied (clipboard_run 1000 [CopyAnswered (js ''a'') True 0, CopyAnswered (js ''b'') True 900, TimerFires]) = False"
  by (simp add: clipboard_run_def clipboard_init_def copyToClipboard_def js_def)

subsection \<open>Pictures and labels\<close>

lemma logo_letter_iff:
  "ValidatorLogo name img (foldl logo_step logo_init evs) = LogoLetter (take 1 name) \<longleftrightarrow> \<not> is_set img \<or> ImgError \<in> set evs"
proof -
  have "lg_failed (foldl logo_step logo_init evs) \<longleftrightarrow> ImgError \<in> set evs"
  proof (induction evs rule: rev_induct)
    case (snoc e evs)
    then show ?case by (cases e) auto
  qed (simp add: logo_init_def)
  then show ?thesis by (auto simp: ValidatorLogo_def ValidatorLogoImage_def is_set_def split: option.splits)
qed

lemma checkCollisions_exact:
  "set (checkCollisions (Some f) moving previous) = {i. i < length moving \<and> (\<exists>r. moving ! i = Some r \<and> isOverlapping f r)}"
  "distinct (checkCollisions (Some f) moving previous)"
proof -
  show "set (checkCollisions (Some f) moving previous) = {i. i < length moving \<and> (\<exists>r. moving ! i = Some r \<and> isOverlapping f r)}"
    by (auto simp: checkCollisions_def in_set_enumerate_eq image_iff split: option.splits)
  show "distinct (checkCollisions (Some f) moving previous)"
    by (auto simp: checkCollisions_def distinct_map_filter)
qed

end
