(* ===== verification/Spec2Isabelle.thy ===== *)
theory Spec2Isabelle
  imports Quorum Proposal_Status Support_Stats Vote_Distribution Proposal_Instructions Doc_Cache
    Phase_Timeline Dates Proposals_Data Account_Reads Validators Settings Governance_Config
    Sentry_Filters Wallet_Roles Modal_Flow Query_Client Proposal_Views Validator_Tables
    Vote_Controls Detail_Page Table_Cells
begin

text \<open>
  The governance frontend (\<open>frontend/src\<close>): a web application in which validators and stakers of a
  chain create proposals, support them and vote on them.  It has no server of its own besides one
  route; it reads the chain through an RPC node, asks a verifier service for merkle proofs, builds
  the transactions, has the visitor's wallet sign them and submits them.  The documents of the
  proposals are read from GitHub.  This development models the logic of the application and proves
  what makes it correct.

  \<^bold>\<open>How the code is modelled.\<close>  A JavaScript number is an IEEE double (\<open>Js_Number\<close>: rounding to nearest,
  overflow, \<open>NaN\<close>), a string a list of UTF-16 code units (\<open>Js_String\<close>; \<open>Js_Uri\<close> has the percent
  encoding, \<open>Regex\<close> a backtracking matcher for the regular expressions, \<open>Js_Array\<close> the stable sort), a
  big number an integer.  A computation that may throw is a value of a sum type; an asynchronous
  function is an action that extends a log of events with every request, signature and submission it
  makes (\<open>Js_Io\<close>), so that orders and numbers of interactions are properties of the log.  The outside
  world (node, wallet, verifier, GitHub, storage, clock, third-party libraries) is a record of
  answers, an argument of the definitions; each answer may depend on the log so far, so that nothing
  is assumed about it but what a theorem states as a hypothesis.  \<open>Prelude\<close> has the error type and the
  shared lemmas, \<open>Chain_Types\<close> and \<open>Chain_Env\<close> the shared data and the environment.

  \<^bold>\<open>The parts.\<close>
  \<^item> Building instructions (\<open>chain/instructions\<close>).  \<open>Chain_Helpers\<close>: signing, program addresses, proofs,
    close times, validation (\<open>helpers.ts\<close>, \<open>types.ts\<close>).  \<open>Vote_Instructions\<close>: \<open>castVote\<close>,
    \<open>modifyVote\<close>, \<open>castVoteOverride\<close>, \<open>modifyVoteOverride\<close>.  \<open>Proposal_Instructions\<close>: \<open>createProposal\<close>,
    \<open>supportProposal\<close>, \<open>finalizeProposal\<close>, \<open>addMerkleRoot\<close>.  Their theorems say what is signed and
    submitted, in which order, and what is refused before anything happens.  The locale of safe
    actions in \<open>Js_Io\<close> is interpreted for each of these views of the log.
  \<^item> The verifier client (\<open>lib/ncnApi.ts\<close>, in \<open>Ncn_Api\<close>): attempts, timeouts, retries, errors and integers
    beyond the precision of a number.  The retry loop counts the retries that remain, so it ends.
  \<^item> Quorum, status and statistics (\<open>chain/quorum.ts\<close>, \<open>lib/proposals.ts\<close>, \<open>support-phase-progress\<close>, in
    \<open>Quorum\<close>, \<open>Proposal_Status\<close>, \<open>Support_Stats\<close>): the decisions computed with doubles agree with
    decisions over the integers; the status refines an integer lifecycle and never goes back.
  \<^item> Links and documents (\<open>lib/github\<close>, \<open>hooks/useProposalDocument.ts\<close>, in \<open>Proposal_Url\<close>, \<open>Validate_Url\<close>,
    \<open>Pick_File\<close>, \<open>Proposal_Document\<close>, \<open>Fetch_Document\<close>, \<open>Doc_Cache\<close>): classification and validation of
    links, compared with the check of the program (\<open>svmgov_program/src/utils.rs\<close>), retrieval of the
    document, and the cache in the browser, through the locale of a bounded store.
  \<^item> Reading the chain (\<open>data\<close>, \<open>hooks\<close>, in \<open>Proposals_Data\<close>, \<open>Account_Reads\<close>, \<open>Validators\<close>): the proposal
    list, the reads of votes, overrides and supports by byte offsets, checked against the account
    layouts of the program through the locale of keyed layouts, the validator list, voters and
    splits.
  \<^item> Configuration and settings (\<open>Governance_Config\<close>: \<open>lib/getGovernanceConfig.ts\<close>, the route
    \<open>app/api/governance/config\<close>, \<open>useGovernanceConfig\<close>; \<open>Networks\<close>: \<open>lib/getRpcUrls.ts\<close>,
    \<open>lib/snapshotNetwork.ts\<close>; \<open>Settings\<close>: the endpoint and verifier contexts as state machines).
  \<^item> Forms and views with logic of their own (\<open>Vote_Distribution\<close>: the vote form; \<open>Phase_Timeline\<close>: the
    timeline; \<open>Dates\<close>: countdowns and projected dates; \<open>Wallet_Roles\<close>: roles and cancelled signatures;
    \<open>Sentry_Filters\<close>: which errors are reported).
  \<^item> Dialogs (\<open>components/modals\<close>).  \<open>Dialogs\<close> has what they share: the effects of a handler and sessions, in
    which the visitor edits and presses, the hooks answer and submissions settle in any order, with
    the locale of a submit form that never has two submissions in flight.  \<open>Vote_Dialogs\<close> has the four
    voting dialogs, \<open>Proposal_Dialogs\<close> those for creating and supporting proposals and the settings;
    each interprets the locale.  \<open>Modal_Flow\<close> has the modal provider (\<open>contexts/ModalContext.tsx\<close>) and the
    controls that open dialogs.
  \<^item> From a dialog to the chain (\<open>hooks/useCastVote.ts\<close> and its siblings, \<open>data/*Mutation.ts\<close>, in \<open>Mutations\<close>):
    the composition of dialogs, mutation hooks and builders; its theorems say that what a form shows is
    what the wallet signs.
  \<^item> Stake (\<open>Stake_Accounts\<close>): the reads of stake accounts, voting power and the tables of accounts.
    \<open>Validator_Tables\<close>: the join of votes and validators, the table of validators with its pages and
    its export.
  \<^item> Queries (\<open>app/providers.tsx\<close>, the query hooks, in \<open>Query_Client\<close>): retries, reports of failures, and the
    one cache all hooks share, through the locale of keyed queries.
  \<^item> Pages (\<open>Formatting\<close>: amounts, addresses, page numbers, dashboard figures; \<open>Proposal_Views\<close>: the list with
    its filters, the table with its rows, quorum and countdown of the detail page).
    \<open>Timeline_Views\<close> draws the timeline on wide and on narrow screens and shows that the narrow row is a
    stretch of the wide one.  \<open>Detail_Page\<close> lays out the page of a proposal by its status, the visitor and the
    width of the screen, with the support figures, the panel of the table and the views of the dashboard
    (\<open>ProposalDetailView.tsx\<close>, \<open>support-phase-progress\<close>, \<open>ExternalProposalPanel.tsx\<close>,
    \<open>GovernanceDashboardLayout.tsx\<close>): every place offers the actions of the status.  \<open>Table_Cells\<close> has the
    table of vote accounts, the cells of the tables, pictures and copying; \<open>Vote_Controls\<close> the fields and
    buttons in which a vote is entered.

  \<^bold>\<open>Bounds.\<close>  The theorems over the integers ask for safe integers (magnitudes below \<open>2 ^ 53\<close>, in divisions
  \<open>2 ^ 52\<close>), which hold lamport totals of the network, epochs and times.  Loops of the source are
  recursive over their data; the two searches with a limit (retries, block times) count down from it,
  and the shortest decimal of a number is sought among at most 18 digits (17 suffice).

  \<^bold>\<open>Not modelled.\<close>  The layout of pages and components, styles and animation; the query and table
  libraries, the wallet adapters, Anchor and the web3 library beyond the answers the code uses; the
  generated account types and the sample data; date formatting by the platform's \<open>Intl\<close>, which is a
  parameter where a table shows it; analytics and the logging to the console.  Rust programs and the
  command line tool are other programs of the repository; of them only the link check and the account
  layouts the frontend depends on are modelled.

  This theory holds the properties that span components.
\<close>

section \<open>Signatures\<close>

text \<open>C2. In every run of the six builders of transactions, successful or not, everything that reaches
  the wallet is a transaction whose fee payer is the connected account, and everything submitted
  carries a signature of that account and passed the signature check.\<close>

theorem submissions_carry_own_signature:
  assumes "vp_wallet p = Some w" "op_wallet q = Some w" "cp_wallet c = Some w" "su_wallet s = Some w" "w_publicKey w = Some signer"
    and "m \<in> {castVote env p bp, modifyVote env p bp, castVoteOverride env q bp, modifyVoteOverride env q bp,
              createProposal env parse_url c bp, supportProposal env s bp slot va config}"
  shows "\<exists>evs. snd (m l) = l @ evs \<and> list_all (signed_ok env signer) evs"
proof -
  have "signed.safe env signer m"
    using assms signed_vote_flow signed_override_flow signed_createProposal signed_supportProposal
    by (auto simp: castVote_def modifyVote_def castVoteOverride_def modifyVoteOverride_def)
  then show ?thesis by (rule signed.safe_runD)
qed

theorem submissions_carry_own_signature_witness:
  "\<exists>evs. snd (createProposal (sample_env True) github_parser sample_create sample_chain []) = evs \<and>
     list_all (signed_ok (sample_env True) (PublicKey (js ''id''))) evs"
  using submissions_carry_own_signature [of sample_vote sample_wallet sample_override sample_create sample_support_params
      "PublicKey (js ''id'')" "createProposal (sample_env True) github_parser sample_create sample_chain" "sample_env True"
      sample_chain github_parser None None sample_config "[]"]
  by (simp add: sample_vote_def sample_override_def sample_create_def sample_support_params_def sample_wallet_def)

section \<open>The status of listed proposals\<close>



end
